(* ===== verification/Prelude.thy ===== *)
theory Prelude
  imports Main "HOL-Library.Word" "HOL-Library.List_Lexorder" "HOL-Library.Char_ord"
begin

text \<open>
  The vocabulary the component theories share: Rust's machine integers, \<open>Result\<close>, byte
  strings, the string functions the sources call, decimal rendering, and the ordered
  maps and sets (\<open>BTreeMap\<close>, \<open>BTreeSet\<close>) with the interface locale their clients reason
  through.

  A Rust \<open>String\<close> is the list of its UTF-8 bytes, a \<open>char list\<close>; \<open>as_bytes\<close> turns it into
  \<open>u8\<close> values, and the lexicographic order of the library (\<open>List_Lexorder\<close> over
  \<open>Char_ord\<close>) is Rust's byte-wise \<open>Ord\<close> of strings.
\<close>

section \<open>Collections of facts\<close>

named_theorems res_simps \<open>equations of the result combinators\<close>
named_theorems str_simps \<open>equations of the string functions\<close>
named_theorems bt_simps \<open>lookup equations of the ordered maps and sets\<close>

section \<open>Machine integers and bytes\<close>

type_synonym u8 = "8 word"
type_synonym u64 = "64 word"
type_synonym i64 = int
type_synonym bytes = "u8 list"

definition byte_of_char :: "char \<Rightarrow> u8" where
  "byte_of_char c = word_of_nat (of_char c)"

definition as_bytes :: "string \<Rightarrow> bytes" where
  "as_bytes s = map byte_of_char s"

lemma byte_of_char_inj: "byte_of_char c = byte_of_char d \<longleftrightarrow> c = d"
proof
  assume "byte_of_char c = byte_of_char d"
  then have "unat (byte_of_char c) = unat (byte_of_char d)"
    by simp
  then have "(of_char c :: nat) = of_char d"
    by (simp add: byte_of_char_def unat_of_nat)
  then show "c = d"
    by simp
qed simp

lemma as_bytes_inj [simp]: "as_bytes s = as_bytes t \<longleftrightarrow> s = t"
  unfolding as_bytes_def using inj_mapD [of byte_of_char]
  by (auto simp: inj_def byte_of_char_inj dest: map_injective)

lemma length_as_bytes [simp]: "length (as_bytes s) = length s"
  by (simp add: as_bytes_def)

section \<open>Result\<close>

text \<open>
  \<open>Result<T, E>\<close> is \<open>'e + 'a\<close> with \<open>Inl\<close> the error. \<open>try_bind\<close> is the \<open>?\<close> operator followed
  by the rest of the block, \<open>traverse\<close> a loop whose body may return early with an error.
\<close>

definition try_bind :: "'e + 'a \<Rightarrow> ('a \<Rightarrow> 'e + 'b) \<Rightarrow> 'e + 'b" where
  "try_bind r f = (case r of Inl e \<Rightarrow> Inl e | Inr x \<Rightarrow> f x)"

definition map_err :: "('e \<Rightarrow> 'f) \<Rightarrow> 'e + 'a \<Rightarrow> 'f + 'a" where
  "map_err f r = (case r of Inl e \<Rightarrow> Inl (f e) | Inr x \<Rightarrow> Inr x)"

definition ok_or :: "'e \<Rightarrow> 'a option \<Rightarrow> 'e + 'a" where
  "ok_or e x = (case x of None \<Rightarrow> Inl e | Some y \<Rightarrow> Inr y)"

fun traverse :: "('a \<Rightarrow> 'e + 'b) \<Rightarrow> 'a list \<Rightarrow> 'e + 'b list" where
  "traverse f [] = Inr []"
| "traverse f (x # xs) = try_bind (f x) (\<lambda>y. try_bind (traverse f xs) (\<lambda>ys. Inr (y # ys)))"

lemma try_bind_simps [simp, res_simps]:
  "try_bind (Inl e) f = Inl e"
  "try_bind (Inr x) f = f x"
  by (simp_all add: try_bind_def)

lemma map_err_simps [simp, res_simps]:
  "map_err f (Inl e) = Inl (f e)"
  "map_err f (Inr x) = Inr x"
  by (simp_all add: map_err_def)

lemma ok_or_simps [simp, res_simps]:
  "ok_or e None = Inl e"
  "ok_or e (Some x) = Inr x"
  by (simp_all add: ok_or_def)

lemma try_bind_Inr_iff [res_simps]:
  "try_bind r f = Inr y \<longleftrightarrow> (\<exists>x. r = Inr x \<and> f x = Inr y)"
  by (cases r) auto

lemma try_bind_Inl_iff [res_simps]:
  "try_bind r f = Inl e \<longleftrightarrow> r = Inl e \<or> (\<exists>x. r = Inr x \<and> f x = Inl e)"
  by (cases r) auto

lemma map_err_Inr_iff [res_simps]: "map_err f r = Inr x \<longleftrightarrow> r = Inr x"
  by (cases r) auto

lemma map_err_Inl_iff [res_simps]: "map_err f r = Inl e \<longleftrightarrow> (\<exists>d. r = Inl d \<and> e = f d)"
  by (cases r) auto

lemma ok_or_Inr_iff [res_simps]: "ok_or e r = Inr x \<longleftrightarrow> r = Some x"
  by (cases r) auto

lemma ok_or_Inl_iff [res_simps]: "ok_or e r = Inl d \<longleftrightarrow> r = None \<and> d = e"
  by (cases r) auto

lemma traverse_Inr_iff:
  "traverse f xs = Inr ys \<longleftrightarrow> list_all2 (\<lambda>x y. f x = Inr y) xs ys"
  by (induction xs arbitrary: ys) (auto simp: try_bind_Inr_iff list_all2_Cons1)

section \<open>Loops that append\<close>

lemma fold_append: "fold (\<lambda>x acc. acc @ f x) xs out = out @ concat (map f xs)"
  by (induction xs arbitrary: out) auto

lemma fold_append_if:
  "fold (\<lambda>x acc. if P x then acc @ [f x] else acc) xs out = out @ map f (filter P xs)"
  by (induction xs arbitrary: out) auto

lemma filter_concat_map: "filter P (concat (map f xs)) = concat (map (\<lambda>x. filter P (f x)) xs)"
  by (induction xs) auto

section \<open>Strings\<close>

definition NUL :: char where "NUL = CHR 0x00"
definition NL :: char where "NL = CHR 0x0A"
definition DQ :: char where "DQ = CHR 0x22"
definition BACKSLASH :: char where "BACKSLASH = CHR 0x5C"

text \<open>\<open>str::strip_prefix\<close>, \<open>str::trim_end_matches\<close>, \<open>str::trim\<close> and \<open>str::split_once\<close>.
  Trimming is over the ASCII white space of Unicode's \<open>White_Space\<close>.\<close>

definition strip_prefix :: "string \<Rightarrow> string \<Rightarrow> string option" where
  "strip_prefix p s = (if take (length p) s = p then Some (drop (length p) s) else None)"

definition trim_end_matches :: "char \<Rightarrow> string \<Rightarrow> string" where
  "trim_end_matches c s = rev (dropWhile (\<lambda>x. x = c) (rev s))"

definition trim_matches :: "char \<Rightarrow> string \<Rightarrow> string" where
  "trim_matches c s = trim_end_matches c (dropWhile (\<lambda>x. x = c) s)"

definition is_ws :: "char \<Rightarrow> bool" where
  "is_ws c = (c \<in> {CHR 0x09, CHR 0x0A, CHR 0x0B, CHR 0x0C, CHR 0x0D, CHR 0x20})"

definition trim :: "string \<Rightarrow> string" where
  "trim s = rev (dropWhile is_ws (rev (dropWhile is_ws s)))"

fun split_once :: "string \<Rightarrow> string \<Rightarrow> (string \<times> string) option" where
  "split_once sep [] = (if sep = [] then Some ([], []) else None)"
| "split_once sep (c # s) =
     (case strip_prefix sep (c # s) of
        Some rest \<Rightarrow> Some ([], rest)
      | None \<Rightarrow> map_option (\<lambda>(a, b). (c # a, b)) (split_once sep s))"

fun join :: "string \<Rightarrow> string list \<Rightarrow> string" where
  "join sep [] = []"
| "join sep [x] = x"
| "join sep (x # y # ys) = x @ sep @ join sep (y # ys)"

lemma strip_prefix_append [simp, str_simps]: "strip_prefix p (p @ s) = Some s"
  by (simp add: strip_prefix_def)

lemma strip_prefix_Some_iff [str_simps]: "strip_prefix p s = Some t \<longleftrightarrow> s = p @ t"
  by (auto simp: strip_prefix_def) (metis append_take_drop_id)

lemma trim_no_ws: "(\<And>c. c \<in> set s \<Longrightarrow> \<not> is_ws c) \<Longrightarrow> trim s = s"
proof -
  assume "\<And>c. c \<in> set s \<Longrightarrow> \<not> is_ws c"
  then have "dropWhile is_ws s = s" and "dropWhile is_ws (rev s) = rev s"
    by (auto simp: dropWhile_eq_self_iff hd_rev)
  then show ?thesis by (simp add: trim_def)
qed

section \<open>Decimal rendering\<close>

definition digit_char :: "nat \<Rightarrow> char" where
  "digit_char d = char_of (48 + d)"

fun nat_to_string :: "nat \<Rightarrow> string" where
  "nat_to_string n =
     (if n < 10 then [digit_char n] else nat_to_string (n div 10) @ [digit_char (n mod 10)])"

declare nat_to_string.simps [simp del]

definition i64_to_string :: "i64 \<Rightarrow> string" where
  "i64_to_string i = (if i < 0 then CHR ''-'' # nat_to_string (nat (- i)) else nat_to_string (nat i))"

definition is_digit_char :: "char \<Rightarrow> bool" where
  "is_digit_char c = (48 \<le> (of_char c :: nat) \<and> (of_char c :: nat) \<le> 57)"

lemma of_char_digit_char: "d < 10 \<Longrightarrow> (of_char (digit_char d) :: nat) = 48 + d"
  by (simp add: digit_char_def)

lemma digit_char_inj: "d < 10 \<Longrightarrow> e < 10 \<Longrightarrow> digit_char d = digit_char e \<longleftrightarrow> d = e"
  by (metis add_left_cancel of_char_digit_char)

lemma nat_to_string_not_Nil [simp]: "nat_to_string n \<noteq> []"
  by (subst nat_to_string.simps) simp

lemma nat_to_string_digits: "c \<in> set (nat_to_string n) \<Longrightarrow> is_digit_char c"
proof (induction n rule: nat_to_string.induct)
  case (1 n)
  have dig: "d < 10 \<Longrightarrow> is_digit_char (digit_char d)" for d
    by (simp add: is_digit_char_def of_char_digit_char)
  show ?case
  proof (cases "n < 10")
    case True
    with 1 dig [of n] show ?thesis by (simp add: nat_to_string.simps [of n])
  next
    case False
    with 1 dig [of "n mod 10"] show ?thesis
      by (auto simp: nat_to_string.simps [of n])
  qed
qed

lemma nat_to_string_inj [simp]: "nat_to_string m = nat_to_string n \<longleftrightarrow> m = n"
proof
  show "nat_to_string m = nat_to_string n \<Longrightarrow> m = n"
  proof (induction m arbitrary: n rule: nat_to_string.induct)
    case (1 m)
    show ?case
    proof (cases "m < 10")
      case True
      with "1.prems" have n: "n < 10"
        using nat_to_string_not_Nil [symmetric]
        by (auto simp: nat_to_string.simps [of m] nat_to_string.simps [of n] split: if_splits)
      with True "1.prems" show ?thesis
        by (simp add: nat_to_string.simps [of m] nat_to_string.simps [of n] digit_char_inj)
    next
      case False
      with "1.prems" have n: "\<not> n < 10"
        by (auto simp: nat_to_string.simps [of m] nat_to_string.simps [of n] split: if_splits)
      with False "1.prems" have "nat_to_string (m div 10) = nat_to_string (n div 10)"
        and "digit_char (m mod 10) = digit_char (n mod 10)"
        by (simp_all add: nat_to_string.simps [of m] nat_to_string.simps [of n])
      with False "1.IH" have "m div 10 = n div 10" and "m mod 10 = n mod 10"
        by (simp_all add: digit_char_inj)
      then show ?thesis by (metis div_mult_mod_eq)
    qed
  qed
qed simp

lemma i64_to_string_chars:
  "c \<in> set (i64_to_string i) \<Longrightarrow> is_digit_char c \<or> c = CHR ''-''"
  by (auto simp: i64_to_string_def split: if_splits dest: nat_to_string_digits)

lemma i64_to_string_not_Nil [simp]: "i64_to_string i \<noteq> []"
  by (simp add: i64_to_string_def)

lemma i64_to_string_inj [simp]: "i64_to_string i = i64_to_string j \<longleftrightarrow> i = j"
proof -
  have minus: "\<not> is_digit_char (CHR ''-'')"
    by (simp add: is_digit_char_def)
  have "nat_to_string n \<noteq> CHR ''-'' # s" for n s
    using nat_to_string_digits [of "CHR ''-''" n] minus by auto
  then show ?thesis
    by (auto simp: i64_to_string_def dest: sym)
qed

section \<open>Ordered maps and sets\<close>

text \<open>
  The contract of an ordered map as its clients use it: lookup after insertion, the
  entries in ascending key order, every key once.
\<close>

locale ordered_map =
  fixes empty :: "'m"
    and insert :: "'k::linorder \<Rightarrow> 'v \<Rightarrow> 'm \<Rightarrow> 'm"
    and get :: "'m \<Rightarrow> 'k \<Rightarrow> 'v option"
    and entries :: "'m \<Rightarrow> ('k \<times> 'v) list"
    and invar :: "'m \<Rightarrow> bool"
  assumes get_empty: "get empty = (\<lambda>_. None)"
    and get_insert: "invar m \<Longrightarrow> get (insert k v m) = (get m)(k \<mapsto> v)"
    and get_entries: "invar m \<Longrightarrow> get m k = Some v \<longleftrightarrow> (k, v) \<in> set (entries m)"
    and sorted_entries: "invar m \<Longrightarrow> sorted_wrt (<) (map fst (entries m))"
    and invar_empty: "invar empty"
    and invar_insert: "invar m \<Longrightarrow> invar (insert k v m)"
begin

lemma invar_collect: "invar m \<Longrightarrow> invar (fold (\<lambda>(k, v). insert k v) kvs m)"
  by (induction kvs arbitrary: m) (auto simp: invar_insert)

lemma get_collect:
  "invar m \<Longrightarrow> get (fold (\<lambda>(k, v). insert k v) kvs m) = (get m)(map fst kvs [\<mapsto>] map snd kvs)"
  by (induction kvs arbitrary: m) (auto simp: get_insert invar_insert)

lemma get_collect_empty:
  "get (fold (\<lambda>(k, v). insert k v) kvs empty) k = map_of (rev kvs) k"
  by (simp add: get_collect invar_empty get_empty map_upds_def zip_map_fst_snd map_add_def
      split: option.split)

lemma distinct_entries: "invar m \<Longrightarrow> distinct (map fst (entries m))"
  using sorted_entries strict_sorted_iff by blast

lemma get_None_iff: "invar m \<Longrightarrow> get m k = None \<longleftrightarrow> k \<notin> fst ` set (entries m)"
  using get_entries [of m k] by (cases "get m k") force+

lemma entries_unique:
  assumes "invar m" and "invar n" and "get m = get n"
  shows "entries m = entries n"
proof -
  have "(k, v) \<in> set (entries m) \<longleftrightarrow> (k, v) \<in> set (entries n)" for k v
    using assms get_entries by metis
  then have eq: "set (entries m) = set (entries n)"
    by auto
  have "inj_on fst (set (entries m) \<union> set (entries n))"
    using distinct_entries [OF assms(1)] eq by (simp add: distinct_map)
  with eq show ?thesis
    using assms sorted_entries strict_sorted_iff map_sorted_distinct_set_unique by metis
qed

end

text \<open>
  \<open>BTreeMap\<close> is the association list of its entries in key order, as iteration yields
  them; \<open>BTreeSet\<close> is the ascending list of its elements.
\<close>

type_synonym ('k, 'v) btree_map = "('k \<times> 'v) list"
type_synonym 'k btree_set = "'k list"

fun bt_insert :: "'k::linorder \<Rightarrow> 'v \<Rightarrow> ('k, 'v) btree_map \<Rightarrow> ('k, 'v) btree_map" where
  "bt_insert k v [] = [(k, v)]"
| "bt_insert k v ((a, b) # m) =
     (if k < a then (k, v) # (a, b) # m
      else if k = a then (k, v) # m
      else (a, b) # bt_insert k v m)"

abbreviation bt_get :: "('k, 'v) btree_map \<Rightarrow> 'k \<Rightarrow> 'v option" where
  "bt_get \<equiv> map_of"

definition bt_contains_key :: "('k, 'v) btree_map \<Rightarrow> 'k \<Rightarrow> bool" where
  "bt_contains_key m k = (bt_get m k \<noteq> None)"

definition bt_wf :: "('k::linorder, 'v) btree_map \<Rightarrow> bool" where
  "bt_wf m = sorted_wrt (<) (map fst m)"

definition bt_collect :: "('k::linorder \<times> 'v) list \<Rightarrow> ('k, 'v) btree_map" where
  "bt_collect kvs = fold (\<lambda>(k, v). bt_insert k v) kvs []"

fun bs_insert :: "'k::linorder \<Rightarrow> 'k btree_set \<Rightarrow> 'k btree_set" where
  "bs_insert k [] = [k]"
| "bs_insert k (a # s) =
     (if k < a then k # a # s else if k = a then a # s else a # bs_insert k s)"

definition bs_collect :: "'k::linorder list \<Rightarrow> 'k btree_set" where
  "bs_collect ks = fold bs_insert ks []"

lemma set_bt_insert_keys: "fst ` set (bt_insert k v m) = Set.insert k (fst ` set m)"
  by (induction k v m rule: bt_insert.induct) auto

lemma bt_wf_insert: "bt_wf m \<Longrightarrow> bt_wf (bt_insert k v m)"
proof (induction k v m rule: bt_insert.induct)
  case (2 k v a b m)
  have "fst ` set (bt_insert k v m) = Set.insert k (fst ` set m)"
    by (rule set_bt_insert_keys)
  with 2 show ?case
    by (auto simp: bt_wf_def)
qed (simp add: bt_wf_def)

lemma bt_get_insert: "bt_get (bt_insert k v m) = (bt_get m)(k \<mapsto> v)"
  by (induction k v m rule: bt_insert.induct) (auto simp: fun_eq_iff)

lemma bt_wf_distinct: "bt_wf m \<Longrightarrow> distinct (map fst m)"
  by (simp add: bt_wf_def strict_sorted_iff)

interpretation btm: ordered_map "[]" bt_insert bt_get "\<lambda>m. m" bt_wf
proof unfold_locales
  show "bt_wf m \<Longrightarrow> bt_get m k = Some v \<longleftrightarrow> (k, v) \<in> set m" for m :: "('a, 'b) btree_map" and k v
    by (auto simp: bt_wf_distinct dest: map_of_SomeD)
  show "bt_wf m \<Longrightarrow> sorted_wrt (<) (map fst m)" for m :: "('a, 'b) btree_map"
    by (simp add: bt_wf_def)
qed (simp_all add: bt_get_insert bt_wf_insert, simp add: bt_wf_def)

lemma bt_wf_Nil [simp]: "bt_wf []"
  by (simp add: bt_wf_def)

lemma bt_wf_collect [simp]: "bt_wf (bt_collect kvs)"
  unfolding bt_collect_def by (rule btm.invar_collect) simp

lemma bt_get_collect [bt_simps]: "bt_get (bt_collect kvs) k = map_of (rev kvs) k"
  unfolding bt_collect_def by (rule btm.get_collect_empty)

lemma bt_get_collect_distinct:
  "distinct (map fst kvs) \<Longrightarrow> bt_get (bt_collect kvs) k = map_of kvs k"
proof -
  assume "distinct (map fst kvs)"
  then have "map_of (rev kvs) = map_of kvs"
    by (intro map_of_inject_set [THEN iffD2]) (simp_all add: rev_map [symmetric])
  then show ?thesis by (simp add: bt_get_collect)
qed

lemma bt_contains_key_iff [bt_simps]: "bt_contains_key m k \<longleftrightarrow> k \<in> fst ` set m"
  by (simp add: bt_contains_key_def map_of_eq_None_iff)

lemma set_bs_insert [bt_simps]: "set (bs_insert k s) = Set.insert k (set s)"
  by (induction k s rule: bs_insert.induct) auto

lemma sorted_bs_insert: "sorted_wrt (<) s \<Longrightarrow> sorted_wrt (<) (bs_insert k s)"
  by (induction k s rule: bs_insert.induct) (auto simp: set_bs_insert)

lemma set_fold_bs_insert: "set (fold bs_insert ks s) = set ks \<union> set s"
  by (induction ks arbitrary: s) (auto simp: set_bs_insert)

lemma sorted_fold_bs_insert: "sorted_wrt (<) s \<Longrightarrow> sorted_wrt (<) (fold bs_insert ks s)"
  by (induction ks arbitrary: s) (auto simp: sorted_bs_insert)

lemma set_bs_collect [bt_simps]: "set (bs_collect ks) = set ks"
  by (simp add: bs_collect_def set_fold_bs_insert)

lemma sorted_bs_collect: "sorted_wrt (<) (bs_collect ks)"
  by (simp add: bs_collect_def sorted_fold_bs_insert)

section \<open>Services over time\<close>

text \<open>
  The contract every operation of a long-lived service keeps: a step from a consistent state
  leads to a consistent one and loses nothing of what it held. Then so does every history.
\<close>

locale growing_system =
  fixes step :: "'s \<Rightarrow> 's \<Rightarrow> bool"
    and inv :: "'s \<Rightarrow> bool"
    and grows :: "'s \<Rightarrow> 's \<Rightarrow> bool"
  assumes step_ok: "step s s' \<Longrightarrow> inv s \<Longrightarrow> inv s' \<and> grows s s'"
    and grows_refl: "inv s \<Longrightarrow> grows s s"
    and grows_trans: "grows s t \<Longrightarrow> grows t u \<Longrightarrow> grows s u"
begin

lemma history: "step\<^sup>*\<^sup>* s s' \<Longrightarrow> inv s \<Longrightarrow> inv s' \<and> grows s s'"
  by (induction rule: rtranclp_induct) (auto simp: grows_refl dest: step_ok intro: grows_trans)

end

end
