(* ===== verification/Wire.thy ===== *)
theory Wire
  imports Prelude
begin

text \<open>
  \<open>crates/wire/src/lib.rs\<close>: content addresses, the roster types, the vehicle tree, the
  diff of an observed against a desired tree, the convergence assessment and the
  per-component flash plan.

  The crates \<open>sha2\<close> and \<open>hex\<close> are not part of the repository: they are the fields of the
  record \<open>hash_api\<close>, an argument of every definition that hashes or renders a digest.
  \<open>hash_api_ok\<close> states what their documentation promises.
\<close>

section \<open>Content addressing\<close>

record 'h hash_api =
  sha_new :: 'h
  sha_update :: "'h \<Rightarrow> bytes \<Rightarrow> 'h"
  sha_finalize :: "'h \<Rightarrow> bytes"
  hex_encode :: "bytes \<Rightarrow> string"
  hex_decode :: "string \<Rightarrow> bytes option"

definition hex_digits :: string where
  "hex_digits = ''0123456789abcdef''"

definition hash_api_ok :: "'h hash_api \<Rightarrow> bool" where
  "hash_api_ok H \<longleftrightarrow>
     (\<forall>cs. sha_finalize H (fold (\<lambda>c s. sha_update H s c) cs (sha_new H)) =
           sha_finalize H (sha_update H (sha_new H) (concat cs))) \<and>
     (\<forall>s. length (sha_finalize H s) = 32) \<and>
     (\<forall>b. hex_decode H (hex_encode H b) = Some b) \<and>
     (\<forall>b. length (hex_encode H b) = 2 * length b) \<and>
     (\<forall>b. set (hex_encode H b) \<subseteq> set hex_digits)"

datatype ContentHash = ContentHash bytes

datatype 'h Hasher = Hasher 'h

datatype ParseHashError = NotHex | WrongLength

definition ContentHash_of :: "'h hash_api \<Rightarrow> bytes \<Rightarrow> ContentHash" where
  "ContentHash_of H bs = ContentHash (sha_finalize H (sha_update H (sha_new H) bs))"

fun ch_bytes :: "ContentHash \<Rightarrow> bytes" where
  "ch_bytes (ContentHash b) = b"

definition ch_from_bytes :: "bytes \<Rightarrow> ContentHash" where
  "ch_from_bytes b = ContentHash b"

definition hasher :: "'h hash_api \<Rightarrow> 'h Hasher" where
  "hasher H = Hasher (sha_new H)"

fun hasher_update :: "'h hash_api \<Rightarrow> 'h Hasher \<Rightarrow> bytes \<Rightarrow> 'h Hasher" where
  "hasher_update H (Hasher s) b = Hasher (sha_update H s b)"

fun hasher_finalize :: "'h hash_api \<Rightarrow> 'h Hasher \<Rightarrow> ContentHash" where
  "hasher_finalize H (Hasher s) = ContentHash (sha_finalize H s)"

definition to_prefixed :: "'h hash_api \<Rightarrow> ContentHash \<Rightarrow> string" where
  "to_prefixed H h = ''sha256:'' @ hex_encode H (ch_bytes h)"

definition ch_display :: "'h hash_api \<Rightarrow> ContentHash \<Rightarrow> string" where
  "ch_display H h = to_prefixed H h"

definition ch_debug :: "'h hash_api \<Rightarrow> ContentHash \<Rightarrow> string" where
  "ch_debug H h = ''ContentHash('' @ to_prefixed H h @ '')''"

definition ch_from_str :: "'h hash_api \<Rightarrow> string \<Rightarrow> ParseHashError + ContentHash" where
  "ch_from_str H s =
     (let hex_part = (case strip_prefix ''sha256:'' s of Some r \<Rightarrow> r | None \<Rightarrow> s)
      in try_bind (ok_or NotHex (hex_decode H hex_part))
           (\<lambda>bs. if length bs = 32 then Inr (ContentHash bs) else Inl WrongLength))"

definition ch_try_from :: "'h hash_api \<Rightarrow> string \<Rightarrow> ParseHashError + ContentHash" where
  "ch_try_from H s = ch_from_str H s"

definition ch_into_string :: "'h hash_api \<Rightarrow> ContentHash \<Rightarrow> string" where
  "ch_into_string H h = to_prefixed H h"

text \<open>A content address always carries 32 bytes (\<open>[u8; 32]\<close>).\<close>

definition ch_ok :: "ContentHash \<Rightarrow> bool" where
  "ch_ok h \<longleftrightarrow> length (ch_bytes h) = 32"

record ArtifactRef =
  ar_inner :: ContentHash
  ar_outer :: ContentHash
  ar_size :: u64

section \<open>The roster types\<close>

record Device =
  d_id :: string
  d_model :: "string option"
  d_status :: string
  d_pubkey :: "string option"
  d_ecu_id :: "string option"

record RegisterDevice =
  rd_id :: string
  rd_model :: "string option"
  rd_pubkey :: "string option"

record EnrollResponse =
  er_id :: string
  er_key_id :: string
  er_certificate_pem :: "string option"
  er_serial :: "string option"
  er_not_after :: "string option"
  er_fingerprint :: "string option"

record TrustBundle =
  anchors :: "(string, string) btree_map"

section \<open>The vehicle model\<close>

record Part =
  p_kind :: string
  p_id :: string
  p_content :: ContentHash

record UpdateMode =
  um_mode :: string
  um_supports_rollback :: bool
  um_dual_bank :: bool
  um_reset_kind :: string

record Entity =
  e_kind :: string
  e_version :: "string option"
  e_update_mode :: "UpdateMode option"
  e_parts :: "Part list"
  e_disabled :: bool
  e_admin_disabled :: "bool option"

record Tree =
  entities :: "(string, Entity) btree_map"

definition Entity_default :: Entity where
  "Entity_default = \<lparr>e_kind = [], e_version = None, e_update_mode = None, e_parts = [],
     e_disabled = False, e_admin_disabled = None\<rparr>"

definition Tree_default :: Tree where
  "Tree_default = \<lparr>entities = []\<rparr>"

datatype Change = Added | Removed | Changed

record PartChange =
  pc_entity :: string
  pc_change :: Change
  pc_part :: string
  pc_kind :: string

record TreeDiff =
  entities_added :: "string list"
  entities_removed :: "string list"
  td_parts :: "PartChange list"

definition TreeDiff_default :: TreeDiff where
  "TreeDiff_default = \<lparr>entities_added = [], entities_removed = [], td_parts = []\<rparr>"

definition td_is_empty :: "TreeDiff \<Rightarrow> bool" where
  "td_is_empty d \<longleftrightarrow> entities_added d = [] \<and> entities_removed d = [] \<and> td_parts d = []"

section \<open>The diff\<close>

text \<open>
  \<open>diff_parts\<close> appends to the vector \<open>out\<close> it is handed: first one pass over the desired
  parts against the observed parts keyed by id (a later part with the same id replaces an
  earlier one, as \<open>collect\<close> into a \<open>BTreeMap\<close> does), then one pass over the observed parts.
\<close>

definition part_change :: "string \<Rightarrow> Change \<Rightarrow> Part \<Rightarrow> PartChange" where
  "part_change ent c p = \<lparr>pc_entity = ent, pc_change = c, pc_part = p_id p, pc_kind = p_kind p\<rparr>"

definition diff_parts ::
    "string \<Rightarrow> Part list \<Rightarrow> Part list \<Rightarrow> PartChange list \<Rightarrow> PartChange list" where
  "diff_parts ent observed desired out =
     (let obs = bt_collect (map (\<lambda>p. (p_id p, p)) observed);
          des_ids = bs_collect (map p_id desired);
          out1 = fold (\<lambda>dp o1. case bt_get obs (p_id dp) of
                     None \<Rightarrow> o1 @ [part_change ent Added dp]
                   | Some op \<Rightarrow> if p_content op \<noteq> p_content dp
                                then o1 @ [part_change ent Changed dp] else o1) desired out
      in fold (\<lambda>op o2. if p_id op \<notin> set des_ids
                        then o2 @ [part_change ent Removed op] else o2) observed out1)"

definition diff_desired_step :: "Tree \<Rightarrow> string \<times> Entity \<Rightarrow> TreeDiff \<Rightarrow> TreeDiff" where
  "diff_desired_step observed pe out =
     (let path = fst pe; des = snd pe;
          out1 = (if \<not> bt_contains_key (entities observed) path
                  then out\<lparr>entities_added := entities_added out @ [path]\<rparr> else out);
          obs = (case bt_get (entities observed) path of Some e \<Rightarrow> e | None \<Rightarrow> Entity_default)
      in out1\<lparr>td_parts := diff_parts path (e_parts obs) (e_parts des) (td_parts out1)\<rparr>)"

definition diff_observed_step :: "Tree \<Rightarrow> string \<times> Entity \<Rightarrow> TreeDiff \<Rightarrow> TreeDiff" where
  "diff_observed_step desired pe out =
     (let path = fst pe; obs = snd pe
      in if \<not> bt_contains_key (entities desired) path
         then out\<lparr>entities_removed := entities_removed out @ [path],
                  td_parts := diff_parts path (e_parts obs) [] (td_parts out)\<rparr>
         else out)"

definition diff :: "Tree \<Rightarrow> Tree \<Rightarrow> TreeDiff" where
  "diff observed desired =
     fold (diff_observed_step desired) (entities observed)
       (fold (diff_desired_step observed) (entities desired) TreeDiff_default)"

section \<open>The convergence assessment\<close>

datatype AssessmentOutcome =
  Converged | ConvergedIgnoringDeviceOnly | Deferred | Actionable

record ConvergenceAssessment =
  outcome :: AssessmentOutcome
  ca_components :: "string list"
  ignored_device_only_entities :: "string list"

definition is_converged :: "ConvergenceAssessment \<Rightarrow> bool" where
  "is_converged a \<longleftrightarrow> outcome a = Converged \<or> outcome a = ConvergedIgnoringDeviceOnly"

text \<open>\<open>observed.entities.get(id).and_then(|e| e.admin_disabled)\<close>\<close>

definition observed_admin :: "Tree \<Rightarrow> string \<Rightarrow> bool option" where
  "observed_admin observed path = Option.bind (bt_get (entities observed) path) e_admin_disabled"

definition assess_added :: "Tree \<Rightarrow> string \<Rightarrow> string btree_set \<Rightarrow> string btree_set" where
  "assess_added desired i actionable =
     (case bt_get (entities desired) i of
        Some e \<Rightarrow> if \<not> e_disabled e then bs_insert i actionable else actionable
      | None \<Rightarrow> actionable)"

definition assess_part ::
    "Tree \<Rightarrow> Tree \<Rightarrow> PartChange \<Rightarrow> string btree_set \<Rightarrow> string btree_set" where
  "assess_part observed desired part actionable =
     (case bt_get (entities desired) (pc_entity part) of
        None \<Rightarrow> actionable
      | Some want \<Rightarrow>
          (let admin = observed_admin observed (pc_entity part)
           in if \<not> e_disabled want \<or> admin = Some False
              then bs_insert (pc_entity part) actionable else actionable))"

definition assess_admin :: "Tree \<Rightarrow> string \<times> Entity \<Rightarrow> string btree_set \<Rightarrow> string btree_set" where
  "assess_admin observed pe actionable =
     (let i = fst pe; want = snd pe; admin = observed_admin observed i
      in if (e_disabled want \<and> admin = Some False) \<or> (\<not> e_disabled want \<and> admin = Some True)
         then bs_insert i actionable else actionable)"

definition assess_tree :: "Tree \<Rightarrow> Tree \<Rightarrow> ConvergenceAssessment" where
  "assess_tree observed desired =
     (let delta = diff observed desired;
          actionable1 = fold (assess_added desired) (entities_added delta) [];
          actionable2 = fold (assess_part observed desired) (td_parts delta) actionable1;
          actionable3 = fold (assess_admin observed) (entities desired) actionable2;
          components = actionable3;
          oc = (if components = [] then
                  (if entities_removed delta = [] then Converged
                   else ConvergedIgnoringDeviceOnly)
                else if list_all (\<lambda>i. \<not> bt_contains_key (entities observed) i) components
                then Deferred else Actionable)
      in \<lparr>outcome = oc, ca_components = components,
          ignored_device_only_entities = entities_removed delta\<rparr>)"

section \<open>The flash plan\<close>

datatype PartPlan = Ship | Reuse

record PlannedPart =
  pp_entity :: string
  pp_part :: string
  pp_kind :: string
  pp_content :: ContentHash
  pp_plan :: PartPlan

record FlashPlan =
  fp_parts :: "PlannedPart list"

definition fp_ships :: "FlashPlan \<Rightarrow> PlannedPart list" where
  "fp_ships pl = filter (\<lambda>p. pp_plan p = Ship) (fp_parts pl)"

definition fp_reused :: "FlashPlan \<Rightarrow> PlannedPart list" where
  "fp_reused pl = filter (\<lambda>p. pp_plan p = Reuse) (fp_parts pl)"

definition fp_is_noop :: "FlashPlan \<Rightarrow> bool" where
  "fp_is_noop pl = list_all (\<lambda>p. pp_plan p = Reuse) (fp_parts pl)"

definition plan_part :: "string \<Rightarrow> (string, ContentHash) btree_map \<Rightarrow> Part \<Rightarrow> PlannedPart" where
  "plan_part epath active_at part =
     \<lparr>pp_entity = epath, pp_part = p_id part, pp_kind = p_kind part,
      pp_content = p_content part,
      pp_plan = (if bt_get active_at (p_id part) = Some (p_content part) then Reuse else Ship)\<rparr>"

definition plan_entity :: "Tree \<Rightarrow> string \<times> Entity \<Rightarrow> PlannedPart list" where
  "plan_entity observed pe =
     (let epath = fst pe; des = snd pe;
          active = (case bt_get (entities observed) epath of Some e \<Rightarrow> e | None \<Rightarrow> Entity_default);
          active_at = bt_collect (map (\<lambda>p. (p_id p, p_content p)) (e_parts active))
      in map (plan_part epath active_at) (e_parts des))"

definition flash_plan :: "Tree \<Rightarrow> Tree \<Rightarrow> FlashPlan" where
  "flash_plan observed desired =
     \<lparr>fp_parts = fold (\<lambda>pe parts. parts @ plan_entity observed pe) (entities desired) []\<rparr>"

section \<open>Content addresses: round trips and errors\<close>

named_theorems wire_simps \<open>closed forms of the wire operations\<close>

lemma hash_api_okD:
  assumes "hash_api_ok H"
  shows "sha_finalize H (fold (\<lambda>c s. sha_update H s c) cs (sha_new H)) =
           sha_finalize H (sha_update H (sha_new H) (concat cs))"
    and "length (sha_finalize H s) = 32"
    and "hex_decode H (hex_encode H b) = Some b"
    and "length (hex_encode H b) = 2 * length b"
    and "set (hex_encode H b) \<subseteq> set hex_digits"
  using assms unfolding hash_api_ok_def by blast+

lemma hex_encode_inj:
  "hash_api_ok H \<Longrightarrow> hex_encode H a = hex_encode H b \<longleftrightarrow> a = b"
  by (metis hash_api_okD(3) option.inject)

lemma strip_prefix_hex:
  assumes "hash_api_ok H"
  shows "strip_prefix ''sha256:'' (hex_encode H b) = None"
proof (rule ccontr)
  assume "strip_prefix ''sha256:'' (hex_encode H b) \<noteq> None"
  then obtain t where "hex_encode H b = ''sha256:'' @ t"
    by (auto simp: strip_prefix_Some_iff)
  then have "CHR ''s'' \<in> set (hex_encode H b)"
    by simp
  with hash_api_okD(5) [OF assms, of b] show False
    by (auto simp: hex_digits_def)
qed

lemma to_prefixed_inj:
  "hash_api_ok H \<Longrightarrow> to_prefixed H g = to_prefixed H h \<longleftrightarrow> g = h"
  by (cases g; cases h) (simp add: to_prefixed_def hex_encode_inj)

lemma ContentHash_of_ok: "hash_api_ok H \<Longrightarrow> ch_ok (ContentHash_of H bs)"
  by (simp add: ch_ok_def ContentHash_of_def hash_api_okD)

lemma hasher_fold:
  "fold (\<lambda>c h. hasher_update H h c) cs (Hasher s) = Hasher (fold (\<lambda>c s. sha_update H s c) cs s)"
  by (induction cs arbitrary: s) auto

lemma hasher_stream:
  "hash_api_ok H \<Longrightarrow>
   hasher_finalize H (fold (\<lambda>c h. hasher_update H h c) cs (hasher H)) = ContentHash_of H (concat cs)"
  by (simp add: hasher_def hasher_fold ContentHash_of_def hash_api_okD)

lemma ch_from_str_prefixed:
  "hash_api_ok H \<Longrightarrow> ch_ok h \<Longrightarrow> ch_from_str H (to_prefixed H h) = Inr h"
  by (cases h) (simp add: ch_from_str_def to_prefixed_def hash_api_okD ch_ok_def
      del: append.simps)

lemma ch_from_str_bare:
  "hash_api_ok H \<Longrightarrow> ch_ok h \<Longrightarrow> ch_from_str H (hex_encode H (ch_bytes h)) = Inr h"
  by (cases h) (simp add: ch_from_str_def strip_prefix_hex hash_api_okD ch_ok_def)

lemma ch_from_str_ok: "ch_from_str H s = Inr h \<Longrightarrow> ch_ok h"
  by (auto simp: ch_from_str_def ch_ok_def try_bind_Inr_iff Let_def split: if_splits)

section \<open>The slots of a tree\<close>

text \<open>
  What a slot of an entity holds: the content of the last part listed under that id.
  \<open>slot_of\<close> is the abstraction of a tree the theorems about the diff and the plan are
  stated over.
\<close>

definition slot :: "Part list \<Rightarrow> string \<Rightarrow> ContentHash option" where
  "slot ps i = map_of (rev (map (\<lambda>p. (p_id p, p_content p)) ps)) i"

definition slot_of :: "Tree \<Rightarrow> string \<Rightarrow> string \<Rightarrow> ContentHash option" where
  "slot_of t ent i = Option.bind (bt_get (entities t) ent) (\<lambda>e. slot (e_parts e) i)"

definition tree_ok :: "Tree \<Rightarrow> bool" where
  "tree_ok t \<longleftrightarrow> bt_wf (entities t) \<and>
     list_all (\<lambda>pe. distinct (map p_id (e_parts (snd pe)))) (entities t)"

lemma slot_None_iff: "slot ps i = None \<longleftrightarrow> i \<notin> p_id ` set ps"
  by (simp add: slot_def map_of_eq_None_iff image_image)

lemma slot_Nil [simp]: "slot [] i = None"
  by (simp add: slot_def)

lemma slot_distinct:
  "distinct (map p_id ps) \<Longrightarrow> p \<in> set ps \<Longrightarrow> slot ps (p_id p) = Some (p_content p)"
proof -
  assume d: "distinct (map p_id ps)" and p: "p \<in> set ps"
  have "distinct (map fst (rev (map (\<lambda>p. (p_id p, p_content p)) ps)))"
    using d by (simp add: rev_map [symmetric] comp_def)
  moreover have "(p_id p, p_content p) \<in> set (rev (map (\<lambda>p. (p_id p, p_content p)) ps))"
    using p by auto
  ultimately show ?thesis
    unfolding slot_def by (rule map_of_is_SomeI)
qed

lemma slot_SomeD: "slot ps i = Some h \<Longrightarrow> \<exists>p \<in> set ps. p_id p = i \<and> p_content p = h"
  unfolding slot_def by (auto dest!: map_of_SomeD)

lemma map_of_last_part:
  "map_option p_content (map_of (rev (map (\<lambda>p. (p_id p, p)) ps)) i) = slot ps i"
proof -
  have "rev (map (\<lambda>p. (p_id p, p_content p)) ps) =
        map (\<lambda>(k, v). (k, p_content v)) (rev (map (\<lambda>p. (p_id p, p)) ps))"
    by (simp add: rev_map)
  then show ?thesis
    unfolding slot_def by (simp add: map_of_map)
qed

lemma bt_get_active_at:
  "bt_get (bt_collect (map (\<lambda>p. (p_id p, p_content p)) ps)) i = slot ps i"
  by (simp add: bt_get_collect slot_def)

lemma slot_of_simps:
  "bt_get (entities t) ent = None \<Longrightarrow> slot_of t ent i = None"
  "bt_get (entities t) ent = Some e \<Longrightarrow> slot_of t ent i = slot (e_parts e) i"
  by (simp_all add: slot_of_def)

lemma slot_of_default:
  "slot (e_parts (case bt_get (entities t) ent of Some e \<Rightarrow> e | None \<Rightarrow> Entity_default)) i =
   slot_of t ent i"
  by (simp add: slot_of_def Entity_default_def split: option.split)

lemma tree_ok_wf: "tree_ok t \<Longrightarrow> bt_wf (entities t)"
  by (simp add: tree_ok_def)

lemma tree_ok_get: "tree_ok t \<Longrightarrow> bt_get (entities t) i = Some e \<longleftrightarrow> (i, e) \<in> set (entities t)"
  by (rule btm.get_entries) (rule tree_ok_wf)

lemma tree_ok_distinct:
  "tree_ok t \<Longrightarrow> (i, e) \<in> set (entities t) \<Longrightarrow> distinct (map p_id (e_parts e))"
  by (auto simp: tree_ok_def list_all_iff)

section \<open>Closed forms of the diff and the plan\<close>

definition part_delta :: "Tree \<Rightarrow> string \<Rightarrow> Part \<Rightarrow> PartChange list" where
  "part_delta observed ent dp =
     (case slot_of observed ent (p_id dp) of
        None \<Rightarrow> [part_change ent Added dp]
      | Some h \<Rightarrow> if h \<noteq> p_content dp then [part_change ent Changed dp] else [])"

definition removals :: "string \<Rightarrow> Part list \<Rightarrow> Part list \<Rightarrow> PartChange list" where
  "removals ent obs des =
     map (part_change ent Removed) (filter (\<lambda>op. p_id op \<notin> p_id ` set des) obs)"

lemma diff_parts_closed [wire_simps]:
  "diff_parts ent obs des out =
   out @ concat (map (\<lambda>dp. case slot obs (p_id dp) of
             None \<Rightarrow> [part_change ent Added dp]
           | Some h \<Rightarrow> if h \<noteq> p_content dp then [part_change ent Changed dp] else []) des)
       @ removals ent obs des"
proof -
  have step: "(case bt_get (bt_collect (map (\<lambda>p. (p_id p, p)) obs)) (p_id dp) of
        None \<Rightarrow> o1 @ [part_change ent Added dp]
      | Some op \<Rightarrow> if p_content op \<noteq> p_content dp then o1 @ [part_change ent Changed dp] else o1)
    = o1 @ (case slot obs (p_id dp) of
             None \<Rightarrow> [part_change ent Added dp]
           | Some h \<Rightarrow> if h \<noteq> p_content dp then [part_change ent Changed dp] else [])" for dp o1
    by (simp add: map_of_last_part [symmetric] bt_get_collect split: option.split)
  show ?thesis
    unfolding diff_parts_def Let_def step fold_append fold_append_if removals_def
    by (simp add: set_bs_collect)
qed

lemma diff_desired_step_closed:
  "diff_desired_step observed (path, d) out =
   \<lparr>entities_added = entities_added out @
      (if bt_contains_key (entities observed) path then [] else [path]),
    entities_removed = entities_removed out,
    td_parts = td_parts out @ concat (map (part_delta observed path) (e_parts d)) @
      removals path (e_parts (case bt_get (entities observed) path of
          Some e \<Rightarrow> e | None \<Rightarrow> Entity_default)) (e_parts d)\<rparr>"
  by (cases out) (simp add: diff_desired_step_def diff_parts_closed part_delta_def [abs_def]
      slot_of_default Let_def)

lemma diff_observed_step_closed:
  "diff_observed_step desired (path, e) out =
   \<lparr>entities_added = entities_added out,
    entities_removed = entities_removed out @
      (if bt_contains_key (entities desired) path then [] else [path]),
    td_parts = td_parts out @
      (if bt_contains_key (entities desired) path then [] else removals path (e_parts e) [])\<rparr>"
  by (cases out) (simp add: diff_observed_step_def diff_parts_closed Let_def)

lemma diff_desired_fold:
  "fold (diff_desired_step observed) des out =
   \<lparr>entities_added = entities_added out @
      filter (\<lambda>p. \<not> bt_contains_key (entities observed) p) (map fst des),
    entities_removed = entities_removed out,
    td_parts = td_parts out @ concat (map (\<lambda>(path, d).
      concat (map (part_delta observed path) (e_parts d)) @
      removals path (e_parts (case bt_get (entities observed) path of
          Some e \<Rightarrow> e | None \<Rightarrow> Entity_default)) (e_parts d)) des)\<rparr>"
proof (induction des arbitrary: out)
  case (Cons pe des)
  then show ?case
    by (cases pe) (simp add: diff_desired_step_closed)
qed (cases out, simp)

lemma diff_observed_fold:
  "fold (diff_observed_step desired) obs out =
   \<lparr>entities_added = entities_added out,
    entities_removed = entities_removed out @
      filter (\<lambda>p. \<not> bt_contains_key (entities desired) p) (map fst obs),
    td_parts = td_parts out @ concat (map (\<lambda>(path, e). removals path (e_parts e) [])
      (filter (\<lambda>pe. \<not> bt_contains_key (entities desired) (fst pe)) obs))\<rparr>"
proof (induction obs arbitrary: out)
  case (Cons pe obs)
  then show ?case
    by (cases pe) (simp add: diff_observed_step_closed)
qed (cases out, simp)

lemma diff_closed [wire_simps]:
  "diff observed desired =
   \<lparr>entities_added =
      filter (\<lambda>p. \<not> bt_contains_key (entities observed) p) (map fst (entities desired)),
    entities_removed =
      filter (\<lambda>p. \<not> bt_contains_key (entities desired) p) (map fst (entities observed)),
    td_parts = concat (map (\<lambda>(path, d).
        concat (map (part_delta observed path) (e_parts d)) @
        removals path (e_parts (case bt_get (entities observed) path of
            Some e \<Rightarrow> e | None \<Rightarrow> Entity_default)) (e_parts d)) (entities desired)) @
      concat (map (\<lambda>(path, e). removals path (e_parts e) [])
        (filter (\<lambda>pe. \<not> bt_contains_key (entities desired) (fst pe)) (entities observed)))\<rparr>"
  by (simp add: diff_def diff_desired_fold diff_observed_fold TreeDiff_default_def)

lemma plan_part_slot [wire_simps]:
  "plan_entity observed (path, d) =
   map (\<lambda>p. \<lparr>pp_entity = path, pp_part = p_id p, pp_kind = p_kind p, pp_content = p_content p,
      pp_plan = (if slot_of observed path (p_id p) = Some (p_content p) then Reuse else Ship)\<rparr>)
     (e_parts d)"
  by (simp add: plan_entity_def plan_part_def bt_get_active_at slot_of_default Let_def)

lemma flash_plan_closed [wire_simps]:
  "fp_parts (flash_plan observed desired) = concat (map (plan_entity observed) (entities desired))"
  by (simp add: flash_plan_def fold_append)

end
