(* ===== verification/Content.thy ===== *)
theory Content
  imports Wire
begin

text \<open>
  Tower 2's content core: \<open>software-tower/src/store.rs\<close> (the filesystem blob store with its
  temporary files, the artifact index), \<open>crypto.rs\<close> (encrypt-once) and \<open>content.rs\<close> (the
  streaming publish and the blob fetch).

  The blob directory is a map from file names to contents with the process-wide counter
  of temporary names. Every call into the operating system may fail: the argument \<open>io\<close>
  says which operations do. The zstd encoder and the AES-GCM backend are outside the
  repository and are the records \<open>zstd_api\<close> and \<open>aead_api\<close>.
\<close>

section \<open>Errors of the content API\<close>

datatype AppError = BadHash | BadRequest string | NotFound | Internal string

text \<open>\<open>IntoResponse for AppError\<close>: the status and the body the client sees.\<close>

fun into_response :: "AppError \<Rightarrow> nat \<times> string" where
  "into_response BadHash = (400, ''invalid content hash'')"
| "into_response (BadRequest m) = (400, m)"
| "into_response NotFound = (404, ''not found'')"
| "into_response (Internal e) = (500, ''internal error'')"

section \<open>The blob store\<close>

datatype io_op =
    CreateDirAll
  | CreateFile string
  | WriteFile string bytes
  | FlushSync string
  | TryExists string
  | RenameFile string string
  | RemoveFile string
  | OpenFile string
  | ReadMetadata string

datatype io_error = IoError io_op | SinkClosed

record blob_fs =
  fs_files :: "string \<Rightarrow> bytes option"
  fs_pid :: nat
  temp_seq :: u64

record FsBlobSink =
  sink_tmp :: string
  sink_file_open :: bool
  sink_committed :: bool

definition blob_path :: "'h hash_api \<Rightarrow> ContentHash \<Rightarrow> string" where
  "blob_path H outer = hex_encode H (ch_bytes outer)"

definition temp_name :: "nat \<Rightarrow> u64 \<Rightarrow> string" where
  "temp_name pid seq = ''.tmp.'' @ nat_to_string pid @ ''.'' @ nat_to_string (unat seq)"

definition blobs_begin :: "(io_op \<Rightarrow> bool) \<Rightarrow> blob_fs \<Rightarrow> blob_fs \<times> (io_error + FsBlobSink)" where
  "blobs_begin io fs =
     (if io CreateDirAll then (fs, Inl (IoError CreateDirAll))
      else
        (let seq = temp_seq fs;
             fs1 = fs\<lparr>temp_seq := seq + 1\<rparr>;
             tmp = temp_name (fs_pid fs) seq
         in if io (CreateFile tmp) then (fs1, Inl (IoError (CreateFile tmp)))
            else (fs1\<lparr>fs_files := (fs_files fs1)(tmp \<mapsto> [])\<rparr>,
                  Inr \<lparr>sink_tmp = tmp, sink_file_open = True, sink_committed = False\<rparr>)))"

definition sink_write_all ::
    "(io_op \<Rightarrow> bool) \<Rightarrow> blob_fs \<Rightarrow> FsBlobSink \<Rightarrow> bytes \<Rightarrow> blob_fs \<times> (io_error + unit)" where
  "sink_write_all io fs sink buf =
     (if \<not> sink_file_open sink then (fs, Inl SinkClosed)
      else if io (WriteFile (sink_tmp sink) buf) then (fs, Inl (IoError (WriteFile (sink_tmp sink) buf)))
      else (fs\<lparr>fs_files := (fs_files fs)(sink_tmp sink \<mapsto>
               (case fs_files fs (sink_tmp sink) of None \<Rightarrow> [] | Some b \<Rightarrow> b) @ buf)\<rparr>, Inr ()))"

definition remove_file :: "(io_op \<Rightarrow> bool) \<Rightarrow> blob_fs \<Rightarrow> string \<Rightarrow> blob_fs" where
  "remove_file io fs name =
     (if io (RemoveFile name) then fs else fs\<lparr>fs_files := (fs_files fs)(name := None)\<rparr>)"

text \<open>\<open>commit\<close> in its four parts, between which another publish can run: closing the file, the look
  for the destination, and dropping or renaming the temporary file.\<close>

definition sink_flush :: "(io_op \<Rightarrow> bool) \<Rightarrow> FsBlobSink \<Rightarrow> FsBlobSink \<times> (io_error + unit)" where
  "sink_flush io sink =
     (sink\<lparr>sink_file_open := False\<rparr>,
      if sink_file_open sink \<and> io (FlushSync (sink_tmp sink)) then Inl (IoError (FlushSync (sink_tmp sink)))
      else Inr ())"

definition dest_exists :: "'h hash_api \<Rightarrow> (io_op \<Rightarrow> bool) \<Rightarrow> blob_fs \<Rightarrow> ContentHash \<Rightarrow> bool" where
  "dest_exists H io fs outer =
     (\<not> io (TryExists (blob_path H outer)) \<and> fs_files fs (blob_path H outer) \<noteq> None)"

definition sink_discard :: "(io_op \<Rightarrow> bool) \<Rightarrow> blob_fs \<Rightarrow> FsBlobSink \<Rightarrow> blob_fs \<times> FsBlobSink" where
  "sink_discard io fs sink = (remove_file io fs (sink_tmp sink), sink\<lparr>sink_committed := True\<rparr>)"

definition sink_rename ::
    "'h hash_api \<Rightarrow> (io_op \<Rightarrow> bool) \<Rightarrow> blob_fs \<Rightarrow> FsBlobSink \<Rightarrow> ContentHash
       \<Rightarrow> blob_fs \<times> FsBlobSink \<times> (io_error + unit)" where
  "sink_rename H io fs sink outer =
     (let tmp = sink_tmp sink; dest = blob_path H outer
      in if io (RenameFile tmp dest) \<or> fs_files fs tmp = None
         then (fs, sink, Inl (IoError (RenameFile tmp dest)))
         else (fs\<lparr>fs_files := (fs_files fs)(tmp := None, dest := fs_files fs tmp)\<rparr>,
               sink\<lparr>sink_committed := True\<rparr>, Inr ()))"

definition sink_commit ::
    "'h hash_api \<Rightarrow> (io_op \<Rightarrow> bool) \<Rightarrow> blob_fs \<Rightarrow> FsBlobSink \<Rightarrow> ContentHash
       \<Rightarrow> blob_fs \<times> FsBlobSink \<times> (io_error + unit)" where
  "sink_commit H io fs sink outer =
     (case sink_flush io sink of
        (sink1, Inl e) \<Rightarrow> (fs, sink1, Inl e)
      | (sink1, Inr _) \<Rightarrow>
          if dest_exists H io fs outer
          then (case sink_discard io fs sink1 of (fs1, sink2) \<Rightarrow> (fs1, sink2, Inr ()))
          else sink_rename H io fs sink1 outer)"

definition sink_drop :: "(io_op \<Rightarrow> bool) \<Rightarrow> blob_fs \<Rightarrow> FsBlobSink \<Rightarrow> blob_fs" where
  "sink_drop io fs sink =
     (if \<not> sink_committed sink then remove_file io fs (sink_tmp sink) else fs)"

definition blobs_open ::
    "'h hash_api \<Rightarrow> (io_op \<Rightarrow> bool) \<Rightarrow> blob_fs \<Rightarrow> ContentHash \<Rightarrow> io_error + (u64 \<times> bytes) option" where
  "blobs_open H io fs outer =
     (let path = blob_path H outer in
      if io (OpenFile path) then Inl (IoError (OpenFile path))
      else case fs_files fs path of
             None \<Rightarrow> Inr None
           | Some b \<Rightarrow>
               if io (ReadMetadata path) then Inl (IoError (ReadMetadata path))
               else Inr (Some (word_of_nat (length b), b)))"

section \<open>The artifact index\<close>

definition CEK_LEN :: nat where "CEK_LEN = 16"
definition NONCE_LEN :: nat where "NONCE_LEN = 12"

record ArtifactEntry =
  ae_inner :: ContentHash
  ae_outer :: ContentHash
  ae_cek :: bytes
  ae_nonce :: bytes
  ae_size :: u64

text \<open>The trait \<open>ArtifactIndex\<close>: the two operations behind \<open>Arc<dyn ArtifactIndex>\<close>.\<close>

record 'i index_api =
  index_get :: "'i \<Rightarrow> ContentHash \<Rightarrow> string + ArtifactEntry option"
  index_put :: "'i \<Rightarrow> ArtifactEntry \<Rightarrow> string + 'i"

text \<open>A row of the table \<open>artifacts\<close>, keyed by the rendered inner hash; \<open>size\<close> is a signed
  \<open>BIGINT\<close>, and the tower may fail to reach the database.\<close>

record pg_artifact =
  row_outer_hash :: string
  row_cek :: bytes
  row_nonce :: bytes
  row_size :: i64

record PgIndex =
  pg_rows :: "string \<Rightarrow> pg_artifact option"
  pg_down :: bool

definition pg_get ::
    "'h hash_api \<Rightarrow> PgIndex \<Rightarrow> ContentHash \<Rightarrow> string + ArtifactEntry option" where
  "pg_get H ix inner =
     (if pg_down ix then Inl ''database error''
      else case pg_rows ix (to_prefixed H inner) of
        None \<Rightarrow> Inr None
      | Some row \<Rightarrow>
          try_bind (map_err (\<lambda>_. ''bad outer hash'') (ch_from_str H (row_outer_hash row)))
            (\<lambda>outer. if length (row_cek row) \<noteq> CEK_LEN then Inl ''bad cek''
              else if length (row_nonce row) \<noteq> NONCE_LEN then Inl ''bad nonce''
              else Inr (Some \<lparr>ae_inner = inner, ae_outer = outer, ae_cek = row_cek row,
                     ae_nonce = row_nonce row, ae_size = word_of_int (row_size row)\<rparr>)))"

definition pg_put :: "'h hash_api \<Rightarrow> PgIndex \<Rightarrow> ArtifactEntry \<Rightarrow> string + PgIndex" where
  "pg_put H ix e =
     (if pg_down ix then Inl ''database error''
      else Inr (case pg_rows ix (to_prefixed H (ae_inner e)) of
          Some _ \<Rightarrow> ix
        | None \<Rightarrow> ix\<lparr>pg_rows := (pg_rows ix)(to_prefixed H (ae_inner e) \<mapsto>
            \<lparr>row_outer_hash = to_prefixed H (ae_outer e), row_cek = ae_cek e,
             row_nonce = ae_nonce e, row_size = sint (ae_size e)\<rparr>)\<rparr>))"

definition pg_index_api :: "'h hash_api \<Rightarrow> PgIndex index_api" where
  "pg_index_api H = \<lparr>index_get = pg_get H, index_put = pg_put H\<rparr>"

type_synonym MemIndex = "ContentHash \<Rightarrow> ArtifactEntry option"

definition mem_get :: "MemIndex \<Rightarrow> ContentHash \<Rightarrow> string + ArtifactEntry option" where
  "mem_get m inner = Inr (m inner)"

definition mem_put :: "MemIndex \<Rightarrow> ArtifactEntry \<Rightarrow> string + MemIndex" where
  "mem_put m e = Inr (case m (ae_inner e) of Some _ \<Rightarrow> m | None \<Rightarrow> m(ae_inner e \<mapsto> e))"

definition mem_index_api :: "MemIndex index_api" where
  "mem_index_api = \<lparr>index_get = mem_get, index_put = mem_put\<rparr>"

section \<open>Encrypt-once\<close>

text \<open>
  The crypto backend: two draws of random bytes, the streaming AES-128-GCM encryptor (it
  fills an output buffer of the length of its input) and its tag. The decryptor is the
  rig's; it appears in the law only.
\<close>

record 's aead_api =
  random_cek :: "string + bytes"
  random_nonce :: "string + bytes"
  aes_gcm_encrypt_stream :: "bytes \<Rightarrow> bytes \<Rightarrow> string + 's"
  aead_update :: "'s \<Rightarrow> bytes \<Rightarrow> string + ('s \<times> bytes)"
  aead_finalize :: "'s \<Rightarrow> string + bytes"
  aead_decrypt :: "bytes \<Rightarrow> bytes \<Rightarrow> bytes \<Rightarrow> bytes option"

record 's StreamEncryptor =
  enc_cek :: bytes
  enc_nonce :: bytes
  enc_inner :: 's

definition StreamEncryptor_new :: "'s aead_api \<Rightarrow> string + 's StreamEncryptor" where
  "StreamEncryptor_new B =
     try_bind (random_cek B) (\<lambda>cek.
     try_bind (random_nonce B) (\<lambda>nonce.
     try_bind (aes_gcm_encrypt_stream B cek nonce) (\<lambda>inner.
       Inr \<lparr>enc_cek = cek, enc_nonce = nonce, enc_inner = inner\<rparr>)))"

definition enc_update ::
    "'s aead_api \<Rightarrow> 's StreamEncryptor \<Rightarrow> bytes \<Rightarrow> string + ('s StreamEncryptor \<times> bytes)" where
  "enc_update B enc plaintext =
     try_bind (aead_update B (enc_inner enc) plaintext) (\<lambda>(inner, out). Inr (enc\<lparr>enc_inner := inner\<rparr>, out))"

definition enc_finish :: "'s aead_api \<Rightarrow> 's StreamEncryptor \<Rightarrow> string + bytes" where
  "enc_finish B enc = aead_finalize B (enc_inner enc)"

section \<open>The streaming publish\<close>

text \<open>\<open>zstd::Encoder\<close> over a drained output vector: \<open>zstd_write\<close> returns what one
  \<open>write_all\<close> put into the vector, \<open>zstd_finish\<close> what is left at the end.\<close>

record 'z zstd_api =
  zstd_new :: "string + 'z"
  zstd_write :: "'z \<Rightarrow> bytes \<Rightarrow> string + ('z \<times> bytes)"
  zstd_finish :: "'z \<Rightarrow> string + bytes"
  zstd_decode :: "bytes \<Rightarrow> bytes option"

record ('h, 's, 'z) publish_state =
  ps_enc :: "'s StreamEncryptor"
  ps_zenc :: 'z
  ps_inner_h :: "'h Hasher"
  ps_outer_h :: "'h Hasher"
  ps_size :: u64

definition internal_io :: "io_error \<Rightarrow> AppError" where
  "internal_io e = Internal ''io error''"

definition write_ciphertext ::
    "'h hash_api \<Rightarrow> 's aead_api \<Rightarrow> (io_op \<Rightarrow> bool) \<Rightarrow> FsBlobSink \<Rightarrow> bytes
      \<Rightarrow> blob_fs \<times> ('h, 's, 'z) publish_state \<Rightarrow> blob_fs \<times> (AppError + ('h, 's, 'z) publish_state)" where
  "write_ciphertext H B io sink compressed st =
     (let fs = fst st; ps = snd st in
      if compressed = [] then (fs, Inr ps)
      else case enc_update B (ps_enc ps) compressed of
        Inl e \<Rightarrow> (fs, Inl (Internal (''encrypt failed: '' @ e)))
      | Inr (enc, ct) \<Rightarrow>
          (case sink_write_all io fs sink ct of
             (fs1, Inl e) \<Rightarrow> (fs1, Inl (internal_io e))
           | (fs1, Inr _) \<Rightarrow>
               (fs1, Inr (ps\<lparr>ps_enc := enc, ps_outer_h := hasher_update H (ps_outer_h ps) ct\<rparr>))))"

fun publish_chunks ::
    "'h hash_api \<Rightarrow> 's aead_api \<Rightarrow> 'z zstd_api \<Rightarrow> (io_op \<Rightarrow> bool) \<Rightarrow> FsBlobSink
      \<Rightarrow> (string + bytes) list \<Rightarrow> blob_fs \<times> ('h, 's, 'z) publish_state
      \<Rightarrow> blob_fs \<times> (AppError + ('h, 's, 'z) publish_state)" where
  "publish_chunks H B Z io sink [] st = (fst st, Inr (snd st))"
| "publish_chunks H B Z io sink (Inl e # rest) st =
     (fst st, Inl (BadRequest (''upload aborted: '' @ e)))"
| "publish_chunks H B Z io sink (Inr chunk # rest) st =
     (let ps = (snd st)\<lparr>ps_inner_h := hasher_update H (ps_inner_h (snd st)) chunk,
                        ps_size := ps_size (snd st) + word_of_nat (length chunk)\<rparr>
      in case zstd_write Z (ps_zenc ps) chunk of
           Inl e \<Rightarrow> (fst st, Inl (Internal (''compress failed: '' @ e)))
         | Inr (zenc, compressed) \<Rightarrow>
             (case write_ciphertext H B io sink compressed (fst st, ps\<lparr>ps_zenc := zenc\<rparr>) of
                (fs1, Inl e) \<Rightarrow> (fs1, Inl e)
              | (fs1, Inr ps1) \<Rightarrow> publish_chunks H B Z io sink rest (fs1, ps1)))"

definition publish_finish ::
    "'h hash_api \<Rightarrow> 's aead_api \<Rightarrow> 'z zstd_api \<Rightarrow> (io_op \<Rightarrow> bool) \<Rightarrow> FsBlobSink
      \<Rightarrow> blob_fs \<times> ('h, 's, 'z) publish_state \<Rightarrow> blob_fs \<times> (AppError + ('h, 's, 'z) publish_state)" where
  "publish_finish H B Z io sink st =
     (case zstd_finish Z (ps_zenc (snd st)) of
        Inl e \<Rightarrow> (fst st, Inl (Internal (''compress finalize failed: '' @ e)))
      | Inr tail \<Rightarrow>
          (case write_ciphertext H B io sink tail st of
             (fs1, Inl e) \<Rightarrow> (fs1, Inl e)
           | (fs1, Inr ps1) \<Rightarrow>
               (case enc_finish B (ps_enc ps1) of
                  Inl e \<Rightarrow> (fs1, Inl (Internal (''encrypt finalize failed: '' @ e)))
                | Inr tag \<Rightarrow>
                    (case sink_write_all io fs1 sink tag of
                       (fs2, Inl e) \<Rightarrow> (fs2, Inl (internal_io e))
                     | (fs2, Inr _) \<Rightarrow>
                         (fs2, Inr (ps1\<lparr>ps_outer_h := hasher_update H (ps_outer_h ps1) tag\<rparr>))))))"

text \<open>The tail of \<open>publish_stream\<close>: the dedup on the inner hash, the commit of the blob and
  the index entry. The sink is dropped on every path.\<close>

definition publish_store ::
    "'h hash_api \<Rightarrow> 'i index_api \<Rightarrow> (io_op \<Rightarrow> bool) \<Rightarrow> FsBlobSink \<Rightarrow> blob_fs \<Rightarrow> 'i
      \<Rightarrow> ('h, 's, 'z) publish_state \<Rightarrow> (blob_fs \<times> 'i) \<times> (AppError + ArtifactRef)" where
  "publish_store H A io sink fs ix ps =
     (let inner = hasher_finalize H (ps_inner_h ps); outer = hasher_finalize H (ps_outer_h ps)
      in case index_get A ix inner of
           Inl e \<Rightarrow> ((sink_drop io fs sink, ix), Inl (Internal e))
         | Inr (Some existing) \<Rightarrow>
             ((sink_drop io fs sink, ix),
              Inr \<lparr>ar_inner = ae_inner existing, ar_outer = ae_outer existing, ar_size = ae_size existing\<rparr>)
         | Inr None \<Rightarrow>
             (case sink_commit H io fs sink outer of
                (fs1, sink1, Inl e) \<Rightarrow> ((sink_drop io fs1 sink1, ix), Inl (internal_io e))
              | (fs1, sink1, Inr _) \<Rightarrow>
                  (case index_put A ix \<lparr>ae_inner = inner, ae_outer = outer,
                          ae_cek = enc_cek (ps_enc ps), ae_nonce = enc_nonce (ps_enc ps),
                          ae_size = ps_size ps\<rparr> of
                     Inl e \<Rightarrow> ((sink_drop io fs1 sink1, ix), Inl (Internal e))
                   | Inr ix1 \<Rightarrow>
                       ((sink_drop io fs1 sink1, ix1),
                        Inr \<lparr>ar_inner = inner, ar_outer = outer, ar_size = ps_size ps\<rparr>))))"

definition publish_stream ::
    "'h hash_api \<Rightarrow> 's aead_api \<Rightarrow> 'z zstd_api \<Rightarrow> 'i index_api \<Rightarrow> (io_op \<Rightarrow> bool)
      \<Rightarrow> (string + bytes) list \<Rightarrow> blob_fs \<times> 'i \<Rightarrow> (blob_fs \<times> 'i) \<times> (AppError + ArtifactRef)" where
  "publish_stream H B Z A io body st =
     (case StreamEncryptor_new B of
        Inl e \<Rightarrow> (st, Inl (Internal (''encryptor init failed: '' @ e)))
      | Inr enc \<Rightarrow>
        (case zstd_new Z of
           Inl e \<Rightarrow> (st, Inl (Internal (''zstd init failed: '' @ e)))
         | Inr zenc \<Rightarrow>
           (case blobs_begin io (fst st) of
              (fs1, Inl e) \<Rightarrow> ((fs1, snd st), Inl (internal_io e))
            | (fs1, Inr sink) \<Rightarrow>
                (let ps = \<lparr>ps_enc = enc, ps_zenc = zenc, ps_inner_h = hasher H,
                           ps_outer_h = hasher H, ps_size = 0\<rparr>
                 in case publish_chunks H B Z io sink body (fs1, ps) of
                      (fs2, Inl e) \<Rightarrow> ((sink_drop io fs2 sink, snd st), Inl e)
                    | (fs2, Inr ps1) \<Rightarrow>
                        (case publish_finish H B Z io sink (fs2, ps1) of
                           (fs3, Inl e) \<Rightarrow> ((sink_drop io fs3 sink, snd st), Inl e)
                         | (fs3, Inr ps2) \<Rightarrow> publish_store H A io sink fs3 (snd st) ps2)))))"

section \<open>Handlers\<close>

record blob_response =
  br_content_type :: string
  br_content_length :: string
  br_cache_control :: string
  br_body :: bytes

definition publish ::
    "'h hash_api \<Rightarrow> 's aead_api \<Rightarrow> 'z zstd_api \<Rightarrow> 'i index_api \<Rightarrow> (io_op \<Rightarrow> bool)
      \<Rightarrow> (string + bytes) list \<Rightarrow> blob_fs \<times> 'i \<Rightarrow> (blob_fs \<times> 'i) \<times> (AppError + ArtifactRef)" where
  "publish H B Z A io body st = publish_stream H B Z A io body st"

definition get_blob ::
    "'h hash_api \<Rightarrow> (io_op \<Rightarrow> bool) \<Rightarrow> blob_fs \<Rightarrow> string \<Rightarrow> AppError + blob_response" where
  "get_blob H io fs outer_text =
     try_bind (map_err (\<lambda>_. BadHash) (ch_from_str H outer_text)) (\<lambda>outer.
     try_bind (map_err internal_io (blobs_open H io fs outer)) (\<lambda>found.
       case found of
         Some (sz, body) \<Rightarrow>
           Inr \<lparr>br_content_type = ''application/octet-stream'',
                br_content_length = nat_to_string (unat sz),
                br_cache_control = ''public, immutable, max-age=31536000'', br_body = body\<rparr>
       | None \<Rightarrow> Inl NotFound))"

text \<open>\<open>releases.rs\<close>: \<open>GET /admin/artifacts/{inner}\<close>.\<close>

definition artifact_exists ::
    "'h hash_api \<Rightarrow> 'i index_api \<Rightarrow> 'i \<Rightarrow> string \<Rightarrow> AppError + ArtifactRef" where
  "artifact_exists H A ix inner_text =
     try_bind (map_err (\<lambda>_. BadHash) (ch_from_str H inner_text)) (\<lambda>inner.
     try_bind (map_err Internal (index_get A ix inner)) (\<lambda>found.
       case found of
         Some e \<Rightarrow> Inr \<lparr>ar_inner = ae_inner e, ar_outer = ae_outer e, ar_size = ae_size e\<rparr>
       | None \<Rightarrow> Inl NotFound))"

end
