(* ===== verification/Releases.thy ===== *)
theory Releases
  imports Content
begin

text \<open>
  \<open>software-tower/src/releases.rs\<close>: component releases (L2), vehicle releases (L1), channel
  targets and their resolution to the desired tree, over the tables the migrations create.

  A table is the list of its rows in insertion order, which is also the order in which a
  query without \<open>ORDER BY\<close> returns them here. Primary keys, unique indexes and foreign keys
  are checked by the insert operations; a violation is an \<open>sqlx_error\<close>, and the statements
  that ran before it stay, as the handlers use no transaction except in \<open>set_channel_target\<close>. JSON values are their
  text. The clock and the text form of a timestamp are fields of the database. Text is taken
  to be what a \<open>TEXT\<close> column can store (no NUL byte) and to sort by its bytes, and the connection
  to last: a statement fails for a constraint only.
\<close>

section \<open>Tables\<close>

record component_row =
  cr_id :: i64
  cr_entity_path :: string
  cr_entity_kind :: string
  cr_version :: string
  cr_identity_hash :: "string option"
  cr_created_at :: nat

record part_row =
  pr_release_id :: i64
  pr_part_id :: string
  pr_part_kind :: string
  pr_content_hash :: string

record vehicle_row =
  vr_id :: i64
  vr_tag :: string
  vr_version :: string
  vr_identity_hash :: "string option"
  vr_created_at :: nat
  vr_config_snapshot :: "string option"

record member_row =
  mr_vehicle_release_id :: i64
  mr_component_release_id :: i64
  mr_disabled :: bool

record target_row =
  tr_vehicle_release_id :: i64
  tr_device :: string
  tr_architecture :: string

record channel_row =
  ct_channel :: string
  ct_device :: string
  ct_architecture :: string
  ct_vehicle_release_id :: i64
  ct_tree_hash :: string
  ct_updated_at :: nat

record database =
  db_components :: "component_row list"
  db_parts :: "part_row list"
  db_vehicles :: "vehicle_row list"
  db_members :: "member_row list"
  db_targets :: "target_row list"
  db_channels :: "channel_row list"
  db_component_seq :: i64
  db_vehicle_seq :: i64
  db_now :: nat
  db_ts_text :: "nat \<Rightarrow> string"

datatype sqlx_error =
    RowNotFound
  | Protocol string
  | UniqueViolation string
  | ForeignKeyViolation string

fun sqlx_text :: "sqlx_error \<Rightarrow> string" where
  "sqlx_text RowNotFound = ''no rows returned''"
| "sqlx_text (Protocol m) = ''protocol error: '' @ m"
| "sqlx_text (UniqueViolation t) = ''unique violation: '' @ t"
| "sqlx_text (ForeignKeyViolation t) = ''foreign key violation: '' @ t"

definition db :: "sqlx_error \<Rightarrow> AppError" where
  "db e = Internal (sqlx_text e)"

text \<open>The pool of the application state is optional.\<close>

definition pool :: "database option \<Rightarrow> AppError + database" where
  "pool p = ok_or (Internal ''no database configured'') p"

section \<open>Statements\<close>

definition insert_component ::
    "database \<Rightarrow> string \<Rightarrow> string \<Rightarrow> string \<Rightarrow> string \<Rightarrow> database \<times> (sqlx_error + component_row)" where
  "insert_component d path kind ver ident =
     (let rid = db_component_seq d; d1 = d\<lparr>db_component_seq := rid + 1\<rparr>;
          row = \<lparr>cr_id = rid, cr_entity_path = path, cr_entity_kind = kind, cr_version = ver,
                 cr_identity_hash = Some ident, cr_created_at = db_now d\<rparr>
      in if \<exists>r \<in> set (db_components d). cr_entity_path r = path \<and> cr_identity_hash r = Some ident
         then (d1, Inl (UniqueViolation ''component_releases_identity''))
         else (d1\<lparr>db_components := db_components d @ [row]\<rparr>, Inr row))"

definition insert_part ::
    "database \<Rightarrow> part_row \<Rightarrow> database \<times> (sqlx_error + unit)" where
  "insert_part d row =
     (if pr_release_id row \<notin> cr_id ` set (db_components d)
      then (d, Inl (ForeignKeyViolation ''component_release_parts''))
      else if \<exists>r \<in> set (db_parts d). pr_release_id r = pr_release_id row \<and> pr_part_id r = pr_part_id row
      then (d, Inl (UniqueViolation ''component_release_parts''))
      else (d\<lparr>db_parts := db_parts d @ [row]\<rparr>, Inr ()))"

definition insert_vehicle ::
    "database \<Rightarrow> string \<Rightarrow> string \<Rightarrow> string \<Rightarrow> string option \<Rightarrow> database \<times> (sqlx_error + vehicle_row)" where
  "insert_vehicle d tag ver ident snapshot =
     (let vid = db_vehicle_seq d; d1 = d\<lparr>db_vehicle_seq := vid + 1\<rparr>;
          row = \<lparr>vr_id = vid, vr_tag = tag, vr_version = ver, vr_identity_hash = Some ident,
                 vr_created_at = db_now d, vr_config_snapshot = snapshot\<rparr>
      in if \<exists>r \<in> set (db_vehicles d). vr_tag r = tag \<and> vr_identity_hash r = Some ident
         then (d1, Inl (UniqueViolation ''vehicle_releases_identity''))
         else (d1\<lparr>db_vehicles := db_vehicles d @ [row]\<rparr>, Inr row))"

definition insert_member :: "database \<Rightarrow> member_row \<Rightarrow> database \<times> (sqlx_error + unit)" where
  "insert_member d row =
     (if mr_vehicle_release_id row \<notin> vr_id ` set (db_vehicles d) \<or>
         mr_component_release_id row \<notin> cr_id ` set (db_components d)
      then (d, Inl (ForeignKeyViolation ''vehicle_release_members''))
      else if \<exists>r \<in> set (db_members d). mr_vehicle_release_id r = mr_vehicle_release_id row \<and>
                mr_component_release_id r = mr_component_release_id row
      then (d, Inl (UniqueViolation ''vehicle_release_members''))
      else (d\<lparr>db_members := db_members d @ [row]\<rparr>, Inr ()))"

text \<open>The insert loops of the two create handlers: the first failing row ends the loop, the rows
  before it stay.\<close>

fun insert_all ::
    "(database \<Rightarrow> 'r \<Rightarrow> database \<times> (sqlx_error + unit)) \<Rightarrow> 'r list \<Rightarrow> database \<Rightarrow> database \<times> (sqlx_error + unit)" where
  "insert_all ins [] d = (d, Inr ())"
| "insert_all ins (r # rs) d =
     (case ins d r of
        (d1, Inl e) \<Rightarrow> (d1, Inl e)
      | (d1, Inr _) \<Rightarrow> insert_all ins rs d1)"

section \<open>Requests and responses\<close>

record NewPart =
  np_id :: string
  np_kind :: string
  np_content :: ContentHash

record NewComponentRelease =
  ncr_entity_path :: string
  ncr_entity_kind :: string
  ncr_version :: string
  ncr_parts :: "NewPart list"

record NewVehicleRelease =
  nvr_tag :: string
  nvr_version :: string
  nvr_members :: "i64 list"
  nvr_disabled_members :: "i64 list"
  nvr_config_snapshot :: "string option"

record SetChannelTarget =
  sct_channel :: string
  sct_device :: string
  sct_architecture :: string
  sct_vehicle_release_id :: i64

record TargetSelector =
  ts_channel :: "string option"
  ts_device :: "string option"
  ts_architecture :: "string option"
  ts_vehicle_release_id :: "i64 option"
  ts_tree_hash :: "string option"

record ReleaseRef =
  rr_id :: i64
  rr_version :: string
  rr_created_at :: string
  rr_reused :: bool

record VehicleRef =
  vref_id :: i64
  vref_tag :: string
  vref_version :: string
  vref_created_at :: string

record ChannelTargetState =
  cts_channel :: string
  cts_device :: "string option"
  cts_architecture :: "string option"
  cts_vehicle :: "VehicleRef option"
  cts_target_release :: "VehicleRef option"
  cts_tree_hash :: "string option"
  cts_config_snapshot :: "string option"

record ChannelTargetRef =
  ctr_channel :: string
  ctr_device :: string
  ctr_architecture :: string
  ctr_vehicle_release_id :: i64
  ctr_tree_hash :: string

record HistoryFilter =
  hf_entity_path :: "string option"
  hf_tag :: "string option"

record PartRow =
  prow_id :: string
  prow_kind :: string
  prow_content_hash :: string

record ComponentReleaseRow =
  crr_id :: i64
  crr_entity_path :: string
  crr_entity_kind :: string
  crr_version :: string
  crr_identity_hash :: "string option"
  crr_created_at :: string
  crr_parts :: "PartRow list"

record VehicleReleaseRow =
  vrr_id :: i64
  vrr_tag :: string
  vrr_version :: string
  vrr_identity_hash :: "string option"
  vrr_created_at :: string
  vrr_members :: "i64 list"

section \<open>Content identities\<close>

text \<open>What is hashed (\<open>_buf\<close>) and the rendered hash.\<close>

definition component_identity_buf :: "'h hash_api \<Rightarrow> string \<Rightarrow> NewPart list \<Rightarrow> string" where
  "component_identity_buf H entity_kind parts =
     entity_kind @ [NL] @
     concat (map (\<lambda>p. np_id p @ [NUL] @ np_kind p @ [NUL] @ to_prefixed H (np_content p) @ [NL])
       (sort_key np_id parts))"

definition component_identity :: "'h hash_api \<Rightarrow> string \<Rightarrow> NewPart list \<Rightarrow> string" where
  "component_identity H entity_kind parts =
     to_prefixed H (ContentHash_of H (as_bytes (component_identity_buf H entity_kind parts)))"

definition vehicle_identity_buf :: "i64 list \<Rightarrow> i64 list \<Rightarrow> string" where
  "vehicle_identity_buf members disabled_members =
     (let sorted_ids = remdups_adj (sort members);
          disabled = remdups_adj (sort (filter (\<lambda>d. d \<in> set sorted_ids) disabled_members))
      in join '','' (map i64_to_string sorted_ids) @
         (if disabled = [] then []
          else [NL] @ ''disabled:'' @ join '','' (map i64_to_string disabled)))"

definition vehicle_identity :: "'h hash_api \<Rightarrow> i64 list \<Rightarrow> i64 list \<Rightarrow> string" where
  "vehicle_identity H members disabled_members =
     to_prefixed H (ContentHash_of H (as_bytes (vehicle_identity_buf members disabled_members)))"

definition tree_part_line :: "'h hash_api \<Rightarrow> Part \<Rightarrow> string" where
  "tree_part_line H p = p_id p @ [NUL] @ to_prefixed H (p_content p) @ [NL]"

definition tree_entity_buf :: "'h hash_api \<Rightarrow> string \<times> Entity \<Rightarrow> string" where
  "tree_entity_buf H pe =
     fst pe @ [NL] @ (if e_disabled (snd pe) then ''disabled'' @ [NL] else []) @
     concat (map (tree_part_line H) (sort_key p_id (e_parts (snd pe))))"

definition tree_hash_buf :: "'h hash_api \<Rightarrow> Tree \<Rightarrow> string" where
  "tree_hash_buf H tree = concat (map (tree_entity_buf H) (entities tree))"

definition tree_hash :: "'h hash_api \<Rightarrow> Tree \<Rightarrow> string" where
  "tree_hash H tree = to_prefixed H (ContentHash_of H (as_bytes (tree_hash_buf H tree)))"

section \<open>Resolution\<close>

definition parse_stored_hash ::
    "'h hash_api \<Rightarrow> string \<Rightarrow> i64 \<Rightarrow> i64 \<Rightarrow> string \<Rightarrow> string \<Rightarrow> sqlx_error + ContentHash" where
  "parse_stored_hash H content_hash vid rid path pid =
     map_err (\<lambda>_. Protocol
        (''vehicle release '' @ i64_to_string vid @ '', component release '' @ i64_to_string rid @
         '' ('' @ path @ ''), part '' @ [CHR 0x27] @ pid @ [CHR 0x27] @ '': malformed content hash '' @
         [CHR 0x27] @ content_hash @ [CHR 0x27]))
       (ch_from_str H content_hash)"

definition resolve_part ::
    "'h hash_api \<Rightarrow> i64 \<Rightarrow> i64 \<Rightarrow> string \<Rightarrow> part_row \<Rightarrow> sqlx_error + Part" where
  "resolve_part H vid rid path p =
     try_bind (parse_stored_hash H (pr_content_hash p) vid rid path (pr_part_id p)) (\<lambda>content.
       Inr \<lparr>p_kind = pr_part_kind p, p_id = pr_part_id p, p_content = content\<rparr>)"

definition resolve_member ::
    "'h hash_api \<Rightarrow> database \<Rightarrow> i64 \<Rightarrow> member_row \<Rightarrow> sqlx_error + string \<times> Entity" where
  "resolve_member H d vid m =
     (let rid = mr_component_release_id m in
      try_bind (ok_or RowNotFound (find (\<lambda>r. cr_id r = rid) (db_components d))) (\<lambda>row.
      try_bind (traverse (resolve_part H vid rid (cr_entity_path row))
                 (filter (\<lambda>p. pr_release_id p = rid) (db_parts d))) (\<lambda>parts.
        Inr (cr_entity_path row,
             \<lparr>e_kind = cr_entity_kind row, e_version = Some (cr_version row), e_update_mode = None,
              e_parts = parts, e_disabled = mr_disabled m, e_admin_disabled = None\<rparr>))))"

definition resolve_members_to_tree ::
    "'h hash_api \<Rightarrow> database \<Rightarrow> i64 \<Rightarrow> sqlx_error + Tree" where
  "resolve_members_to_tree H d vid =
     try_bind (traverse (resolve_member H d vid)
                (filter (\<lambda>m. mr_vehicle_release_id m = vid) (db_members d))) (\<lambda>kvs.
       Inr \<lparr>entities = bt_collect kvs\<rparr>)"

definition channel_target_vehicle ::
    "database \<Rightarrow> string \<Rightarrow> string option \<Rightarrow> string option \<Rightarrow> i64 option" where
  "channel_target_vehicle d channel device architecture =
     (case (device, architecture) of
        (Some dev, Some arch) \<Rightarrow>
          map_option ct_vehicle_release_id
            (find (\<lambda>r. ct_channel r = channel \<and> ct_device r = dev \<and> ct_architecture r = arch) (db_channels d))
      | _ \<Rightarrow>
          (case filter (\<lambda>r. ct_channel r = channel) (db_channels d) of
             [r] \<Rightarrow> Some (ct_vehicle_release_id r)
           | _ \<Rightarrow> None))"

definition resolve_channel_target ::
    "'h hash_api \<Rightarrow> database \<Rightarrow> string \<Rightarrow> string option \<Rightarrow> string option \<Rightarrow> sqlx_error + Tree option" where
  "resolve_channel_target H d channel device architecture =
     (case channel_target_vehicle d channel device architecture of
        None \<Rightarrow> Inr None
      | Some vid \<Rightarrow> try_bind (resolve_members_to_tree H d vid) (\<lambda>t. Inr (Some t)))"

definition release_matches_target :: "database \<Rightarrow> i64 \<Rightarrow> string \<Rightarrow> string \<Rightarrow> bool" where
  "release_matches_target d vid device architecture \<longleftrightarrow>
     (\<exists>r \<in> set (db_targets d). tr_vehicle_release_id r = vid \<and> tr_device r = device \<and>
        tr_architecture r = architecture)"

definition resolve_target ::
    "'h hash_api \<Rightarrow> database \<Rightarrow> TargetSelector \<Rightarrow> AppError + Tree option" where
  "resolve_target H d sel =
     try_bind
       (case ts_vehicle_release_id sel of
          Some vid \<Rightarrow>
            if vid \<notin> vr_id ` set (db_vehicles d) then Inr None
            else try_bind (map_err db (resolve_members_to_tree H d vid)) (\<lambda>t. Inr (Some t))
        | None \<Rightarrow>
            (case ts_channel sel of
               Some channel \<Rightarrow>
                 map_err db (resolve_channel_target H d channel (ts_device sel) (ts_architecture sel))
             | None \<Rightarrow> Inl (BadRequest ''channel or vehicle_release_id is required'')))
       (\<lambda>tree. case (ts_tree_hash sel, tree) of
          (Some expected, Some t) \<Rightarrow>
            if tree_hash H t \<noteq> expected then Inl (BadRequest ''tree_hash does not match release'')
            else Inr tree
        | _ \<Rightarrow> Inr tree)"

section \<open>Handlers\<close>

definition component_ref :: "database \<Rightarrow> component_row \<Rightarrow> bool \<Rightarrow> ReleaseRef" where
  "component_ref d row reused =
     \<lparr>rr_id = cr_id row, rr_version = cr_version row, rr_created_at = db_ts_text d (cr_created_at row),
      rr_reused = reused\<rparr>"

definition vehicle_ref :: "database \<Rightarrow> vehicle_row \<Rightarrow> bool \<Rightarrow> ReleaseRef" where
  "vehicle_ref d row reused =
     \<lparr>rr_id = vr_id row, rr_version = vr_version row, rr_created_at = db_ts_text d (vr_created_at row),
      rr_reused = reused\<rparr>"

definition create_component_release ::
    "'h hash_api \<Rightarrow> database \<Rightarrow> NewComponentRelease \<Rightarrow> database \<times> (AppError + ReleaseRef)" where
  "create_component_release H d req =
     (let identity = component_identity H (ncr_entity_kind req) (ncr_parts req)
      in case find (\<lambda>r. cr_entity_path r = ncr_entity_path req \<and> cr_identity_hash r = Some identity)
                (db_components d) of
           Some row \<Rightarrow> (d, Inr (component_ref d row True))
         | None \<Rightarrow>
             (case insert_component d (ncr_entity_path req) (ncr_entity_kind req) (ncr_version req) identity of
                (d1, Inl e) \<Rightarrow> (d1, Inl (db e))
              | (d1, Inr row) \<Rightarrow>
                  (case insert_all insert_part
                      (map (\<lambda>p. \<lparr>pr_release_id = cr_id row, pr_part_id = np_id p, pr_part_kind = np_kind p,
                                 pr_content_hash = to_prefixed H (np_content p)\<rparr>) (ncr_parts req)) d1 of
                     (d2, Inl e) \<Rightarrow> (d2, Inl (db e))
                   | (d2, Inr _) \<Rightarrow> (d2, Inr (component_ref d row False)))))"

definition set_snapshot :: "i64 \<Rightarrow> string option \<Rightarrow> vehicle_row \<Rightarrow> vehicle_row" where
  "set_snapshot vid snapshot r =
     (if vr_id r = vid
      then r\<lparr>vr_config_snapshot := (case vr_config_snapshot r of Some s \<Rightarrow> Some s | None \<Rightarrow> snapshot)\<rparr>
      else r)"

definition create_vehicle_release ::
    "'h hash_api \<Rightarrow> database \<Rightarrow> NewVehicleRelease \<Rightarrow> database \<times> (AppError + ReleaseRef)" where
  "create_vehicle_release H d req =
     (let identity = vehicle_identity H (nvr_members req) (nvr_disabled_members req)
      in case find (\<lambda>r. vr_tag r = nvr_tag req \<and> vr_identity_hash r = Some identity) (db_vehicles d) of
           Some row \<Rightarrow>
             ((if nvr_config_snapshot req \<noteq> None
               then d\<lparr>db_vehicles := map (set_snapshot (vr_id row) (nvr_config_snapshot req)) (db_vehicles d)\<rparr>
               else d),
              Inr (vehicle_ref d row True))
         | None \<Rightarrow>
             (case insert_vehicle d (nvr_tag req) (nvr_version req) identity (nvr_config_snapshot req) of
                (d1, Inl e) \<Rightarrow> (d1, Inl (db e))
              | (d1, Inr row) \<Rightarrow>
                  (case insert_all insert_member
                      (map (\<lambda>m. \<lparr>mr_vehicle_release_id = vr_id row, mr_component_release_id = m,
                                 mr_disabled = (m \<in> set (nvr_disabled_members req))\<rparr>) (nvr_members req)) d1 of
                     (d2, Inl e) \<Rightarrow> (d2, Inl (db e))
                   | (d2, Inr _) \<Rightarrow> (d2, Inr (vehicle_ref d row False)))))"

text \<open>\<open>ORDER BY created_at DESC, id DESC\<close>.\<close>

definition newest_first :: "('r \<Rightarrow> nat) \<Rightarrow> ('r \<Rightarrow> i64) \<Rightarrow> 'r list \<Rightarrow> 'r list" where
  "newest_first at i rs = rev (sort_key at (sort_key i rs))"

definition list_component_releases :: "database \<Rightarrow> HistoryFilter \<Rightarrow> ComponentReleaseRow list" where
  "list_component_releases d f =
     map (\<lambda>r. \<lparr>crr_id = cr_id r, crr_entity_path = cr_entity_path r, crr_entity_kind = cr_entity_kind r,
              crr_version = cr_version r, crr_identity_hash = cr_identity_hash r,
              crr_created_at = db_ts_text d (cr_created_at r),
              crr_parts = map (\<lambda>p. \<lparr>prow_id = pr_part_id p, prow_kind = pr_part_kind p,
                                   prow_content_hash = pr_content_hash p\<rparr>)
                (sort_key pr_part_id (filter (\<lambda>p. pr_release_id p = cr_id r) (db_parts d)))\<rparr>)
       (newest_first cr_created_at cr_id
         (filter (\<lambda>r. hf_entity_path f = None \<or> hf_entity_path f = Some (cr_entity_path r)) (db_components d)))"

definition list_vehicle_releases :: "database \<Rightarrow> HistoryFilter \<Rightarrow> VehicleReleaseRow list" where
  "list_vehicle_releases d f =
     map (\<lambda>r. \<lparr>vrr_id = vr_id r, vrr_tag = vr_tag r, vrr_version = vr_version r,
              vrr_identity_hash = vr_identity_hash r, vrr_created_at = db_ts_text d (vr_created_at r),
              vrr_members = sort (map mr_component_release_id
                (filter (\<lambda>m. mr_vehicle_release_id m = vr_id r) (db_members d)))\<rparr>)
       (newest_first vr_created_at vr_id
         (filter (\<lambda>r. hf_tag f = None \<or> hf_tag f = Some (vr_tag r)) (db_vehicles d)))"

definition insert_target :: "database \<Rightarrow> target_row \<Rightarrow> sqlx_error + database" where
  "insert_target d row =
     (if row \<in> set (db_targets d) then Inr d
      else if tr_vehicle_release_id row \<notin> vr_id ` set (db_vehicles d)
      then Inl (ForeignKeyViolation ''vehicle_release_targets'')
      else Inr (d\<lparr>db_targets := db_targets d @ [row]\<rparr>))"

definition upsert_channel :: "database \<Rightarrow> channel_row \<Rightarrow> sqlx_error + database" where
  "upsert_channel d row =
     (let same = (\<lambda>r. ct_channel r = ct_channel row \<and> ct_device r = ct_device row \<and>
                     ct_architecture r = ct_architecture row)
      in if ct_vehicle_release_id row \<notin> vr_id ` set (db_vehicles d)
         then Inl (ForeignKeyViolation ''channel_targets'')
         else if \<exists>r \<in> set (db_channels d). same r
         then Inr (d\<lparr>db_channels := map (\<lambda>r. if same r then row else r) (db_channels d)\<rparr>)
         else Inr (d\<lparr>db_channels := db_channels d @ [row]\<rparr>))"

text \<open>The transaction of \<open>set_channel_target\<close>: both inserts, or neither.\<close>

definition point_channel ::
    "'h hash_api \<Rightarrow> SetChannelTarget \<Rightarrow> database \<Rightarrow> Tree \<Rightarrow> database \<times> (AppError + ChannelTargetRef)" where
  "point_channel H req d tree =
     (let th = tree_hash H tree in
      case try_bind (insert_target d \<lparr>tr_vehicle_release_id = sct_vehicle_release_id req,
               tr_device = sct_device req, tr_architecture = sct_architecture req\<rparr>)
            (\<lambda>d1. upsert_channel d1 \<lparr>ct_channel = sct_channel req, ct_device = sct_device req,
               ct_architecture = sct_architecture req,
               ct_vehicle_release_id = sct_vehicle_release_id req, ct_tree_hash = th,
               ct_updated_at = db_now d\<rparr>) of
        Inl e \<Rightarrow> (d, Inl (db e))
      | Inr d2 \<Rightarrow>
          (d2, Inr \<lparr>ctr_channel = sct_channel req, ctr_device = sct_device req,
                    ctr_architecture = sct_architecture req,
                    ctr_vehicle_release_id = sct_vehicle_release_id req, ctr_tree_hash = th\<rparr>))"

definition set_channel_target ::
    "'h hash_api \<Rightarrow> database \<Rightarrow> SetChannelTarget \<Rightarrow> database \<times> (AppError + ChannelTargetRef)" where
  "set_channel_target H d req =
     (case resolve_members_to_tree H d (sct_vehicle_release_id req) of
        Inl e \<Rightarrow> (d, Inl (db e))
      | Inr tree \<Rightarrow> point_channel H req d tree)"

text \<open>The join of \<open>channel_targets\<close> with \<open>vehicle_releases\<close>.\<close>

definition channel_join :: "database \<Rightarrow> (channel_row \<times> vehicle_row) list" where
  "channel_join d =
     concat (map (\<lambda>c. map (Pair c) (filter (\<lambda>v. vr_id v = ct_vehicle_release_id c) (db_vehicles d)))
       (db_channels d))"

definition vref_of :: "database \<Rightarrow> vehicle_row \<Rightarrow> VehicleRef" where
  "vref_of d v = \<lparr>vref_id = vr_id v, vref_tag = vr_tag v, vref_version = vr_version v,
     vref_created_at = db_ts_text d (vr_created_at v)\<rparr>"

definition list_channels :: "database \<Rightarrow> ChannelTargetState list" where
  "list_channels d =
     map (\<lambda>(c, v). \<lparr>cts_channel = ct_channel c, cts_device = Some (ct_device c),
              cts_architecture = Some (ct_architecture c), cts_vehicle = Some (vref_of d v),
              cts_target_release = Some (vref_of d v), cts_tree_hash = Some (ct_tree_hash c),
              cts_config_snapshot = vr_config_snapshot v\<rparr>)
       (sort_key (ct_channel \<circ> fst) (sort_key (ct_device \<circ> fst)
          (sort_key (ct_architecture \<circ> fst) (channel_join d))))"

text \<open>\<open>ORDER BY updated_at DESC LIMIT 1\<close>: a row with the greatest time, the first of several.\<close>

fun latest :: "(channel_row \<times> vehicle_row) list \<Rightarrow> (channel_row \<times> vehicle_row) option" where
  "latest [] = None"
| "latest (x # xs) =
     (case latest xs of
        None \<Rightarrow> Some x
      | Some y \<Rightarrow> if ct_updated_at (fst x) < ct_updated_at (fst y) then Some y else Some x)"

definition get_channel_target :: "database \<Rightarrow> TargetSelector \<Rightarrow> AppError + ChannelTargetState" where
  "get_channel_target d sel =
     try_bind (ok_or (BadRequest ''channel is required'') (ts_channel sel)) (\<lambda>channel.
       case latest (filter (\<lambda>(c, v). ct_channel c = channel \<and>
                 (ts_device sel = None \<or> ts_device sel = Some (ct_device c)) \<and>
                 (ts_architecture sel = None \<or> ts_architecture sel = Some (ct_architecture c)))
               (channel_join d)) of
         Some (c, v) \<Rightarrow>
           Inr \<lparr>cts_channel = channel, cts_device = Some (ct_device c),
                cts_architecture = Some (ct_architecture c), cts_vehicle = Some (vref_of d v),
                cts_target_release = Some (vref_of d v), cts_tree_hash = Some (ct_tree_hash c),
                cts_config_snapshot = vr_config_snapshot v\<rparr>
       | None \<Rightarrow>
           Inr \<lparr>cts_channel = channel, cts_device = None, cts_architecture = None, cts_vehicle = None,
                cts_target_release = None, cts_tree_hash = None, cts_config_snapshot = None\<rparr>)"

definition channel_target_tree ::
    "'h hash_api \<Rightarrow> database option \<Rightarrow> TargetSelector \<Rightarrow> AppError + Tree" where
  "channel_target_tree H p sel =
     try_bind (pool p) (\<lambda>d.
     try_bind (resolve_target H d sel) (\<lambda>tree. ok_or NotFound tree))"

end
