(* ===== verification/Signer.thy ===== *)
theory Signer
  imports Content
begin

text \<open>
  \<open>software-tower/src/signer.rs\<close>: the sw-authority signer. The envelope format belongs to
  the crate \<open>sumo-offboard\<close>; its operations are the fields of \<open>offboard_api\<close>. What the
  builders accumulate before \<open>build\<close> (signing time, sequence number, components) is data
  here, so that a theorem can say what exactly is handed over to be signed.
\<close>

record 'k Recipient =
  rc_public_key :: 'k
  rc_kid :: bytes

record ComponentSpec =
  cs_id :: "string list"
  cs_digest :: bytes
  cs_size :: u64
  cs_uri :: string
  cs_encryption_info :: "bytes option"

record 'k offboard_api =
  generate_signing_key :: "string + 'k"
  from_cose_key_bytes :: "bytes \<Rightarrow> string + 'k"
  to_cose_key_bytes :: "'k \<Rightarrow> bytes"
  public_key_bytes :: "'k \<Rightarrow> bytes"
  rewrap_cek_ecdh :: "bytes \<Rightarrow> bytes \<Rightarrow> 'k Recipient \<Rightarrow> string + bytes"
  multi_build :: "u64 \<Rightarrow> u64 \<Rightarrow> ComponentSpec list \<Rightarrow> 'k \<Rightarrow> string + bytes"
  campaign_build :: "u64 \<Rightarrow> u64 \<Rightarrow> (string \<times> bytes) list \<Rightarrow> 'k \<Rightarrow> string + bytes"
  disable_build :: "u64 \<Rightarrow> u64 \<Rightarrow> string list \<Rightarrow> 'k \<Rightarrow> string + bytes"

record 'k Signer =
  signer_key :: 'k

record EnvelopePart =
  ep_id :: string
  ep_inner :: bytes
  ep_size :: u64
  ep_cek :: bytes
  ep_iv :: bytes
  ep_outer :: "ContentHash option"

definition Signer_generate :: "'k offboard_api \<Rightarrow> string + 'k Signer" where
  "Signer_generate Off = try_bind (generate_signing_key Off) (\<lambda>k. Inr \<lparr>signer_key = k\<rparr>)"

definition Signer_from_cbor :: "'k offboard_api \<Rightarrow> bytes \<Rightarrow> string + 'k Signer" where
  "Signer_from_cbor Off b = try_bind (from_cose_key_bytes Off b) (\<lambda>k. Inr \<lparr>signer_key = k\<rparr>)"

definition Signer_to_cbor :: "'k offboard_api \<Rightarrow> 'k Signer \<Rightarrow> bytes" where
  "Signer_to_cbor Off s = to_cose_key_bytes Off (signer_key s)"

definition public_key_cbor :: "'k offboard_api \<Rightarrow> 'k Signer \<Rightarrow> bytes" where
  "public_key_cbor Off s = public_key_bytes Off (signer_key s)"

text \<open>The manifest signing time: seconds since the epoch, 0 when the clock is before it.\<close>

definition signing_now :: "i64 \<Rightarrow> u64" where
  "signing_now clock = (if clock < 0 then 0 else word_of_int clock)"

definition envelope_uri :: "'h hash_api \<Rightarrow> EnvelopePart \<Rightarrow> string" where
  "envelope_uri H p = (case ep_outer p of Some outer \<Rightarrow> to_prefixed H outer | None \<Rightarrow> ''#'' @ ep_id p)"

definition component_spec ::
    "'h hash_api \<Rightarrow> 'k offboard_api \<Rightarrow> 'k Recipient \<Rightarrow> string \<Rightarrow> EnvelopePart \<Rightarrow> string + ComponentSpec" where
  "component_spec H Off recipient component p =
     try_bind (rewrap_cek_ecdh Off (ep_cek p) (ep_iv p) recipient) (\<lambda>enc_info.
       Inr \<lparr>cs_id = [component, ep_id p], cs_digest = ep_inner p, cs_size = ep_size p,
            cs_uri = envelope_uri H p, cs_encryption_info = Some enc_info\<rparr>)"

definition build_envelope ::
    "'h hash_api \<Rightarrow> 'k offboard_api \<Rightarrow> i64 \<Rightarrow> 'k Signer \<Rightarrow> bytes \<Rightarrow> bytes \<Rightarrow> string
      \<Rightarrow> EnvelopePart list \<Rightarrow> u64 \<Rightarrow> string + bytes" where
  "build_envelope H Off clock s device_pubkey device_kid component parts seq =
     try_bind (from_cose_key_bytes Off device_pubkey) (\<lambda>pk.
     try_bind (traverse (component_spec H Off \<lparr>rc_public_key = pk, rc_kid = device_kid\<rparr> component) parts) (\<lambda>specs.
       multi_build Off (signing_now clock) seq specs (signer_key s)))"

definition build_campaign ::
    "'k offboard_api \<Rightarrow> i64 \<Rightarrow> 'k Signer \<Rightarrow> (string \<times> bytes) list \<Rightarrow> u64 \<Rightarrow> string + bytes" where
  "build_campaign Off clock s components seq =
     campaign_build Off (signing_now clock) seq components (signer_key s)"

definition build_disable_envelope ::
    "'k offboard_api \<Rightarrow> i64 \<Rightarrow> 'k Signer \<Rightarrow> string \<Rightarrow> u64 \<Rightarrow> string + bytes" where
  "build_disable_envelope Off clock s component seq =
     disable_build Off (signing_now clock) seq [component] (signer_key s)"

section \<open>Handlers\<close>

record NewEnvelopePart =
  nep_id :: string
  nep_content :: ContentHash

record NewEnvelope =
  ne_device_pubkey :: string
  ne_device_id :: string
  ne_component :: string
  ne_parts :: "NewEnvelopePart list"
  ne_seq :: u64

definition default_seq :: u64 where
  "default_seq = 1"

definition signer_pubkey :: "'k offboard_api \<Rightarrow> 'k Signer \<Rightarrow> string \<times> bytes" where
  "signer_pubkey Off s = (''application/cbor'', public_key_cbor Off s)"

text \<open>The recipient key of a request: hex of a COSE_Key, both checked before anything else.\<close>

definition parse_device_pubkey ::
    "'h hash_api \<Rightarrow> 'k offboard_api \<Rightarrow> string \<Rightarrow> AppError + bytes" where
  "parse_device_pubkey H Off text =
     try_bind (ok_or (BadRequest ''device_pubkey must be hex'') (hex_decode H (trim text))) (\<lambda>bytes.
     try_bind (map_err (\<lambda>_. BadRequest ''device_pubkey is not a valid COSE_Key'')
         (from_cose_key_bytes Off bytes)) (\<lambda>_. Inr bytes))"

text \<open>One part of an envelope from the artifact index; \<open>with_outer\<close> chooses the
  content-addressed payload URI.\<close>

definition envelope_part ::
    "'i index_api \<Rightarrow> 'i \<Rightarrow> bool \<Rightarrow> string \<Rightarrow> ContentHash \<Rightarrow> AppError + EnvelopePart" where
  "envelope_part A ix with_outer pid content =
     try_bind (map_err Internal (index_get A ix content)) (\<lambda>found.
     try_bind (ok_or NotFound found) (\<lambda>entry.
       Inr \<lparr>ep_id = pid, ep_inner = ch_bytes content, ep_size = ae_size entry,
            ep_cek = ae_cek entry, ep_iv = ae_nonce entry,
            ep_outer = (if with_outer then Some (ae_outer entry) else None)\<rparr>))"

definition create_envelope ::
    "'h hash_api \<Rightarrow> 'k offboard_api \<Rightarrow> 'i index_api \<Rightarrow> i64 \<Rightarrow> 'k Signer \<Rightarrow> 'i \<Rightarrow> NewEnvelope
      \<Rightarrow> AppError + bytes" where
  "create_envelope H Off A clock s ix req =
     try_bind (parse_device_pubkey H Off (ne_device_pubkey req)) (\<lambda>device_pubkey.
     try_bind (traverse (\<lambda>p. envelope_part A ix False (nep_id p) (nep_content p)) (ne_parts req)) (\<lambda>parts.
       map_err (\<lambda>e. Internal (''envelope build failed: '' @ e))
         (build_envelope H Off clock s device_pubkey (as_bytes (ne_device_id req)) (ne_component req)
            parts (ne_seq req))))"

end
