(* ===== verification/L1.thy ===== *)
theory L1
  imports Releases Signer
begin

text \<open>
  \<open>software-tower/src/releases.rs\<close>, \<open>POST /channel-targets/l1\<close>: the vehicle's reported state
  in, the signed L1 campaign out. \<open>serde_json::from_value::<Tree>\<close> is the argument
  \<open>from_value\<close> (\<open>None\<close> for a value that is no tree).
\<close>

record L1Request =
  l1_channel :: "string option"
  l1_vehicle_release_id :: "i64 option"
  l1_tree_hash :: "string option"
  l1_device :: string
  l1_architecture :: string
  l1_device_pubkey :: string
  l1_device_id :: string
  l1_current_state :: "string option"
  l1_seq :: u64

definition default_l1_seq :: u64 where
  "default_l1_seq = 1"

datatype L1Response = NoContent | L1Body bytes

definition entity_agreed :: "Tree \<Rightarrow> string \<Rightarrow> Entity \<Rightarrow> bool" where
  "entity_agreed reported path resolved =
     (case bt_get (entities reported) path of
        None \<Rightarrow> False
      | Some rep \<Rightarrow>
          list_all (\<lambda>p. list_ex (\<lambda>rp. p_content rp = p_content p) (e_parts rep)) (e_parts resolved))"

definition target_label :: "string option \<Rightarrow> i64 option \<Rightarrow> string" where
  "target_label channel vid =
     (case vid of
        Some i \<Rightarrow> ''vehicle release '' @ i64_to_string i
      | None \<Rightarrow> (case channel of Some c \<Rightarrow> c | None \<Rightarrow> ''unspecified target''))"

type_synonym ComponentEntry = "string \<times> Entity"

definition l1_observed_admin :: "Tree option \<Rightarrow> string \<Rightarrow> bool option" where
  "l1_observed_admin reported path =
     Option.bind (Option.bind reported (\<lambda>rep. bt_get (entities rep) path)) e_admin_disabled"

definition partition_step ::
    "Tree option \<Rightarrow> string \<times> Entity
      \<Rightarrow> ComponentEntry list \<times> ComponentEntry list \<times> string list
      \<Rightarrow> ComponentEntry list \<times> ComponentEntry list \<times> string list" where
  "partition_step reported pe acc =
     (case (pe, acc) of
        ((path, entity), (included, disabled, skipped)) \<Rightarrow>
          (let observed_admin = l1_observed_admin reported path in
           if e_disabled entity then
             if observed_admin = Some False then (included, disabled @ [(path, entity)], skipped)
             else (included, disabled, skipped @ [path])
           else if e_parts entity = [] then (included, disabled, skipped)
           else (case reported of
                   Some rep \<Rightarrow>
                     if observed_admin \<noteq> Some True \<and> entity_agreed rep path entity
                     then (included, disabled, skipped @ [path])
                     else (included @ [(path, entity)], disabled, skipped)
                 | None \<Rightarrow> (included @ [(path, entity)], disabled, skipped))))"

definition partition_l1_components ::
    "Tree \<Rightarrow> Tree option \<Rightarrow> ComponentEntry list \<times> ComponentEntry list \<times> string list" where
  "partition_l1_components tree reported = fold (partition_step reported) (entities tree) ([], [], [])"

text \<open>One L2 of the build loop: a disable manifest or a per-device image envelope.\<close>

definition l1_l2 ::
    "'h hash_api \<Rightarrow> 'k offboard_api \<Rightarrow> 'i index_api \<Rightarrow> i64 \<Rightarrow> 'k Signer \<Rightarrow> 'i \<Rightarrow> bytes \<Rightarrow> L1Request
      \<Rightarrow> ComponentEntry \<Rightarrow> AppError + string \<times> bytes" where
  "l1_l2 H Off A clock s ix device_pubkey req pe =
     (case pe of
        (path, entity) \<Rightarrow>
          try_bind
            (if e_disabled entity then
               map_err (\<lambda>e. Internal (''L2 disable build failed for '' @ path @ '': '' @ e))
                 (build_disable_envelope Off clock s path (l1_seq req))
             else
               try_bind (traverse (\<lambda>p. envelope_part A ix True (p_id p) (p_content p)) (e_parts entity)) (\<lambda>parts.
                 map_err (\<lambda>e. Internal (''L2 build failed for '' @ path @ '': '' @ e))
                   (build_envelope H Off clock s device_pubkey (as_bytes (l1_device_id req)) path parts
                      (l1_seq req))))
            (\<lambda>l2. Inr (path, l2)))"

definition l1_selector_of :: "L1Request \<Rightarrow> TargetSelector" where
  "l1_selector_of req =
     \<lparr>ts_channel = l1_channel req, ts_device = Some (l1_device req),
      ts_architecture = Some (l1_architecture req), ts_vehicle_release_id = l1_vehicle_release_id req,
      ts_tree_hash = l1_tree_hash req\<rparr>"

definition l1_check_target :: "database option \<Rightarrow> L1Request \<Rightarrow> AppError + unit" where
  "l1_check_target p req =
     (case l1_vehicle_release_id req of
        None \<Rightarrow> Inr ()
      | Some vid \<Rightarrow>
          try_bind (pool p) (\<lambda>d.
            if release_matches_target d vid (l1_device req) (l1_architecture req) then Inr ()
            else Inl NotFound))"

definition l1_assemble ::
    "'h hash_api \<Rightarrow> 'k offboard_api \<Rightarrow> 'i index_api \<Rightarrow> i64 \<Rightarrow> 'k Signer \<Rightarrow> 'i \<Rightarrow> bytes \<Rightarrow> L1Request
      \<Rightarrow> Tree \<Rightarrow> Tree option \<Rightarrow> AppError + L1Response" where
  "l1_assemble H Off A clock s ix device_pubkey req tree reported =
     (case partition_l1_components tree reported of
        (included, disabled, skipped) \<Rightarrow>
          try_bind (traverse (l1_l2 H Off A clock s ix device_pubkey req) (included @ disabled)) (\<lambda>l2s.
            if l2s = [] then (if skipped \<noteq> [] then Inr NoContent else Inl NotFound)
            else try_bind (map_err (\<lambda>e. Internal (''L1 build failed: '' @ e))
                   (build_campaign Off clock s l2s (l1_seq req))) (\<lambda>l1. Inr (L1Body l1))))"

definition channel_target_l1 ::
    "'h hash_api \<Rightarrow> 'k offboard_api \<Rightarrow> 'i index_api \<Rightarrow> (string \<Rightarrow> Tree option) \<Rightarrow> i64 \<Rightarrow> 'k Signer
      \<Rightarrow> database option \<Rightarrow> 'i \<Rightarrow> L1Request \<Rightarrow> AppError + L1Response" where
  "channel_target_l1 H Off A from_value clock s p ix req =
     try_bind (parse_device_pubkey H Off (l1_device_pubkey req)) (\<lambda>device_pubkey.
     let reported_state = Option.bind (l1_current_state req) from_value in
     try_bind (l1_check_target p req) (\<lambda>_.
     try_bind (pool p) (\<lambda>d.
     try_bind (resolve_target H d (l1_selector_of req)) (\<lambda>found.
     try_bind (ok_or NotFound found) (\<lambda>tree.
       l1_assemble H Off A clock s ix device_pubkey req tree reported_state)))))"

end
