(* ===== verification/Authority.thy ===== *)
theory Authority
  imports Wire
begin

text \<open>
  \<open>crates/identity-tower/src/ca.rs\<close> and \<open>delegated_rights.rs\<close>: the three certificate
  authorities of Tower 1, the leaves they issue, and their persistence on first run
  (\<open>load_or_generate_ca\<close> of \<open>main.rs\<close>).

  The X.509, ECDSA and PKCS crates are one argument \<open>X\<close>, a record of the functions the code
  calls, over the crates' own key, certificate and request types. Random bytes and the clock
  are arguments of the operations that draw them.
\<close>

unbundle bit_operations_syntax

section \<open>What the crates provide\<close>

record datetime =
  dt_year :: nat
  dt_month :: nat
  dt_day :: nat
  dt_hour :: nat
  dt_minutes :: nat
  dt_seconds :: nat

record x509_validity =
  val_not_before :: datetime
  val_not_after :: datetime

record spki =
  spki_algorithm :: bytes
  subject_public_key :: "bytes option"

datatype x509_profile = ProfileRoot | ProfileLeaf string bool bool

datatype eku = ID_KP_CLIENT_AUTH | ID_KP_SERVER_AUTH

record raw_extension =
  rx_oid :: string
  rx_critical :: bool
  rx_value :: bytes

datatype x509_ext = ExtendedKeyUsage "eku list" | SubjectAltName "string list" | RawExt raw_extension

record tbs =
  tbs_profile :: x509_profile
  tbs_serial :: bytes
  tbs_validity :: x509_validity
  tbs_subject :: string
  tbs_spki :: spki
  tbs_exts :: "x509_ext list"

record ('k, 'c, 'r) x509_api =
  name_from_str :: "string \<Rightarrow> string + string"
  spki_from_key :: "'k \<Rightarrow> string + spki"
  spki_to_der :: "spki \<Rightarrow> string + bytes"
  serial_new :: "bytes \<Rightarrow> string + bytes"
  validity_from_now :: "u64 \<Rightarrow> nat \<Rightarrow> string + x509_validity"
  builder_new :: "tbs \<Rightarrow> 'k \<Rightarrow> string + unit"
  ext_check :: "tbs \<Rightarrow> x509_ext \<Rightarrow> string + unit"
  builder_build :: "tbs \<Rightarrow> 'k \<Rightarrow> string + 'c"
  cert_tbs :: "'c \<Rightarrow> tbs"
  cert_to_der :: "'c \<Rightarrow> string + bytes"
  cert_to_pem :: "'c \<Rightarrow> string + string"
  cert_from_der :: "bytes \<Rightarrow> string + 'c"
  key_to_pkcs8_der :: "'k \<Rightarrow> string + bytes"
  key_to_pkcs8_pem :: "'k \<Rightarrow> string + string"
  key_from_pkcs8_der :: "bytes \<Rightarrow> string + 'k"
  ia5_string :: "string \<Rightarrow> string + string"
  utf8_string_der :: "string \<Rightarrow> string + bytes"
  csr_from_der :: "bytes \<Rightarrow> string + 'r"
  csr_from_pem :: "bytes \<Rightarrow> string + 'r"
  csr_info_der :: "'r \<Rightarrow> string + bytes"
  csr_public_key :: "'r \<Rightarrow> spki"
  csr_signature :: "'r \<Rightarrow> bytes option"
  vk_from_der :: "bytes \<Rightarrow> string + bytes"
  der_signature :: "bytes \<Rightarrow> string + bytes"
  vk_verify :: "bytes \<Rightarrow> bytes \<Rightarrow> bytes \<Rightarrow> bool"

section \<open>The delegated-rights extension\<close>

definition DELEGATED_RIGHTS_OID :: string where
  "DELEGATED_RIGHTS_OID = ''1.3.6.1.4.1.99999.1.1''"

datatype DelegatedRightsExt = DelegatedRightsExt string

definition delegated_ext :: "('k, 'c, 'r) x509_api \<Rightarrow> DelegatedRightsExt \<Rightarrow> string + x509_ext" where
  "delegated_ext X e =
     (case e of DelegatedRightsExt scopes \<Rightarrow>
        try_bind (utf8_string_der X scopes) (\<lambda>v.
          Inr (RawExt \<lparr>rx_oid = DELEGATED_RIGHTS_OID, rx_critical = False, rx_value = v\<rparr>)))"

section \<open>The authorities\<close>

definition KEY_AUTHORITY_ROOT_DN :: string where "KEY_AUTHORITY_ROOT_DN = ''CN=sumo-ca root,O=sumo''"
definition IDENTITY_ROOT_DN :: string where "IDENTITY_ROOT_DN = ''CN=sumo identity root,O=sumo''"
definition DELEGATION_ROOT_DN :: string where "DELEGATION_ROOT_DN = ''CN=sumo delegation root,O=sumo''"
definition ROOT_VALIDITY :: nat where "ROOT_VALIDITY = 10 * 365 * 24 * 3600"
definition LEAF_VALIDITY :: nat where "LEAF_VALIDITY = 825 * 24 * 3600"

record ('k, 'c) Ca =
  ca_signing_key :: 'k
  ca_cert_of :: 'c
  ca_issuer :: string

record IssuedCert =
  iss_der :: bytes
  iss_pem :: string
  iss_serial_hex :: string
  iss_not_after :: string
  iss_fingerprint :: string

datatype LeafUsage = ClientUsage | Mtls

text \<open>What one call draws: a key, twenty random bytes for the serial, and the clock.\<close>

record 'k draw =
  dr_key :: 'k
  dr_serial :: bytes
  dr_now :: u64

definition serial_bytes :: "bytes \<Rightarrow> bytes" where
  "serial_bytes b = b[0 := ((b ! 0 AND 0x7f) OR 0x01)]"

definition random_serial :: "('k, 'c, 'r) x509_api \<Rightarrow> bytes \<Rightarrow> string + bytes" where
  "random_serial X b = serial_new X (serial_bytes b)"

definition pad :: "nat \<Rightarrow> nat \<Rightarrow> string" where
  "pad w n = replicate (w - length (nat_to_string n)) (CHR ''0'') @ nat_to_string n"

definition fmt_rfc3339 :: "datetime \<Rightarrow> string" where
  "fmt_rfc3339 dt =
     pad 4 (dt_year dt) @ ''-'' @ pad 2 (dt_month dt) @ ''-'' @ pad 2 (dt_day dt) @ ''T'' @
     pad 2 (dt_hour dt) @ '':'' @ pad 2 (dt_minutes dt) @ '':'' @ pad 2 (dt_seconds dt) @ ''Z''"

definition add_extension ::
    "('k, 'c, 'r) x509_api \<Rightarrow> tbs \<Rightarrow> x509_ext \<Rightarrow> string + tbs" where
  "add_extension X t e = try_bind (ext_check X t e) (\<lambda>_. Inr (t\<lparr>tbs_exts := tbs_exts t @ [e]\<rparr>))"

definition ca_generate ::
    "('k, 'c, 'r) x509_api \<Rightarrow> 'k draw \<Rightarrow> string \<Rightarrow> string + ('k, 'c) Ca" where
  "ca_generate X r root_dn =
     try_bind (name_from_str X root_dn) (\<lambda>issuer.
     try_bind (spki_from_key X (dr_key r)) (\<lambda>spki.
     try_bind (random_serial X (dr_serial r)) (\<lambda>serial.
     try_bind (validity_from_now X (dr_now r) ROOT_VALIDITY) (\<lambda>validity.
     let t = \<lparr>tbs_profile = ProfileRoot, tbs_serial = serial, tbs_validity = validity,
              tbs_subject = issuer, tbs_spki = spki, tbs_exts = []\<rparr> in
     try_bind (builder_new X t (dr_key r)) (\<lambda>_.
     try_bind (builder_build X t (dr_key r)) (\<lambda>cert.
       Inr \<lparr>ca_signing_key = dr_key r, ca_cert_of = cert, ca_issuer = issuer\<rparr>))))))"

definition root_cert_pem :: "('k, 'c, 'r) x509_api \<Rightarrow> ('k, 'c) Ca \<Rightarrow> string + string" where
  "root_cert_pem X ca = cert_to_pem X (ca_cert_of ca)"

definition root_cert_der :: "('k, 'c, 'r) x509_api \<Rightarrow> ('k, 'c) Ca \<Rightarrow> string + bytes" where
  "root_cert_der X ca = cert_to_der X (ca_cert_of ca)"

definition public_sec1 :: "('k, 'c, 'r) x509_api \<Rightarrow> ('k, 'c) Ca \<Rightarrow> string + bytes" where
  "public_sec1 X ca =
     try_bind (spki_from_key X (ca_signing_key ca)) (\<lambda>spki.
     try_bind (ok_or ''CA public key is not octet-aligned'' (subject_public_key spki)) (\<lambda>b.
       if length b = 65 then Inr b else Inl ''CA public key is not a 65-byte P-256 point''))"

section \<open>Requests and leaves\<close>

definition parse_and_verify_csr :: "('k, 'c, 'r) x509_api \<Rightarrow> bytes \<Rightarrow> string + 'r" where
  "parse_and_verify_csr X b =
     try_bind (case csr_from_der X b of Inr csr \<Rightarrow> Inr csr | Inl _ \<Rightarrow> csr_from_pem X b) (\<lambda>csr.
     try_bind (csr_info_der X csr) (\<lambda>info.
     try_bind (spki_to_der X (csr_public_key X csr)) (\<lambda>spki.
     try_bind (map_err (\<lambda>_. ''CSR public key is not a P-256 key'') (vk_from_der X spki)) (\<lambda>vk.
     try_bind (ok_or ''CSR signature is not octet-aligned'' (csr_signature X csr)) (\<lambda>s.
     try_bind (der_signature X s) (\<lambda>sig.
       if vk_verify X vk info sig then Inr csr
       else Inl ''CSR self-signature (proof-of-possession) failed''))))))"

definition verify_csr_pubkey :: "'h hash_api \<Rightarrow> ('k, 'c, 'r) x509_api \<Rightarrow> bytes \<Rightarrow> string + string" where
  "verify_csr_pubkey H X b =
     try_bind (parse_and_verify_csr X b) (\<lambda>csr.
     try_bind (ok_or ''CSR public key is not octet-aligned'' (subject_public_key (csr_public_key X csr))) (\<lambda>k.
       Inr (hex_encode H k)))"

definition leaf_ekus :: "LeafUsage \<Rightarrow> eku list" where
  "leaf_ekus u = (case u of ClientUsage \<Rightarrow> [ID_KP_CLIENT_AUTH] | Mtls \<Rightarrow> [ID_KP_CLIENT_AUTH, ID_KP_SERVER_AUTH])"

definition leaf_san ::
    "('k, 'c, 'r) x509_api \<Rightarrow> LeafUsage \<Rightarrow> string \<Rightarrow> tbs \<Rightarrow> string + tbs" where
  "leaf_san X u device_id t =
     (case u of
        ClientUsage \<Rightarrow> Inr t
      | Mtls \<Rightarrow>
          try_bind (ia5_string X device_id) (\<lambda>san_id.
          try_bind (ia5_string X (device_id @ ''.local'')) (\<lambda>san_local.
            add_extension X t (SubjectAltName [san_id, san_local]))))"

definition issue_leaf ::
    "'h hash_api \<Rightarrow> ('k, 'c, 'r) x509_api \<Rightarrow> 'k draw \<Rightarrow> ('k, 'c) Ca \<Rightarrow> string \<Rightarrow> bytes \<Rightarrow> LeafUsage
      \<Rightarrow> string + IssuedCert" where
  "issue_leaf H X r ca device_id csr_bytes u =
     try_bind (parse_and_verify_csr X csr_bytes) (\<lambda>csr.
     try_bind (name_from_str X (''CN='' @ device_id)) (\<lambda>subject.
     try_bind (random_serial X (dr_serial r)) (\<lambda>serial.
     try_bind (validity_from_now X (dr_now r) LEAF_VALIDITY) (\<lambda>validity.
     let t = \<lparr>tbs_profile = ProfileLeaf (ca_issuer ca) False False, tbs_serial = serial,
              tbs_validity = validity, tbs_subject = subject, tbs_spki = csr_public_key X csr, tbs_exts = []\<rparr> in
     try_bind (builder_new X t (ca_signing_key ca)) (\<lambda>_.
     try_bind (add_extension X t (ExtendedKeyUsage (leaf_ekus u))) (\<lambda>t1.
     try_bind (leaf_san X u device_id t1) (\<lambda>t2.
     try_bind (builder_build X t2 (ca_signing_key ca)) (\<lambda>cert.
     try_bind (cert_to_der X cert) (\<lambda>der.
     try_bind (cert_to_pem X cert) (\<lambda>pem.
       Inr \<lparr>iss_der = der, iss_pem = pem, iss_serial_hex = hex_encode H serial,
            iss_not_after = fmt_rfc3339 (val_not_after (tbs_validity (cert_tbs X cert))),
            iss_fingerprint = to_prefixed H (ContentHash_of H der)\<rparr>))))))))))"

definition mint_delegate_leaf ::
    "('k, 'c, 'r) x509_api \<Rightarrow> 'k draw \<Rightarrow> ('k, 'c) Ca \<Rightarrow> string \<Rightarrow> string \<Rightarrow> string + string \<times> string" where
  "mint_delegate_leaf X r ca cn scopes =
     try_bind (spki_from_key X (dr_key r)) (\<lambda>spki.
     try_bind (name_from_str X (''CN='' @ cn)) (\<lambda>subject.
     try_bind (random_serial X (dr_serial r)) (\<lambda>serial.
     try_bind (validity_from_now X (dr_now r) LEAF_VALIDITY) (\<lambda>validity.
     let t = \<lparr>tbs_profile = ProfileLeaf (ca_issuer ca) False False, tbs_serial = serial,
              tbs_validity = validity, tbs_subject = subject, tbs_spki = spki, tbs_exts = []\<rparr> in
     try_bind (builder_new X t (ca_signing_key ca)) (\<lambda>_.
     try_bind (add_extension X t (ExtendedKeyUsage [ID_KP_CLIENT_AUTH])) (\<lambda>t1.
     try_bind (delegated_ext X (DelegatedRightsExt scopes)) (\<lambda>e.
     try_bind (add_extension X t1 e) (\<lambda>t2.
     try_bind (builder_build X t2 (ca_signing_key ca)) (\<lambda>cert.
     try_bind (cert_to_pem X cert) (\<lambda>cert_pem.
     try_bind (key_to_pkcs8_pem X (dr_key r)) (\<lambda>key_pem.
       Inr (cert_pem, key_pem))))))))))))"

section \<open>Persistence\<close>

text \<open>The files of the data directory, with their mode; \<open>fault\<close> says which file operation fails,
  and for a write what it leaves in the file, if the file could be opened at all.\<close>

type_synonym ca_fs = "string \<Rightarrow> (bytes \<times> nat) option"

datatype ca_file_op = CaCreateDir string | CaWrite string | CaSetMode string | CaRead string

type_synonym ca_faults = "ca_file_op \<Rightarrow> (string \<times> bytes option) option"

definition DEFAULT_MODE :: nat where "DEFAULT_MODE = 420"

definition ca_fs_write :: "ca_faults \<Rightarrow> ca_fs \<Rightarrow> string \<Rightarrow> bytes \<Rightarrow> ca_fs \<times> (string + unit)" where
  "ca_fs_write fault fs p b =
     (let mode = (case fs p of Some (_, m) \<Rightarrow> m | None \<Rightarrow> DEFAULT_MODE) in
      case fault (CaWrite p) of
        Some (e, None) \<Rightarrow> (fs, Inl e)
      | Some (e, Some left) \<Rightarrow> (fs(p \<mapsto> (left, mode)), Inl e)
      | None \<Rightarrow> (fs(p \<mapsto> (b, mode)), Inr ()))"

definition ca_fs_read :: "ca_faults \<Rightarrow> ca_fs \<Rightarrow> string \<Rightarrow> string + bytes" where
  "ca_fs_read fault fs p =
     (case fault (CaRead p) of
        Some (e, _) \<Rightarrow> Inl e
      | None \<Rightarrow> (case fs p of Some (b, _) \<Rightarrow> Inr b | None \<Rightarrow> Inl ''No such file or directory''))"

definition ca_fs_set_mode :: "ca_faults \<Rightarrow> ca_fs \<Rightarrow> string \<Rightarrow> nat \<Rightarrow> ca_fs \<times> (string + unit)" where
  "ca_fs_set_mode fault fs p m =
     (case fault (CaSetMode p) of
        Some (e, _) \<Rightarrow> (fs, Inl e)
      | None \<Rightarrow>
          (case fs p of
             Some (b, _) \<Rightarrow> (fs(p \<mapsto> (b, m)), Inr ())
           | None \<Rightarrow> (fs, Inl ''No such file or directory'')))"

definition ca_load ::
    "('k, 'c, 'r) x509_api \<Rightarrow> ca_faults \<Rightarrow> ca_fs \<Rightarrow> string \<Rightarrow> string \<Rightarrow> string + ('k, 'c) Ca" where
  "ca_load X fault fs key_path cert_path =
     try_bind (ca_fs_read fault fs key_path) (\<lambda>kb.
     try_bind (key_from_pkcs8_der X kb) (\<lambda>k.
     try_bind (ca_fs_read fault fs cert_path) (\<lambda>cb.
     try_bind (cert_from_der X cb) (\<lambda>c.
       Inr \<lparr>ca_signing_key = k, ca_cert_of = c, ca_issuer = tbs_subject (cert_tbs X c)\<rparr>))))"

text \<open>\<open>Ca::save\<close>: the key file is written, restricted to its owner, and only then the
  certificate is written; each step returns early on an error.\<close>

definition save_cert ::
    "('k, 'c, 'r) x509_api \<Rightarrow> ca_faults \<Rightarrow> ca_fs \<Rightarrow> ('k, 'c) Ca \<Rightarrow> string \<Rightarrow> ca_fs \<times> (string + unit)" where
  "save_cert X fault fs ca cert_path =
     (case cert_to_der X (ca_cert_of ca) of
        Inl e \<Rightarrow> (fs, Inl e)
      | Inr cb \<Rightarrow> ca_fs_write fault fs cert_path cb)"

definition ca_save ::
    "('k, 'c, 'r) x509_api \<Rightarrow> ca_faults \<Rightarrow> ca_fs \<Rightarrow> ('k, 'c) Ca \<Rightarrow> string \<Rightarrow> string \<Rightarrow> ca_fs \<times> (string + unit)" where
  "ca_save X fault fs ca key_path cert_path =
     (case fault (CaCreateDir key_path) of
        Some (e, _) \<Rightarrow> (fs, Inl e)
      | None \<Rightarrow>
          (case key_to_pkcs8_der X (ca_signing_key ca) of
             Inl e \<Rightarrow> (fs, Inl e)
           | Inr kb \<Rightarrow>
               (case ca_fs_write fault fs key_path kb of
                  (fs1, Inl e) \<Rightarrow> (fs1, Inl e)
                | (fs1, Inr _) \<Rightarrow>
                    (case ca_fs_set_mode fault fs1 key_path 384 of
                       (fs2, Inl e) \<Rightarrow> (fs2, Inl e)
                     | (fs2, Inr _) \<Rightarrow> save_cert X fault fs2 ca cert_path))))"

definition load_or_generate_ca ::
    "('k, 'c, 'r) x509_api \<Rightarrow> ca_faults \<Rightarrow> ca_fs \<Rightarrow> 'k draw \<Rightarrow> string \<Rightarrow> string \<Rightarrow> string
      \<Rightarrow> ca_fs \<times> (string + ('k, 'c) Ca)" where
  "load_or_generate_ca X fault fs r key cert root_dn =
     (if fs key \<noteq> None \<and> fs cert \<noteq> None then (fs, ca_load X fault fs key cert)
      else
        (case ca_generate X r root_dn of
           Inl e \<Rightarrow> (fs, Inl e)
         | Inr authority \<Rightarrow>
             (case ca_save X fault fs authority key cert of
                (fs', Inl e) \<Rightarrow> (fs', Inl e)
              | (fs', Inr _) \<Rightarrow> (fs', Inr authority))))"

end
