(* ===== verification/Keystore.thy ===== *)
theory Keystore
  imports Authority Signer
begin

text \<open>
  \<open>crates/identity-tower/src/keystore.rs\<close>: the factory HSM keystore. The key roles, the slot
  constants and the CBOR encoding belong to the crate \<open>hsm\<close> (\<open>hsm_api\<close>, over its role type), the
  encryptor and the SUIT builder to \<open>sumo-offboard\<close>, the COSE_Key encoding to \<open>coset\<close>
  (\<open>keystore_api\<close>).
\<close>

section \<open>The keystore\<close>

record KeySlot =
  ks_key_id :: string
  ks_key_kind :: nat
  ks_anchor_public_key :: "bytes option"
  ks_allowed_guests :: "string list option"
  ks_allowed_ops :: "nat list option"

record LeafCert =
  lc_key_id :: string
  lc_certificate :: bytes

record TrustAnchorCert =
  tac_anchor_id :: string
  tac_certificate :: bytes

record HsmKeystore =
  hk_schema_version :: u64
  hk_security_version :: u64
  hk_identities :: "string list"
  hk_slots :: "KeySlot list"
  hk_certificates :: "LeafCert list"
  hk_trust_anchors :: "TrustAnchorCert list"

record 'r hsm_api =
  mandatory_roles :: "'r list"
  is_device_generated :: "'r \<Rightarrow> bool"
  role_is_aes256 :: "'r \<Rightarrow> bool"
  role_key_id :: "'r \<Rightarrow> string"
  SoftwareAuthority :: 'r
  FactoryResetIssuer :: 'r
  TlsIdentity :: 'r
  DeviceDecryption :: 'r
  DELEGATION_ROOT_ANCHOR_ID :: string
  FACTORY_SIGNING_PUBLIC :: bytes
  FACTORY_SIGNING_SCALAR :: bytes
  KEY_TYPE_AES_256 :: nat
  KEY_TYPE_EC_P256 :: nat
  OP_DECRYPT :: nat
  OP_ENCRYPT :: nat
  OP_GET_PUBKEY :: nat
  OP_SIGN :: nat
  OP_VERIFY :: nat
  SCHEMA_VERSION :: u64
  payload_encode :: "HsmKeystore \<Rightarrow> string + bytes"

definition slot_anchor :: "'r hsm_api \<Rightarrow> bytes \<Rightarrow> bytes \<Rightarrow> 'r \<Rightarrow> bytes option" where
  "slot_anchor M sw_authority key_authority role =
     (if is_device_generated M role then None
      else Some
        (if role = SoftwareAuthority M then sw_authority
         else if role = FactoryResetIssuer M then FACTORY_SIGNING_PUBLIC M
         else key_authority))"

definition key_slot :: "'r hsm_api \<Rightarrow> bytes \<Rightarrow> bytes \<Rightarrow> 'r \<Rightarrow> KeySlot" where
  "key_slot M sw_authority key_authority role =
     (let anchor = slot_anchor M sw_authority key_authority role; is_aes = role_is_aes256 M role in
      \<lparr>ks_key_id = role_key_id M role,
       ks_key_kind = (if is_aes then KEY_TYPE_AES_256 M else KEY_TYPE_EC_P256 M),
       ks_anchor_public_key = anchor, ks_allowed_guests = None,
       ks_allowed_ops =
         (if anchor \<noteq> None then Some [OP_VERIFY M, OP_GET_PUBKEY M]
          else if is_aes then Some [OP_ENCRYPT M, OP_DECRYPT M]
          else Some [OP_SIGN M, OP_VERIFY M, OP_GET_PUBKEY M])\<rparr>)"

definition assemble_keystore ::
    "'r hsm_api \<Rightarrow> bytes \<Rightarrow> bytes \<Rightarrow> u64 \<Rightarrow> bytes option \<Rightarrow> bytes \<Rightarrow> HsmKeystore" where
  "assemble_keystore M sw_authority key_authority security_version tls_identity_leaf delegation_root =
     \<lparr>hk_schema_version = SCHEMA_VERSION M, hk_security_version = security_version, hk_identities = [],
      hk_slots = map (key_slot M sw_authority key_authority) (mandatory_roles M),
      hk_certificates =
        (case tls_identity_leaf of
           Some leaf \<Rightarrow> [\<lparr>lc_key_id = role_key_id M (TlsIdentity M), lc_certificate = leaf\<rparr>]
         | None \<Rightarrow> []),
      hk_trust_anchors = [\<lparr>tac_anchor_id = DELEGATION_ROOT_ANCHOR_ID M, tac_certificate = delegation_root\<rparr>]\<rparr>"

section \<open>Sealing it for the device\<close>

record Encrypted =
  enc_info_of :: bytes
  enc_ciphertext_of :: bytes

record image_manifest =
  imf_signing_time :: u64
  imf_component_id :: "string list"
  imf_sequence_number :: u64
  imf_security_version :: u64
  imf_payload_digest :: bytes
  imf_payload_size :: u64
  imf_payload_uri :: string
  imf_encryption_info :: bytes
  imf_integrated_payload :: "string \<times> bytes"
  imf_text_version :: string
  imf_text_vendor_name :: string
  imf_text_model_name :: string
  imf_text_description :: string

record 'k keystore_api =
  ec2_public_xy :: "'k \<Rightarrow> string + bytes \<times> bytes"
  ec2_pub_key_to_vec :: "bytes \<Rightarrow> bytes \<Rightarrow> string + bytes"
  ec2_priv_key_to_vec :: "bytes \<Rightarrow> bytes \<Rightarrow> bytes \<Rightarrow> string + bytes"
  enc_sha256 :: "bytes \<Rightarrow> bytes"
  compress_firmware :: "bytes \<Rightarrow> nat \<Rightarrow> string + bytes"
  generate_device_key :: "string + 'k"
  encrypt_firmware_ecdh :: "bytes \<Rightarrow> 'k \<Rightarrow> 'k Recipient list \<Rightarrow> string + Encrypted"
  image_build :: "image_manifest \<Rightarrow> 'k \<Rightarrow> string + bytes"

definition factory_signing_key ::
    "'k offboard_api \<Rightarrow> 'k keystore_api \<Rightarrow> 'r hsm_api \<Rightarrow> string + 'k" where
  "factory_signing_key Off K M =
     try_bind (map_err (\<lambda>e. ''serialize factory key: '' @ e)
       (ec2_priv_key_to_vec K (take 32 (drop 1 (FACTORY_SIGNING_PUBLIC M)))
          (take 32 (drop 33 (FACTORY_SIGNING_PUBLIC M))) (FACTORY_SIGNING_SCALAR M))) (\<lambda>b.
       map_err (\<lambda>e. ''re-import factory key: '' @ e) (from_cose_key_bytes Off b))"

text \<open>\<open>copy_from_slice\<close> would panic on coordinates of another length than 32; \<open>ec2_public_xy\<close> is taken
  to yield 32-byte P-256 coordinates, which the theorems state as a law where they use it.\<close>

definition cose_to_sec1 :: "'k offboard_api \<Rightarrow> 'k keystore_api \<Rightarrow> bytes \<Rightarrow> string + bytes" where
  "cose_to_sec1 Off K cose =
     try_bind (map_err (\<lambda>e. ''invalid COSE_Key CBOR: '' @ e) (from_cose_key_bytes Off cose)) (\<lambda>key.
     try_bind (map_err (\<lambda>e. ''not an EC2 P-256 public key: '' @ e) (ec2_public_xy K key)) (\<lambda>(x, y).
       Inr (0x04 # x @ y)))"

text \<open>\<open>to_vec().expect(..)\<close>: \<open>Inl\<close> is the panic.\<close>

definition sec1_to_cose :: "'k keystore_api \<Rightarrow> bytes \<Rightarrow> string + bytes" where
  "sec1_to_cose K sec1 = ec2_pub_key_to_vec K (take 32 (drop 1 sec1)) (take 32 (drop 33 sec1))"

definition mint_keystore ::
    "'k offboard_api \<Rightarrow> 'k keystore_api \<Rightarrow> 'r hsm_api \<Rightarrow> i64 \<Rightarrow> bytes \<Rightarrow> bytes \<Rightarrow> bytes \<Rightarrow> u64
      \<Rightarrow> bytes option \<Rightarrow> bytes \<Rightarrow> string + bytes" where
  "mint_keystore Off K M clock device_decrypt_cose sw_authority_cose key_authority security_version leaf droot =
     try_bind (cose_to_sec1 Off K sw_authority_cose) (\<lambda>sw_authority.
     let keystore = assemble_keystore M sw_authority key_authority security_version leaf droot in
     try_bind (map_err (\<lambda>e. ''encode HSM keystore: '' @ e) (payload_encode M keystore)) (\<lambda>cbor.
     try_bind (map_err (\<lambda>e. ''compress: '' @ e) (compress_firmware K cbor 3)) (\<lambda>compressed.
     try_bind (map_err (\<lambda>e. ''device decrypt key is not a COSE_Key: '' @ e)
         (from_cose_key_bytes Off device_decrypt_cose)) (\<lambda>pk.
     try_bind (map_err (\<lambda>e. ''ephemeral sender key: '' @ e) (generate_device_key K)) (\<lambda>ephemeral.
     try_bind (map_err (\<lambda>e. ''ECDH-encrypt keystore: '' @ e)
         (encrypt_firmware_ecdh K compressed ephemeral
            [\<lparr>rc_public_key = pk, rc_kid = as_bytes (role_key_id M (DeviceDecryption M))\<rparr>])) (\<lambda>encrypted.
     try_bind (factory_signing_key Off K M) (\<lambda>factory_key.
       map_err (\<lambda>e. ''build/sign keystore envelope: '' @ e)
         (image_build K
            \<lparr>imf_signing_time = signing_now clock, imf_component_id = [''hsm'', ''keys''],
             imf_sequence_number = security_version, imf_security_version = security_version,
             imf_payload_digest = enc_sha256 K cbor, imf_payload_size = word_of_nat (length cbor),
             imf_payload_uri = ''#hsm-keys'', imf_encryption_info = enc_info_of encrypted,
             imf_integrated_payload = (''#hsm-keys'', enc_ciphertext_of encrypted),
             imf_text_version = nat_to_string (unat security_version) @ ''.0.0'',
             imf_text_vendor_name = ''sumo-provision'', imf_text_model_name = ''HSM-Keys'',
             imf_text_description = ''HSM trust-anchor keystore''\<rparr> factory_key))))))))"

end
