(* ===== verification/Roster.thy ===== *)
theory Roster
  imports Keystore
begin

text \<open>
  \<open>crates/identity-tower/src/devices.rs\<close> and the keystore endpoint of \<open>keystore.rs\<close>: the device
  roster, enrolment, the trust bundle and the delegate certificates.

  The roster database is the two tables \<open>devices\<close> (key \<open>id\<close>) and \<open>device_certs\<close> (key device
  and slot, unique serial); \<open>p256\<close>'s DER form of a point is the argument \<open>spki_of\<close>.
\<close>

section \<open>State\<close>

record device_row =
  dv_id :: string
  dv_model :: "string option"
  dv_status :: string
  dv_pubkey :: "string option"

record cert_row =
  dc_device_id :: string
  dc_key_id :: string
  dc_cert_der :: bytes
  dc_serial :: string
  dc_not_after :: string
  dc_fingerprint :: string

record roster =
  ro_devices :: "device_row list"
  ro_certs :: "cert_row list"

record ('k, 'c) identity_state =
  st_roster :: roster
  key_authority_ca :: "('k, 'c) Ca"
  identity_ca :: "('k, 'c) Ca"
  delegation_ca :: "('k, 'c) Ca"

datatype IdError = IdNotFound | IdBadRequest string | IdInternal string

fun id_into_response :: "IdError \<Rightarrow> nat \<times> string" where
  "id_into_response IdNotFound = (404, ''not found'')"
| "id_into_response (IdBadRequest m) = (400, m)"
| "id_into_response (IdInternal e) = (500, ''internal error'')"

text \<open>How a handler can end without a response value: an error it answers, or a panic.\<close>

datatype id_failure = Answered IdError | Panicked string

section \<open>The roster\<close>

definition ecu_id_from_cose_hex ::
    "'h hash_api \<Rightarrow> 'k offboard_api \<Rightarrow> 'k keystore_api \<Rightarrow> (bytes \<Rightarrow> bytes option) \<Rightarrow> string \<Rightarrow> string option" where
  "ecu_id_from_cose_hex H Off K spki_of pubkey_hex =
     Option.bind (hex_decode H pubkey_hex) (\<lambda>cose.
     case cose_to_sec1 Off K cose of
       Inl _ \<Rightarrow> None
     | Inr sec1 \<Rightarrow>
         Option.bind (spki_of sec1) (\<lambda>spki. Some (hex_encode H (ch_bytes (ContentHash_of H spki)))))"

definition device_from_row ::
    "'h hash_api \<Rightarrow> 'k offboard_api \<Rightarrow> 'k keystore_api \<Rightarrow> (bytes \<Rightarrow> bytes option) \<Rightarrow> device_row \<Rightarrow> Device" where
  "device_from_row H Off K spki_of r =
     \<lparr>d_id = dv_id r, d_model = dv_model r, d_status = dv_status r, d_pubkey = dv_pubkey r,
      d_ecu_id = Option.bind (dv_pubkey r) (ecu_id_from_cose_hex H Off K spki_of)\<rparr>"

definition coalesce :: "'a option \<Rightarrow> 'a option \<Rightarrow> 'a option" where
  "coalesce a b = (case a of Some x \<Rightarrow> Some x | None \<Rightarrow> b)"

definition find_device :: "roster \<Rightarrow> string \<Rightarrow> device_row option" where
  "find_device ro i = find (\<lambda>r. dv_id r = i) (ro_devices ro)"

definition upsert_device :: "roster \<Rightarrow> RegisterDevice \<Rightarrow> roster \<times> device_row" where
  "upsert_device ro req =
     (case find_device ro (rd_id req) of
        Some old \<Rightarrow>
          (let new = old\<lparr>dv_model := coalesce (rd_model req) (dv_model old),
                          dv_pubkey := coalesce (rd_pubkey req) (dv_pubkey old)\<rparr> in
           (ro\<lparr>ro_devices := map (\<lambda>r. if dv_id r = rd_id req then new else r) (ro_devices ro)\<rparr>, new))
      | None \<Rightarrow>
          (let new = \<lparr>dv_id = rd_id req, dv_model = rd_model req, dv_status = ''registered'',
                      dv_pubkey = rd_pubkey req\<rparr> in
           (ro\<lparr>ro_devices := ro_devices ro @ [new]\<rparr>, new)))"

definition register_device ::
    "'h hash_api \<Rightarrow> 'k offboard_api \<Rightarrow> 'k keystore_api \<Rightarrow> (bytes \<Rightarrow> bytes option)
      \<Rightarrow> ('k2, 'c) identity_state \<Rightarrow> RegisterDevice \<Rightarrow> ('k2, 'c) identity_state \<times> (IdError + Device)" where
  "register_device H Off K spki_of s req =
     (case upsert_device (st_roster s) req of
        (ro, row) \<Rightarrow> (s\<lparr>st_roster := ro\<rparr>, Inr (device_from_row H Off K spki_of row)))"

definition list_devices ::
    "'h hash_api \<Rightarrow> 'k offboard_api \<Rightarrow> 'k keystore_api \<Rightarrow> (bytes \<Rightarrow> bytes option)
      \<Rightarrow> ('k2, 'c) identity_state \<Rightarrow> IdError + Device list" where
  "list_devices H Off K spki_of s =
     Inr (map (device_from_row H Off K spki_of) (sort_key dv_id (ro_devices (st_roster s))))"

definition get_device ::
    "'h hash_api \<Rightarrow> 'k offboard_api \<Rightarrow> 'k keystore_api \<Rightarrow> (bytes \<Rightarrow> bytes option)
      \<Rightarrow> ('k2, 'c) identity_state \<Rightarrow> string \<Rightarrow> IdError + Device" where
  "get_device H Off K spki_of s i =
     (case find_device (st_roster s) i of
        Some r \<Rightarrow> Inr (device_from_row H Off K spki_of r)
      | None \<Rightarrow> Inl IdNotFound)"

section \<open>Enrolment\<close>

definition default_enroll_key_id :: string where
  "default_enroll_key_id = ''device-decrypt''"

text \<open>The registration branch: proof of possession, the point as a COSE_Key in hex, one update.\<close>

definition csr_cose_hex ::
    "'h hash_api \<Rightarrow> ('k, 'c, 'r) x509_api \<Rightarrow> 'k3 keystore_api \<Rightarrow> bytes \<Rightarrow> id_failure + string" where
  "csr_cose_hex H X K body =
     try_bind (map_err (\<lambda>e. Answered (IdBadRequest (''CSR rejected: '' @ e))) (verify_csr_pubkey H X body)) (\<lambda>pubkey_hex.
     try_bind (ok_or (Answered (IdBadRequest ''CSR key is not a 65-byte P-256 point''))
         (case hex_decode H pubkey_hex of
            Some v \<Rightarrow> if length v = 65 then Some v else None
          | None \<Rightarrow> None)) (\<lambda>sec1.
     try_bind (map_err (\<lambda>e. Panicked (''serialize device COSE_Key: '' @ e)) (sec1_to_cose K sec1)) (\<lambda>cose.
       Inr (hex_encode H cose))))"

definition set_enrolled :: "roster \<Rightarrow> string \<Rightarrow> string \<Rightarrow> roster \<times> nat" where
  "set_enrolled ro i pk =
     (ro\<lparr>ro_devices := map (\<lambda>r. if dv_id r = i then r\<lparr>dv_status := ''enrolled'', dv_pubkey := Some pk\<rparr> else r)
        (ro_devices ro)\<rparr>,
      length (filter (\<lambda>r. dv_id r = i) (ro_devices ro)))"

definition enroll_decrypt ::
    "'h hash_api \<Rightarrow> ('k, 'c, 'r) x509_api \<Rightarrow> 'k3 keystore_api \<Rightarrow> ('k, 'c) identity_state \<Rightarrow> string \<Rightarrow> bytes
      \<Rightarrow> ('k, 'c) identity_state \<times> (id_failure + EnrollResponse)" where
  "enroll_decrypt H X K s i body =
     (case csr_cose_hex H X K body of
        Inl e \<Rightarrow> (s, Inl e)
      | Inr pk \<Rightarrow>
          (case set_enrolled (st_roster s) i pk of
             (ro, n) \<Rightarrow>
               if n = 0 then (s\<lparr>st_roster := ro\<rparr>, Inl (Answered IdNotFound))
               else (s\<lparr>st_roster := ro\<rparr>,
                     Inr \<lparr>er_id = i, er_key_id = ''device-decrypt'', er_certificate_pem = None,
                          er_serial = None, er_not_after = None, er_fingerprint = None\<rparr>)))"

text \<open>\<open>INSERT .. ON CONFLICT (device_id, key_id) DO UPDATE\<close>; the unique serial may refuse it.\<close>

definition upsert_cert :: "roster \<Rightarrow> cert_row \<Rightarrow> string + roster" where
  "upsert_cert ro c =
     (if \<exists>o' \<in> set (ro_certs ro). dc_serial o' = dc_serial c \<and>
           (dc_device_id o', dc_key_id o') \<noteq> (dc_device_id c, dc_key_id c)
      then Inl ''duplicate key value violates unique constraint device_certs_serial_uq''
      else Inr (ro\<lparr>ro_certs :=
        (if \<exists>o' \<in> set (ro_certs ro). (dc_device_id o', dc_key_id o') = (dc_device_id c, dc_key_id c)
         then map (\<lambda>o'. if (dc_device_id o', dc_key_id o') = (dc_device_id c, dc_key_id c) then c else o') (ro_certs ro)
         else ro_certs ro @ [c])\<rparr>))"

definition enroll_leaf ::
    "'h hash_api \<Rightarrow> ('k, 'c, 'r) x509_api \<Rightarrow> 'k draw \<Rightarrow> ('k, 'c) identity_state \<Rightarrow> string \<Rightarrow> string \<Rightarrow> bytes
      \<Rightarrow> ('k, 'c) identity_state \<times> (id_failure + EnrollResponse)" where
  "enroll_leaf H X r s i key_id body =
     (let u = (if key_id = ''tls-identity'' then Mtls else ClientUsage) in
      case issue_leaf H X r (identity_ca s) i body u of
        Inl e \<Rightarrow> (s, Inl (Answered (IdBadRequest (''CSR rejected: '' @ e))))
      | Inr issued \<Rightarrow>
          if find_device (st_roster s) i = None then (s, Inl (Answered IdNotFound))
          else
            (case upsert_cert (st_roster s)
                    \<lparr>dc_device_id = i, dc_key_id = key_id, dc_cert_der = iss_der issued,
                     dc_serial = iss_serial_hex issued, dc_not_after = iss_not_after issued,
                     dc_fingerprint = iss_fingerprint issued\<rparr> of
               Inl e \<Rightarrow> (s, Inl (Answered (IdInternal e)))
             | Inr ro \<Rightarrow>
                 (s\<lparr>st_roster := ro\<rparr>,
                  Inr \<lparr>er_id = i, er_key_id = key_id, er_certificate_pem = Some (iss_pem issued),
                       er_serial = Some (iss_serial_hex issued), er_not_after = Some (iss_not_after issued),
                       er_fingerprint = Some (iss_fingerprint issued)\<rparr>)))"

definition enroll_device ::
    "'h hash_api \<Rightarrow> ('k, 'c, 'r) x509_api \<Rightarrow> 'k3 keystore_api \<Rightarrow> 'k draw \<Rightarrow> ('k, 'c) identity_state
      \<Rightarrow> string \<Rightarrow> string \<Rightarrow> bytes \<Rightarrow> ('k, 'c) identity_state \<times> (id_failure + EnrollResponse)" where
  "enroll_device H X K r s i key_id body =
     (if key_id = ''device-decrypt'' then enroll_decrypt H X K s i body
      else enroll_leaf H X r s i key_id body)"

section \<open>Anchors and delegates\<close>

record DelegateCertReq =
  dq_scopes :: string
  dq_cn :: string

record DelegateCertResponse =
  dp_cert_pem :: string
  dp_key_pem :: string
  dp_ca_root_pem :: string

definition default_delegate_cn :: string where
  "default_delegate_cn = ''workshop-minter''"

definition mint_delegate_cert ::
    "('k, 'c, 'r) x509_api \<Rightarrow> 'k draw \<Rightarrow> ('k, 'c) identity_state \<Rightarrow> DelegateCertReq
      \<Rightarrow> IdError + DelegateCertResponse" where
  "mint_delegate_cert X r s req =
     try_bind (map_err IdInternal (mint_delegate_leaf X r (delegation_ca s) (dq_cn req) (dq_scopes req))) (\<lambda>(cert, key).
     try_bind (map_err IdInternal (root_cert_pem X (delegation_ca s))) (\<lambda>root.
       Inr \<lparr>dp_cert_pem = cert, dp_key_pem = key, dp_ca_root_pem = root\<rparr>))"

definition ca_cert :: "('k, 'c, 'r) x509_api \<Rightarrow> ('k, 'c) identity_state \<Rightarrow> IdError + string \<times> string" where
  "ca_cert X s =
     try_bind (map_err IdInternal (root_cert_pem X (identity_ca s))) (\<lambda>pem.
       Inr (''application/x-pem-file'', pem))"

definition trust_bundle :: "('k, 'c, 'r) x509_api \<Rightarrow> ('k, 'c) identity_state \<Rightarrow> IdError + TrustBundle" where
  "trust_bundle X s =
     try_bind (map_err IdInternal (root_cert_pem X (identity_ca s))) (\<lambda>a.
     try_bind (map_err IdInternal (root_cert_pem X (delegation_ca s))) (\<lambda>b.
       Inr \<lparr>anchors = bt_insert ''delegation'' b (bt_insert ''identity'' a [])\<rparr>))"

section \<open>The keystore endpoint\<close>

record MintKeystoreReq =
  mk_sw_authority_pubkey :: string
  mk_security_version :: u64

definition default_security_version :: u64 where
  "default_security_version = 1"

definition tls_leaf_of :: "roster \<Rightarrow> string \<Rightarrow> bytes option" where
  "tls_leaf_of ro i =
     map_option dc_cert_der (find (\<lambda>c. dc_device_id c = i \<and> dc_key_id c = ''tls-identity'') (ro_certs ro))"

definition mint_keystore_endpoint ::
    "'h hash_api \<Rightarrow> ('k, 'c, 'r) x509_api \<Rightarrow> 'k3 offboard_api \<Rightarrow> 'k3 keystore_api \<Rightarrow> 'role hsm_api \<Rightarrow> i64
      \<Rightarrow> ('k, 'c) identity_state \<Rightarrow> string \<Rightarrow> MintKeystoreReq \<Rightarrow> IdError + bytes" where
  "mint_keystore_endpoint H X Off K M clock s i req =
     try_bind (ok_or (IdBadRequest (''device '' @ [CHR 0x27] @ i @ [CHR 0x27] @
            '' has no registered pubkey '' @ [CHR 0xE2, CHR 0x80, CHR 0x94] @ '' register/enroll it first''))
         (Option.bind (find_device (st_roster s) i) dv_pubkey)) (\<lambda>pubkey_hex.
     try_bind (ok_or (IdBadRequest ''device pubkey is not hex'') (hex_decode H (trim pubkey_hex))) (\<lambda>device_decrypt_cose.
     try_bind (ok_or (IdBadRequest ''sw_authority_pubkey is not hex'')
         (hex_decode H (trim (mk_sw_authority_pubkey req)))) (\<lambda>sw_authority_cose.
     try_bind (map_err IdInternal (public_sec1 X (key_authority_ca s))) (\<lambda>ka_sec1.
     try_bind (map_err IdInternal (root_cert_der X (delegation_ca s))) (\<lambda>delegation_root_der.
       map_err IdInternal
         (mint_keystore Off K M clock device_decrypt_cose sw_authority_cose ka_sec1
            (mk_security_version req) (tls_leaf_of (st_roster s) i) delegation_root_der))))))"

end
