(* ===== verification/Client.thy ===== *)
theory Client
  imports Wire
begin

text \<open>
  \<open>crates/client/src/lib.rs\<close>: the typed HTTP clients of the towers and of the token minter.

  The transport (\<open>reqwest\<close>) is an argument \<open>T\<close>: a request in, a transport error or a response
  out. A request carries its JSON body as the typed value before \<open>serde\<close> renders it
  (\<open>JsonText\<close> is the JSON of a caller outside these crates); the
  decoders of response bodies are the fields of \<open>json_api\<close>.
\<close>

section \<open>Requests\<close>

record EnvelopePartReq =
  epr_id :: string
  epr_content :: ContentHash

record EnvelopeReq =
  erq_device_pubkey :: string
  erq_device_id :: string
  erq_component :: string
  erq_parts :: "EnvelopePartReq list"
  erq_seq :: u64

record L1Req =
  l1q_channel :: "string option"
  l1q_vehicle_release_id :: "i64 option"
  l1q_tree_hash :: "string option"
  l1q_device :: string
  l1q_architecture :: string
  l1q_device_pubkey :: string
  l1q_device_id :: string
  l1q_current_state :: "string option"
  l1q_seq :: u64

record MintReq =
  mq_device_id :: string
  mq_components :: "string list"
  mq_boot_id :: "string option"
  mq_ttl_secs :: "u64 option"

datatype http_body =
    NoBody
  | RawBody bytes
  | JsonEnvelope EnvelopeReq
  | JsonL1 L1Req
  | JsonRegister RegisterDevice
  | JsonMintKeystore string
  | JsonMint MintReq
  | JsonText string

datatype http_method = GET | POST | PUT

record http_request =
  rq_method :: http_method
  rq_url :: string
  rq_query :: "(string \<times> string) list"
  rq_bearer :: "string option"
  rq_body :: http_body

record http_response =
  rs_status :: nat
  rs_body :: bytes

type_synonym transport = "http_request \<Rightarrow> string + http_response"

datatype ClientError = Http string

record Version =
  v_service :: string
  v_version :: string

record MintedToken =
  mt_token :: string
  mt_expires_at :: string

record json_api =
  de_version :: "bytes \<Rightarrow> string + Version"
  de_artifact_ref :: "bytes \<Rightarrow> string + ArtifactRef"
  de_tree :: "bytes \<Rightarrow> string + Tree"
  de_device :: "bytes \<Rightarrow> string + Device"
  de_devices :: "bytes \<Rightarrow> string + Device list"
  de_enroll :: "bytes \<Rightarrow> string + EnrollResponse"
  de_trust_bundle :: "bytes \<Rightarrow> string + TrustBundle"
  de_minted :: "bytes \<Rightarrow> string + MintedToken"
  de_text :: "bytes \<Rightarrow> string + string"

section \<open>Sending\<close>

definition get_request :: "string \<Rightarrow> (string \<times> string) list \<Rightarrow> http_request" where
  "get_request url q = \<lparr>rq_method = GET, rq_url = url, rq_query = q, rq_bearer = None, rq_body = NoBody\<rparr>"

definition post_request :: "string \<Rightarrow> http_body \<Rightarrow> http_request" where
  "post_request url b = \<lparr>rq_method = POST, rq_url = url, rq_query = [], rq_bearer = None, rq_body = b\<rparr>"

text \<open>\<open>Response::error_for_status\<close>: client and server errors become an error.\<close>

definition error_for_status :: "http_response \<Rightarrow> ClientError + http_response" where
  "error_for_status rs =
     (if 400 \<le> rs_status rs \<and> rs_status rs < 600 then Inl (Http (nat_to_string (rs_status rs))) else Inr rs)"

definition send :: "transport \<Rightarrow> http_request \<Rightarrow> ClientError + http_response" where
  "send T rq = map_err Http (T rq)"

definition send_bytes :: "transport \<Rightarrow> http_request \<Rightarrow> ClientError + bytes" where
  "send_bytes T rq =
     try_bind (send T rq) (\<lambda>rs. try_bind (error_for_status rs) (\<lambda>ok. Inr (rs_body ok)))"

definition send_json :: "transport \<Rightarrow> (bytes \<Rightarrow> string + 'a) \<Rightarrow> http_request \<Rightarrow> ClientError + 'a" where
  "send_json T de rq = try_bind (send_bytes T rq) (\<lambda>b. map_err Http (de b))"

text \<open>A 404 answers \<open>None\<close>.\<close>

definition send_opt :: "transport \<Rightarrow> (bytes \<Rightarrow> string + 'a) \<Rightarrow> http_request \<Rightarrow> ClientError + 'a option" where
  "send_opt T de rq =
     try_bind (send T rq) (\<lambda>rs.
       if rs_status rs = 404 then Inr None
       else try_bind (error_for_status rs) (\<lambda>ok. try_bind (map_err Http (de (rs_body ok))) (\<lambda>x. Inr (Some x))))"

section \<open>The base client\<close>

definition TowerClient_new :: "string \<Rightarrow> string" where
  "TowerClient_new base_url = trim_end_matches (CHR ''/'') base_url"

definition healthy :: "transport \<Rightarrow> json_api \<Rightarrow> string \<Rightarrow> ClientError + bool" where
  "healthy T J base =
     try_bind (send_json T (de_text J) (get_request (base @ ''/healthz'') [])) (\<lambda>body. Inr (trim body = ''ok''))"

definition tower_version :: "transport \<Rightarrow> json_api \<Rightarrow> string \<Rightarrow> ClientError + Version" where
  "tower_version T J base = send_json T (de_version J) (get_request (base @ ''/version'') [])"

section \<open>Tower 2\<close>

definition sc_publish_artifact ::
    "transport \<Rightarrow> json_api \<Rightarrow> string \<Rightarrow> bytes \<Rightarrow> ClientError + ArtifactRef" where
  "sc_publish_artifact T J base plaintext =
     send_json T (de_artifact_ref J) (post_request (base @ ''/admin/artifacts'') (RawBody plaintext))"

definition sc_get_blob ::
    "'h hash_api \<Rightarrow> transport \<Rightarrow> string \<Rightarrow> ContentHash \<Rightarrow> ClientError + bytes option" where
  "sc_get_blob H T base outer =
     send_opt T Inr (get_request (base @ ''/blobs/'' @ to_prefixed H outer) [])"

definition sc_artifact_exists ::
    "'h hash_api \<Rightarrow> transport \<Rightarrow> json_api \<Rightarrow> string \<Rightarrow> ContentHash \<Rightarrow> ClientError + ArtifactRef option" where
  "sc_artifact_exists H T J base inner =
     send_opt T (de_artifact_ref J) (get_request (base @ ''/admin/artifacts/'' @ to_prefixed H inner) [])"

definition sc_channel_target_tree ::
    "transport \<Rightarrow> json_api \<Rightarrow> string \<Rightarrow> string \<Rightarrow> string option \<Rightarrow> string option \<Rightarrow> ClientError + Tree option" where
  "sc_channel_target_tree T J base channel device architecture =
     send_opt T (de_tree J) (get_request (base @ ''/channel-targets/tree'')
       ([(''channel'', channel)] @
        (case device of Some d \<Rightarrow> [(''device'', d)] | None \<Rightarrow> []) @
        (case architecture of Some a \<Rightarrow> [(''architecture'', a)] | None \<Rightarrow> [])))"

definition sc_channel_tree :: "transport \<Rightarrow> json_api \<Rightarrow> string \<Rightarrow> string \<Rightarrow> ClientError + Tree option" where
  "sc_channel_tree T J base name = sc_channel_target_tree T J base name None None"

definition sc_vehicle_release_tree ::
    "transport \<Rightarrow> json_api \<Rightarrow> string \<Rightarrow> i64 \<Rightarrow> string option \<Rightarrow> ClientError + Tree option" where
  "sc_vehicle_release_tree T J base vid th =
     send_opt T (de_tree J) (get_request (base @ ''/channel-targets/tree'')
       ([(''vehicle_release_id'', i64_to_string vid)] @
        (case th of Some x \<Rightarrow> [(''tree_hash'', x)] | None \<Rightarrow> [])))"

definition sc_build_envelope ::
    "transport \<Rightarrow> string \<Rightarrow> string \<Rightarrow> string \<Rightarrow> string \<Rightarrow> (string \<times> ContentHash) list \<Rightarrow> u64 \<Rightarrow> ClientError + bytes" where
  "sc_build_envelope T base device_pubkey device_id component parts seq =
     send_bytes T (post_request (base @ ''/admin/envelope'')
       (JsonEnvelope \<lparr>erq_device_pubkey = device_pubkey, erq_device_id = device_id, erq_component = component,
          erq_parts = map (\<lambda>(i, c). \<lparr>epr_id = i, epr_content = c\<rparr>) parts, erq_seq = seq\<rparr>))"

definition sc_channel_target_l1 ::
    "transport \<Rightarrow> string \<Rightarrow> string \<Rightarrow> string \<Rightarrow> string \<Rightarrow> string \<Rightarrow> string \<Rightarrow> string option \<Rightarrow> u64
      \<Rightarrow> ClientError + bytes" where
  "sc_channel_target_l1 T base channel device architecture device_pubkey device_id current_state seq =
     send_bytes T (post_request (base @ ''/channel-targets/l1'')
       (JsonL1 \<lparr>l1q_channel = Some channel, l1q_vehicle_release_id = None, l1q_tree_hash = None,
          l1q_device = device, l1q_architecture = architecture, l1q_device_pubkey = device_pubkey,
          l1q_device_id = device_id, l1q_current_state = current_state, l1q_seq = seq\<rparr>))"

definition sc_vehicle_release_l1 ::
    "transport \<Rightarrow> string \<Rightarrow> i64 \<Rightarrow> string option \<Rightarrow> string \<Rightarrow> string \<Rightarrow> string \<Rightarrow> string \<Rightarrow> string option \<Rightarrow> u64
      \<Rightarrow> ClientError + bytes" where
  "sc_vehicle_release_l1 T base vid th device architecture device_pubkey device_id current_state seq =
     send_bytes T (post_request (base @ ''/channel-targets/l1'')
       (JsonL1 \<lparr>l1q_channel = None, l1q_vehicle_release_id = Some vid, l1q_tree_hash = th,
          l1q_device = device, l1q_architecture = architecture, l1q_device_pubkey = device_pubkey,
          l1q_device_id = device_id, l1q_current_state = current_state, l1q_seq = seq\<rparr>))"

definition sc_signer_pubkey :: "transport \<Rightarrow> string \<Rightarrow> ClientError + bytes" where
  "sc_signer_pubkey T base = send_bytes T (get_request (base @ ''/admin/signer/pubkey'') [])"

section \<open>Tower 1\<close>

definition ic_register_device ::
    "transport \<Rightarrow> json_api \<Rightarrow> string \<Rightarrow> RegisterDevice \<Rightarrow> ClientError + Device" where
  "ic_register_device T J base req =
     send_json T (de_device J) (post_request (base @ ''/admin/devices'') (JsonRegister req))"

definition ic_list_devices :: "transport \<Rightarrow> json_api \<Rightarrow> string \<Rightarrow> ClientError + Device list" where
  "ic_list_devices T J base = send_json T (de_devices J) (get_request (base @ ''/devices'') [])"

definition ic_get_device ::
    "transport \<Rightarrow> json_api \<Rightarrow> string \<Rightarrow> string \<Rightarrow> ClientError + Device option" where
  "ic_get_device T J base dev = send_opt T (de_device J) (get_request (base @ ''/devices/'' @ dev) [])"

definition ic_enroll ::
    "transport \<Rightarrow> json_api \<Rightarrow> string \<Rightarrow> string \<Rightarrow> string \<Rightarrow> bytes \<Rightarrow> ClientError + EnrollResponse" where
  "ic_enroll T J base dev key_id csr_der =
     send_json T (de_enroll J)
       (post_request (base @ ''/admin/devices/'' @ dev @ ''/enroll?key_id='' @ key_id) (RawBody csr_der))"

definition ic_mint_keystore ::
    "transport \<Rightarrow> string \<Rightarrow> string \<Rightarrow> string \<Rightarrow> ClientError + bytes" where
  "ic_mint_keystore T base dev sw_authority_pubkey =
     send_bytes T (post_request (base @ ''/admin/devices/'' @ dev @ ''/keystore'')
       (JsonMintKeystore sw_authority_pubkey))"

definition ic_ca_cert :: "transport \<Rightarrow> json_api \<Rightarrow> string \<Rightarrow> ClientError + string" where
  "ic_ca_cert T J base = send_json T (de_text J) (get_request (base @ ''/admin/ca/cert'') [])"

definition ic_trust_bundle :: "transport \<Rightarrow> json_api \<Rightarrow> string \<Rightarrow> ClientError + TrustBundle" where
  "ic_trust_bundle T J base = send_json T (de_trust_bundle J) (get_request (base @ ''/admin/ca/trust-bundle'') [])"

section \<open>The minter\<close>

record MinterClient =
  mc_base :: string
  mc_operator_token :: string

definition MinterClient_new :: "string \<Rightarrow> string \<Rightarrow> MinterClient" where
  "MinterClient_new base_url operator_token =
     \<lparr>mc_base = trim_end_matches (CHR ''/'') base_url, mc_operator_token = operator_token\<rparr>"

definition mint ::
    "transport \<Rightarrow> json_api \<Rightarrow> MinterClient \<Rightarrow> string \<Rightarrow> string list \<Rightarrow> string option \<Rightarrow> u64 option
      \<Rightarrow> ClientError + MintedToken" where
  "mint T J m device_id components boot_id ttl_secs =
     send_json T (de_minted J)
       ((post_request (mc_base m @ ''/mint'')
          (JsonMint \<lparr>mq_device_id = device_id, mq_components = components, mq_boot_id = boot_id,
             mq_ttl_secs = ttl_secs\<rparr>))\<lparr>rq_bearer := Some (mc_operator_token m)\<rparr>)"

section \<open>Lemmas\<close>

lemma send_bytes_Inr_iff [res_simps]:
  "send_bytes T rq = Inr b \<longleftrightarrow>
     (\<exists>rs. T rq = Inr rs \<and> \<not> (400 \<le> rs_status rs \<and> rs_status rs < 600) \<and> b = rs_body rs)"
  by (auto simp: send_bytes_def send_def error_for_status_def res_simps split: if_splits)

lemma send_opt_Inr_iff [res_simps]:
  "send_opt T de rq = Inr x \<longleftrightarrow>
     (\<exists>rs. T rq = Inr rs \<and>
        (if rs_status rs = 404 then x = None
         else \<not> (400 \<le> rs_status rs \<and> rs_status rs < 600) \<and> (\<exists>y. de (rs_body rs) = Inr y \<and> x = Some y)))"
  by (auto simp: send_opt_def send_def error_for_status_def res_simps split: if_splits)

lemma send_json_Inr_iff [res_simps]:
  "send_json T de rq = Inr x \<longleftrightarrow>
     (\<exists>rs. T rq = Inr rs \<and> \<not> (400 \<le> rs_status rs \<and> rs_status rs < 600) \<and> de (rs_body rs) = Inr x)"
  by (auto simp: send_json_def res_simps)

end
