(* ===== verification/Towers.thy ===== *)
theory Towers
  imports L1 Roster Client
begin

text \<open>
  The two towers as HTTP services: \<open>main.rs\<close> of \<open>software-tower\<close> and \<open>identity-tower\<close>, with their
  state, their route tables and the bootstrap of the software authority.

  A handler runs on typed requests (\<open>hub_request\<close>, \<open>ca_request\<close>: what the extractors of the
  routes hand over) and yields the new state and a typed answer; the HTTP layer above it maps
  method, path and query to a request and an answer to a status and a body. Rendering bodies
  as JSON is \<open>serde\<close>'s and an argument, as are the extra fields of a request the crates draw
  (clock, entropy).
\<close>

section \<open>Paths\<close>

fun split_on :: "char \<Rightarrow> string \<Rightarrow> string list" where
  "split_on c [] = [[]]"
| "split_on c (x # xs) =
     (if x = c then [] # split_on c xs
      else case split_on c xs of s # ss \<Rightarrow> (x # s) # ss | [] \<Rightarrow> [[x]])"

definition path_only :: "string \<Rightarrow> string" where
  "path_only p = hd (split_on (CHR ''?'') p)"

definition segments :: "string \<Rightarrow> string list" where
  "segments p = split_on (CHR ''/'') (path_only p)"

text \<open>The query of a request: what stands behind \<open>?\<close> in its URL (\<open>?key_id=<slot>\<close>) and what the
  caller handed over as parameters. Percent-escapes and a parameter given twice are not modelled;
  the clients send neither.\<close>

definition query_pair :: "string \<Rightarrow> string \<times> string" where
  "query_pair s = (takeWhile (\<lambda>c. c \<noteq> CHR ''='') s, drop 1 (dropWhile (\<lambda>c. c \<noteq> CHR ''='') s))"

definition request_query :: "http_request \<Rightarrow> string \<Rightarrow> (string \<times> string) list" where
  "request_query rq p =
     (case dropWhile (\<lambda>c. c \<noteq> CHR ''?'') p of
        _ # q \<Rightarrow> map query_pair (split_on (CHR ''&'') q)
      | [] \<Rightarrow> []) @ rq_query rq"

text \<open>The body of a request for a handler that takes bytes, and for one that takes JSON: \<open>typed\<close>
  recognises the values of the client crate, \<open>de\<close> decodes the (well-formed) JSON of any other caller.
  A body without the JSON content type is refused with 415, JSON of another shape with 422.\<close>

fun body_bytes :: "(http_body \<Rightarrow> bytes) \<Rightarrow> http_body \<Rightarrow> bytes" where
  "body_bytes render NoBody = []"
| "body_bytes render (RawBody b) = b"
| "body_bytes render b = render b"

definition json_arg :: "(http_body \<Rightarrow> 'a option) \<Rightarrow> (string \<Rightarrow> 'a option) \<Rightarrow> http_body \<Rightarrow> nat + 'a" where
  "json_arg typed de b =
     (case typed b of
        Some a \<Rightarrow> Inr a
      | None \<Rightarrow>
          (case b of
             NoBody \<Rightarrow> Inl 415
           | RawBody _ \<Rightarrow> Inl 415
           | JsonText t \<Rightarrow> (case de t of Some a \<Rightarrow> Inr a | None \<Rightarrow> Inl 422)
           | _ \<Rightarrow> Inl 422))"

definition for_method :: "http_method \<Rightarrow> http_request \<Rightarrow> nat + 'r \<Rightarrow> nat + 'r" where
  "for_method m rq r = (if rq_method rq = m then r else Inl 405)"

lemma split_on_not_Nil [simp]: "split_on c s \<noteq> []"
  by (induction c s rule: split_on.induct) (auto split: list.splits)

lemma split_on_none: "c \<notin> set s \<Longrightarrow> split_on c s = [s]"
  by (induction c s rule: split_on.induct) auto

lemma split_on_append: "c \<notin> set s \<Longrightarrow> split_on c (s @ c # t) = s # split_on c t"
  by (induction c s rule: split_on.induct) auto

section \<open>Tower 2\<close>

record 'k hub_state =
  hs_blobs :: blob_fs
  hs_index :: PgIndex
  hs_pool :: "database option"
  hs_signer :: "'k Signer"

record ('h, 's, 'z, 'k) hub_crates =
  hx_hash :: "'h hash_api"
  hx_aead :: "'s aead_api"
  hx_zstd :: "'z zstd_api"
  hx_off :: "'k offboard_api"
  hx_from_value :: "string \<Rightarrow> Tree option"
  hx_chunks :: "bytes \<Rightarrow> (string + bytes) list"
  hx_body :: "http_body \<Rightarrow> bytes"
  hx_de_component :: "string \<Rightarrow> NewComponentRelease option"
  hx_de_vehicle :: "string \<Rightarrow> NewVehicleRelease option"
  hx_de_target :: "string \<Rightarrow> SetChannelTarget option"
  hx_de_l1 :: "string \<Rightarrow> L1Request option"
  hx_de_envelope :: "string \<Rightarrow> NewEnvelope option"
  hx_version :: string

datatype hub_request =
    HubHealthz
  | HubVersion
  | HubPublish "(string + bytes) list"
  | HubArtifactExists string
  | HubCreateComponent NewComponentRelease
  | HubListComponents HistoryFilter
  | HubCreateVehicle NewVehicleRelease
  | HubListVehicles HistoryFilter
  | HubListChannels
  | HubSetChannelTarget SetChannelTarget
  | HubGetChannelTarget TargetSelector
  | HubTree TargetSelector
  | HubL1 L1Request
  | HubSignerPubkey
  | HubEnvelope NewEnvelope
  | HubBlob string

datatype hub_answer =
    AnsText string
  | AnsVersion string string
  | AnsArtifact ArtifactRef
  | AnsRelease ReleaseRef
  | AnsComponents "ComponentReleaseRow list"
  | AnsVehicles "VehicleReleaseRow list"
  | AnsChannels "ChannelTargetState list"
  | AnsChannelRef ChannelTargetRef
  | AnsChannel ChannelTargetState
  | AnsTree Tree
  | AnsBytes bytes
  | AnsNoContent

definition map_ok :: "('a \<Rightarrow> 'b) \<Rightarrow> 'e + 'a \<Rightarrow> 'e + 'b" where
  "map_ok f r = try_bind r (\<lambda>x. Inr (f x))"

definition hub_read :: "'k hub_state \<Rightarrow> (database \<Rightarrow> AppError + 'a) \<Rightarrow> AppError + 'a" where
  "hub_read st f = try_bind (pool (hs_pool st)) f"

definition hub_write ::
    "'k hub_state \<Rightarrow> (database \<Rightarrow> database \<times> (AppError + 'a)) \<Rightarrow> 'k hub_state \<times> (AppError + 'a)" where
  "hub_write st f =
     (case pool (hs_pool st) of
        Inl e \<Rightarrow> (st, Inl e)
      | Inr d \<Rightarrow> (case f d of (d', r) \<Rightarrow> (st\<lparr>hs_pool := Some d'\<rparr>, r)))"

definition hub_handle ::
    "('h, 's, 'z, 'k) hub_crates \<Rightarrow> (io_op \<Rightarrow> bool) \<Rightarrow> i64 \<Rightarrow> 'k hub_state \<Rightarrow> hub_request
      \<Rightarrow> 'k hub_state \<times> (AppError + hub_answer)" where
  "hub_handle C io clock st rq =
     (let H = hx_hash C; A = pg_index_api H in
      case rq of
        HubHealthz \<Rightarrow> (st, Inr (AnsText ''ok''))
      | HubVersion \<Rightarrow> (st, Inr (AnsVersion ''sumo-hub'' (hx_version C)))
      | HubPublish body \<Rightarrow>
          (case publish H (hx_aead C) (hx_zstd C) A io body (hs_blobs st, hs_index st) of
             ((fs, ix), r) \<Rightarrow> (st\<lparr>hs_blobs := fs, hs_index := ix\<rparr>, map_ok AnsArtifact r))
      | HubArtifactExists inner \<Rightarrow> (st, map_ok AnsArtifact (artifact_exists H A (hs_index st) inner))
      | HubCreateComponent r \<Rightarrow>
          hub_write st (\<lambda>d. case create_component_release H d r of (d', x) \<Rightarrow> (d', map_ok AnsRelease x))
      | HubListComponents f \<Rightarrow> (st, hub_read st (\<lambda>d. Inr (AnsComponents (list_component_releases d f))))
      | HubCreateVehicle r \<Rightarrow>
          hub_write st (\<lambda>d. case create_vehicle_release H d r of (d', x) \<Rightarrow> (d', map_ok AnsRelease x))
      | HubListVehicles f \<Rightarrow> (st, hub_read st (\<lambda>d. Inr (AnsVehicles (list_vehicle_releases d f))))
      | HubListChannels \<Rightarrow> (st, hub_read st (\<lambda>d. Inr (AnsChannels (list_channels d))))
      | HubSetChannelTarget r \<Rightarrow>
          hub_write st (\<lambda>d. case set_channel_target H d r of (d', x) \<Rightarrow> (d', map_ok AnsChannelRef x))
      | HubGetChannelTarget sel \<Rightarrow> (st, hub_read st (\<lambda>d. map_ok AnsChannel (get_channel_target d sel)))
      | HubTree sel \<Rightarrow> (st, map_ok AnsTree (channel_target_tree H (hs_pool st) sel))
      | HubL1 r \<Rightarrow>
          (st, map_ok (\<lambda>a. case a of NoContent \<Rightarrow> AnsNoContent | L1Body b \<Rightarrow> AnsBytes b)
             (channel_target_l1 H (hx_off C) A (hx_from_value C) clock (hs_signer st) (hs_pool st) (hs_index st) r))
      | HubSignerPubkey \<Rightarrow> (st, Inr (AnsBytes (snd (signer_pubkey (hx_off C) (hs_signer st)))))
      | HubEnvelope r \<Rightarrow> (st, map_ok AnsBytes (create_envelope H (hx_off C) A clock (hs_signer st) (hs_index st) r))
      | HubBlob outer \<Rightarrow> (st, map_ok (\<lambda>b. AnsBytes (br_body b)) (get_blob H io (hs_blobs st) outer)))"

section \<open>Tower 2 over HTTP\<close>

record hub_render =
  rn_version :: "string \<Rightarrow> string \<Rightarrow> bytes"
  rn_artifact_ref :: "ArtifactRef \<Rightarrow> bytes"
  rn_release_ref :: "ReleaseRef \<Rightarrow> bytes"
  rn_components :: "ComponentReleaseRow list \<Rightarrow> bytes"
  rn_vehicles :: "VehicleReleaseRow list \<Rightarrow> bytes"
  rn_channels :: "ChannelTargetState list \<Rightarrow> bytes"
  rn_channel_ref :: "ChannelTargetRef \<Rightarrow> bytes"
  rn_channel :: "ChannelTargetState \<Rightarrow> bytes"
  rn_tree :: "Tree \<Rightarrow> bytes"

fun answer_body :: "hub_render \<Rightarrow> hub_answer \<Rightarrow> bytes" where
  "answer_body R (AnsText s) = as_bytes s"
| "answer_body R (AnsVersion s v) = rn_version R s v"
| "answer_body R (AnsArtifact a) = rn_artifact_ref R a"
| "answer_body R (AnsRelease a) = rn_release_ref R a"
| "answer_body R (AnsComponents a) = rn_components R a"
| "answer_body R (AnsVehicles a) = rn_vehicles R a"
| "answer_body R (AnsChannels a) = rn_channels R a"
| "answer_body R (AnsChannelRef a) = rn_channel_ref R a"
| "answer_body R (AnsChannel a) = rn_channel R a"
| "answer_body R (AnsTree t) = rn_tree R t"
| "answer_body R (AnsBytes b) = b"
| "answer_body R AnsNoContent = []"

definition hub_response :: "hub_render \<Rightarrow> AppError + hub_answer \<Rightarrow> http_response" where
  "hub_response R r =
     (case r of
        Inl e \<Rightarrow> \<lparr>rs_status = fst (into_response e), rs_body = as_bytes (snd (into_response e))\<rparr>
      | Inr a \<Rightarrow> \<lparr>rs_status = (if a = AnsNoContent then 204 else 200), rs_body = answer_body R a\<rparr>)"

definition parse_nat :: "string \<Rightarrow> nat option" where
  "parse_nat s =
     (if s \<noteq> [] \<and> list_all is_digit_char s
      then Some (foldl (\<lambda>n c. 10 * n + (of_char c - 48)) 0 s) else None)"

text \<open>\<open>i64::from_str\<close>: an optional sign, at least one digit, within the range.\<close>

definition parse_i64 :: "string \<Rightarrow> i64 option" where
  "parse_i64 s =
     (let v = (case s of
          [] \<Rightarrow> None
        | c # cs \<Rightarrow>
            if c = CHR ''-'' then map_option (\<lambda>n. - int n) (parse_nat cs)
            else if c = CHR ''+'' then map_option int (parse_nat cs)
            else map_option int (parse_nat (c # cs))) in
      case v of Some i \<Rightarrow> if - (2 ^ 63) \<le> i \<and> i < 2 ^ 63 then Some i else None | None \<Rightarrow> None)"

definition selector_of_query :: "(string \<times> string) list \<Rightarrow> TargetSelector option" where
  "selector_of_query q =
     (let sel = \<lparr>ts_channel = map_of q ''channel'', ts_device = map_of q ''device'',
                 ts_architecture = map_of q ''architecture'', ts_vehicle_release_id = None,
                 ts_tree_hash = map_of q ''tree_hash''\<rparr> in
      case map_of q ''vehicle_release_id'' of
        None \<Rightarrow> Some sel
      | Some t \<Rightarrow> (case parse_i64 t of Some i \<Rightarrow> Some (sel\<lparr>ts_vehicle_release_id := Some i\<rparr>) | None \<Rightarrow> None))"

definition new_envelope_of :: "EnvelopeReq \<Rightarrow> NewEnvelope" where
  "new_envelope_of r = \<lparr>ne_device_pubkey = erq_device_pubkey r, ne_device_id = erq_device_id r,
     ne_component = erq_component r,
     ne_parts = map (\<lambda>p. \<lparr>nep_id = epr_id p, nep_content = epr_content p\<rparr>) (erq_parts r), ne_seq = erq_seq r\<rparr>"

definition l1_request_of :: "L1Req \<Rightarrow> L1Request" where
  "l1_request_of r = \<lparr>l1_channel = l1q_channel r, l1_vehicle_release_id = l1q_vehicle_release_id r,
     l1_tree_hash = l1q_tree_hash r, l1_device = l1q_device r, l1_architecture = l1q_architecture r,
     l1_device_pubkey = l1q_device_pubkey r, l1_device_id = l1q_device_id r,
     l1_current_state = l1q_current_state r, l1_seq = l1q_seq r\<rparr>"

definition history_filter_of :: "(string \<times> string) list \<Rightarrow> HistoryFilter" where
  "history_filter_of q = \<lparr>hf_entity_path = map_of q ''entity_path'', hf_tag = map_of q ''tag''\<rparr>"

fun typed_l1 :: "http_body \<Rightarrow> L1Request option" where
  "typed_l1 (JsonL1 r) = Some (l1_request_of r)"
| "typed_l1 _ = None"

fun typed_envelope :: "http_body \<Rightarrow> NewEnvelope option" where
  "typed_envelope (JsonEnvelope r) = Some (new_envelope_of r)"
| "typed_envelope _ = None"

text \<open>The route table; \<open>Inl\<close> is the status axum answers with when no handler runs.\<close>

definition hub_route ::
    "('h, 's, 'z, 'k) hub_crates \<Rightarrow> http_request \<Rightarrow> string \<Rightarrow> nat + hub_request" where
  "hub_route C rq path =
     (let segs = segments path; q = request_query rq path;
          sel = (\<lambda>f. case selector_of_query q of Some s \<Rightarrow> Inr (f s) | None \<Rightarrow> Inl 400) in
      if segs = [[], ''healthz''] then for_method GET rq (Inr HubHealthz)
      else if segs = [[], ''version''] then for_method GET rq (Inr HubVersion)
      else if segs = [[], ''admin'', ''artifacts''] then
        for_method POST rq (Inr (HubPublish (hx_chunks C (body_bytes (hx_body C) (rq_body rq)))))
      else if segs = [[], ''admin'', ''component-releases''] then
        (if rq_method rq = POST
         then map_ok HubCreateComponent (json_arg (\<lambda>_. None) (hx_de_component C) (rq_body rq))
         else for_method GET rq (Inr (HubListComponents (history_filter_of q))))
      else if segs = [[], ''admin'', ''vehicle-releases''] then
        (if rq_method rq = POST
         then map_ok HubCreateVehicle (json_arg (\<lambda>_. None) (hx_de_vehicle C) (rq_body rq))
         else for_method GET rq (Inr (HubListVehicles (history_filter_of q))))
      else if segs = [[], ''admin'', ''channels''] then for_method GET rq (Inr HubListChannels)
      else if segs = [[], ''admin'', ''channel-targets''] then
        (if rq_method rq = PUT
         then map_ok HubSetChannelTarget (json_arg (\<lambda>_. None) (hx_de_target C) (rq_body rq))
         else for_method GET rq (sel HubGetChannelTarget))
      else if segs = [[], ''channel-targets'', ''tree''] then for_method GET rq (sel HubTree)
      else if segs = [[], ''channel-targets'', ''l1''] then
        for_method POST rq (map_ok HubL1 (json_arg typed_l1 (hx_de_l1 C) (rq_body rq)))
      else if segs = [[], ''admin'', ''signer'', ''pubkey''] then for_method GET rq (Inr HubSignerPubkey)
      else if segs = [[], ''admin'', ''envelope''] then
        for_method POST rq (map_ok HubEnvelope (json_arg typed_envelope (hx_de_envelope C) (rq_body rq)))
      else
        (case segs of
           [a, b, c] \<Rightarrow>
             if a = [] \<and> b = ''blobs'' \<and> c \<noteq> [] then for_method GET rq (Inr (HubBlob c)) else Inl 404
         | [a, b, c, d] \<Rightarrow>
             if a = [] \<and> b = ''admin'' \<and> c = ''artifacts'' \<and> d \<noteq> []
             then for_method GET rq (Inr (HubArtifactExists d)) else Inl 404
         | _ \<Rightarrow> Inl 404))"

definition hub_http ::
    "('h, 's, 'z, 'k) hub_crates \<Rightarrow> hub_render \<Rightarrow> (io_op \<Rightarrow> bool) \<Rightarrow> i64 \<Rightarrow> 'k hub_state \<Rightarrow> http_request \<Rightarrow> string
      \<Rightarrow> 'k hub_state \<times> http_response" where
  "hub_http C R io clock st rq path =
     (case hub_route C rq path of
        Inl code \<Rightarrow> (st, \<lparr>rs_status = code, rs_body = []\<rparr>)
      | Inr h \<Rightarrow> (case hub_handle C io clock st h of (st', r) \<Rightarrow> (st', hub_response R r)))"

section \<open>Tower 1\<close>

record ('h, 'k, 'c, 'r, 'k3, 'role) ca_crates =
  cx_hash :: "'h hash_api"
  cx_x509 :: "('k, 'c, 'r) x509_api"
  cx_off :: "'k3 offboard_api"
  cx_keystore :: "'k3 keystore_api"
  cx_hsm :: "'role hsm_api"
  cx_spki_of :: "bytes \<Rightarrow> bytes option"
  cx_body :: "http_body \<Rightarrow> bytes"
  cx_de_register :: "string \<Rightarrow> RegisterDevice option"
  cx_de_keystore :: "string \<Rightarrow> MintKeystoreReq option"
  cx_de_delegate :: "string \<Rightarrow> DelegateCertReq option"
  cx_version :: string

datatype ca_request =
    CaHealthz
  | CaVersion
  | CaRegister RegisterDevice
  | CaEnroll string string bytes
  | CaKeystore string MintKeystoreReq
  | CaDelegate DelegateCertReq
  | CaCaCert
  | CaTrustBundle
  | CaDevices
  | CaDevice string

datatype ca_answer =
    CaText string
  | CaVersionAns string string
  | CaDeviceAns Device
  | CaDevicesAns "Device list"
  | CaEnrollAns EnrollResponse
  | CaBytesAns bytes
  | CaDelegateAns DelegateCertResponse
  | CaBundleAns TrustBundle

definition ca_handle ::
    "('h, 'k, 'c, 'r, 'k3, 'role) ca_crates \<Rightarrow> 'k draw \<Rightarrow> i64 \<Rightarrow> ('k, 'c) identity_state \<Rightarrow> ca_request
      \<Rightarrow> ('k, 'c) identity_state \<times> (id_failure + ca_answer)" where
  "ca_handle C d clock st rq =
     (let H = cx_hash C; X = cx_x509 C; Off = cx_off C; K = cx_keystore C; spki = cx_spki_of C in
      case rq of
        CaHealthz \<Rightarrow> (st, Inr (CaText ''ok''))
      | CaVersion \<Rightarrow> (st, Inr (CaVersionAns ''sumo-ca'' (cx_version C)))
      | CaRegister r \<Rightarrow>
          (case register_device H Off K spki st r of (st', x) \<Rightarrow> (st', map_ok CaDeviceAns (map_err Answered x)))
      | CaEnroll i key_id body \<Rightarrow>
          (case enroll_device H X K d st i key_id body of (st', x) \<Rightarrow> (st', map_ok CaEnrollAns x))
      | CaKeystore i r \<Rightarrow>
          (st, map_ok CaBytesAns (map_err Answered (mint_keystore_endpoint H X Off K (cx_hsm C) clock st i r)))
      | CaDelegate r \<Rightarrow> (st, map_ok CaDelegateAns (map_err Answered (mint_delegate_cert X d st r)))
      | CaCaCert \<Rightarrow> (st, map_ok (\<lambda>p. CaText (snd p)) (map_err Answered (ca_cert X st)))
      | CaTrustBundle \<Rightarrow> (st, map_ok CaBundleAns (map_err Answered (trust_bundle X st)))
      | CaDevices \<Rightarrow> (st, map_ok CaDevicesAns (map_err Answered (list_devices H Off K spki st)))
      | CaDevice i \<Rightarrow> (st, map_ok CaDeviceAns (map_err Answered (get_device H Off K spki st i))))"

record ca_render =
  rc_version :: "string \<Rightarrow> string \<Rightarrow> bytes"
  rc_device :: "Device \<Rightarrow> bytes"
  rc_devices :: "Device list \<Rightarrow> bytes"
  rc_enroll :: "EnrollResponse \<Rightarrow> bytes"
  rc_delegate :: "DelegateCertResponse \<Rightarrow> bytes"
  rc_bundle :: "TrustBundle \<Rightarrow> bytes"

fun ca_answer_body :: "ca_render \<Rightarrow> ca_answer \<Rightarrow> bytes" where
  "ca_answer_body R (CaText s) = as_bytes s"
| "ca_answer_body R (CaVersionAns s v) = rc_version R s v"
| "ca_answer_body R (CaDeviceAns d) = rc_device R d"
| "ca_answer_body R (CaDevicesAns ds) = rc_devices R ds"
| "ca_answer_body R (CaEnrollAns e) = rc_enroll R e"
| "ca_answer_body R (CaBytesAns b) = b"
| "ca_answer_body R (CaDelegateAns r) = rc_delegate R r"
| "ca_answer_body R (CaBundleAns b) = rc_bundle R b"

text \<open>A panicking handler drops the connection: the client sees a transport error.\<close>

definition ca_response :: "ca_render \<Rightarrow> id_failure + ca_answer \<Rightarrow> string + http_response" where
  "ca_response R r =
     (case r of
        Inl (Answered e) \<Rightarrow> Inr \<lparr>rs_status = fst (id_into_response e), rs_body = as_bytes (snd (id_into_response e))\<rparr>
      | Inl (Panicked m) \<Rightarrow> Inl ''connection closed before message completed''
      | Inr a \<Rightarrow> Inr \<lparr>rs_status = 200, rs_body = ca_answer_body R a\<rparr>)"

fun typed_register :: "http_body \<Rightarrow> RegisterDevice option" where
  "typed_register (JsonRegister r) = Some r"
| "typed_register _ = None"

fun typed_keystore :: "http_body \<Rightarrow> MintKeystoreReq option" where
  "typed_keystore (JsonMintKeystore sw) =
     Some \<lparr>mk_sw_authority_pubkey = sw, mk_security_version = default_security_version\<rparr>"
| "typed_keystore _ = None"

definition ca_route ::
    "('h, 'k, 'c, 'r, 'k3, 'role) ca_crates \<Rightarrow> http_request \<Rightarrow> string \<Rightarrow> nat + ca_request" where
  "ca_route C rq path =
     (let segs = segments path; q = request_query rq path in
      if segs = [[], ''healthz''] then for_method GET rq (Inr CaHealthz)
      else if segs = [[], ''version''] then for_method GET rq (Inr CaVersion)
      else if segs = [[], ''admin'', ''devices''] then
        for_method POST rq (map_ok CaRegister (json_arg typed_register (cx_de_register C) (rq_body rq)))
      else if segs = [[], ''admin'', ''workshop'', ''delegate-cert''] then
        for_method POST rq (map_ok CaDelegate (json_arg (\<lambda>_. None) (cx_de_delegate C) (rq_body rq)))
      else if segs = [[], ''admin'', ''ca'', ''cert''] then for_method GET rq (Inr CaCaCert)
      else if segs = [[], ''admin'', ''ca'', ''trust-bundle''] then for_method GET rq (Inr CaTrustBundle)
      else if segs = [[], ''devices''] then for_method GET rq (Inr CaDevices)
      else
        (case segs of
           [a, b, i] \<Rightarrow>
             if a = [] \<and> b = ''devices'' \<and> i \<noteq> [] then for_method GET rq (Inr (CaDevice i)) else Inl 404
         | [a, b, c, i, e] \<Rightarrow>
             if a = [] \<and> b = ''admin'' \<and> c = ''devices'' \<and> i \<noteq> [] \<and> e = ''enroll'' then
               for_method POST rq
                 (Inr (CaEnroll i (case map_of q ''key_id'' of Some k \<Rightarrow> k | None \<Rightarrow> default_enroll_key_id)
                        (body_bytes (cx_body C) (rq_body rq))))
             else if a = [] \<and> b = ''admin'' \<and> c = ''devices'' \<and> i \<noteq> [] \<and> e = ''keystore'' then
               for_method POST rq (map_ok (CaKeystore i) (json_arg typed_keystore (cx_de_keystore C) (rq_body rq)))
             else Inl 404
         | _ \<Rightarrow> Inl 404))"

definition ca_http ::
    "('h, 'k, 'c, 'r, 'k3, 'role) ca_crates \<Rightarrow> ca_render \<Rightarrow> 'k draw \<Rightarrow> i64 \<Rightarrow> ('k, 'c) identity_state
      \<Rightarrow> http_request \<Rightarrow> string \<Rightarrow> ('k, 'c) identity_state \<times> (string + http_response)" where
  "ca_http C R d clock st rq path =
     (case ca_route C rq path of
        Inl code \<Rightarrow> (st, Inr \<lparr>rs_status = code, rs_body = []\<rparr>)
      | Inr h \<Rightarrow> (case ca_handle C d clock st h of (st', r) \<Rightarrow> (st', ca_response R r)))"

section \<open>Bootstrap\<close>

text \<open>\<open>connect_with_retry\<close>, the same function in both towers: up to fifteen attempts, a second of
  sleep after each failed one; \<open>connect i\<close> is what the \<open>i\<close>-th attempt yields. The second component
  is the number of seconds slept. The code unwraps the last error with \<open>expect\<close>.\<close>

datatype startup_failure = StartError string | StartPanic string

fun connect_attempts ::
    "(nat \<Rightarrow> string + 'p) \<Rightarrow> nat list \<Rightarrow> string option \<Rightarrow> nat \<Rightarrow> (string option + 'p) \<times> nat" where
  "connect_attempts connect [] last_err slept = (Inl last_err, slept)"
| "connect_attempts connect (i # attempts) last_err slept =
     (case connect i of
        Inr p \<Rightarrow> (Inr p, slept)
      | Inl e \<Rightarrow> connect_attempts connect attempts (Some e) (Suc slept))"

definition connect_with_retry ::
    "(nat \<Rightarrow> string + 'p) \<Rightarrow> string \<Rightarrow> (startup_failure + 'p) \<times> nat" where
  "connect_with_retry connect url =
     (case connect_attempts connect [1..<16] None 0 of
        (Inr p, slept) \<Rightarrow> (Inr p, slept)
      | (Inl (Some e), slept) \<Rightarrow>
          (Inl (StartError (''could not connect to postgres at '' @ url @ '': '' @ e)), slept)
      | (Inl None, slept) \<Rightarrow> (Inl (StartPanic ''loop ran at least once''), slept))"

text \<open>\<open>load_or_generate_signer\<close>: the files and their faults are those of the authorities.\<close>

definition load_or_generate_signer ::
    "'k offboard_api \<Rightarrow> ca_faults \<Rightarrow> ca_fs \<Rightarrow> string \<Rightarrow> ca_fs \<times> (string + 'k Signer)" where
  "load_or_generate_signer Off fault fs path =
     (if fs path \<noteq> None then
        (fs, try_bind (ca_fs_read fault fs path) (\<lambda>b.
               map_err (\<lambda>e. ''invalid signing key '' @ path @ '': '' @ e) (Signer_from_cbor Off b)))
      else
        (case map_err (\<lambda>e. ''signing keygen failed: '' @ e) (Signer_generate Off) of
           Inl e \<Rightarrow> (fs, Inl e)
         | Inr s \<Rightarrow>
             (case fault (CaCreateDir path) of
                Some (e, _) \<Rightarrow> (fs, Inl e)
              | None \<Rightarrow>
                  (case ca_fs_write fault fs path (Signer_to_cbor Off s) of
                     (fs1, Inl e) \<Rightarrow> (fs1, Inl e)
                   | (fs1, Inr _) \<Rightarrow>
                       (case ca_fs_set_mode fault fs1 path 384 of
                          (fs2, Inl e) \<Rightarrow> (fs2, Inl e)
                        | (fs2, Inr _) \<Rightarrow> (fs2, Inr s))))))"

text \<open>\<open>main\<close> up to the point where the router serves: the database (\<open>migrate\<close> brings its tables up
  to date and is what is then seen of them), the signer, the state. \<open>blobs\<close> is what the blob
  directory holds. The index and the pool are two views of the database.\<close>

definition hub_main ::
    "'k offboard_api \<Rightarrow> ca_faults \<Rightarrow> (nat \<Rightarrow> string + 'p) \<Rightarrow> ('p \<Rightarrow> string + PgIndex \<times> database) \<Rightarrow> string
      \<Rightarrow> string \<Rightarrow> blob_fs \<Rightarrow> ca_fs \<Rightarrow> ca_fs \<times> (startup_failure + 'k hub_state)" where
  "hub_main Off fault connect migrate url signing_key blobs fs =
     (case fst (connect_with_retry connect url) of
        Inl e \<Rightarrow> (fs, Inl e)
      | Inr p \<Rightarrow>
          (case migrate p of
             Inl e \<Rightarrow> (fs, Inl (StartError e))
           | Inr (ix, d) \<Rightarrow>
               (case load_or_generate_signer Off fault fs signing_key of
                  (fs', Inl e) \<Rightarrow> (fs', Inl (StartError e))
                | (fs', Inr s) \<Rightarrow>
                    (fs', Inr \<lparr>hs_blobs = blobs, hs_index = ix, hs_pool = Some d, hs_signer = s\<rparr>))))"

text \<open>Tower 1 brings up its three authorities one after the other; each is persisted before the
  next one is looked at. \<open>r\<close> are the random draws of the three generations.\<close>

record ca_args =
  arg_ca_key :: string
  arg_ca_cert :: string
  arg_identity_key :: string
  arg_identity_cert :: string
  arg_delegation_key :: string
  arg_delegation_cert :: string

definition load_authorities ::
    "('k, 'c, 'r) x509_api \<Rightarrow> ca_faults \<Rightarrow> 'k draw \<times> 'k draw \<times> 'k draw \<Rightarrow> ca_args \<Rightarrow> ca_fs
      \<Rightarrow> ca_fs \<times> (string + ('k, 'c) Ca \<times> ('k, 'c) Ca \<times> ('k, 'c) Ca)" where
  "load_authorities X fault r a fs =
     (case load_or_generate_ca X fault fs (fst r) (arg_ca_key a) (arg_ca_cert a) KEY_AUTHORITY_ROOT_DN of
        (fs1, Inl e) \<Rightarrow> (fs1, Inl e)
      | (fs1, Inr ka) \<Rightarrow>
          (case load_or_generate_ca X fault fs1 (fst (snd r)) (arg_identity_key a) (arg_identity_cert a)
                  IDENTITY_ROOT_DN of
             (fs2, Inl e) \<Rightarrow> (fs2, Inl e)
           | (fs2, Inr idc) \<Rightarrow>
               (case load_or_generate_ca X fault fs2 (snd (snd r)) (arg_delegation_key a)
                       (arg_delegation_cert a) DELEGATION_ROOT_DN of
                  (fs3, Inl e) \<Rightarrow> (fs3, Inl e)
                | (fs3, Inr del) \<Rightarrow> (fs3, Inr (ka, idc, del)))))"

definition ca_main ::
    "('k, 'c, 'r) x509_api \<Rightarrow> ca_faults \<Rightarrow> 'k draw \<times> 'k draw \<times> 'k draw \<Rightarrow> (nat \<Rightarrow> string + 'p)
      \<Rightarrow> ('p \<Rightarrow> string + roster) \<Rightarrow> string \<Rightarrow> ca_args \<Rightarrow> ca_fs
      \<Rightarrow> ca_fs \<times> (startup_failure + ('k, 'c) identity_state)" where
  "ca_main X fault r connect migrate url a fs =
     (case fst (connect_with_retry connect url) of
        Inl e \<Rightarrow> (fs, Inl e)
      | Inr p \<Rightarrow>
          (case migrate p of
             Inl e \<Rightarrow> (fs, Inl (StartError e))
           | Inr ros \<Rightarrow>
               (case load_authorities X fault r a fs of
                  (fs', Inl e) \<Rightarrow> (fs', Inl (StartError e))
                | (fs', Inr (ka, idc, del)) \<Rightarrow>
                    (fs', Inr \<lparr>st_roster = ros, key_authority_ca = ka, identity_ca = idc,
                              delegation_ca = del\<rparr>))))"

end
