(* ===== verification/Reference_Crates.thy ===== *)
theory Reference_Crates
  imports Wire
begin

text \<open>
  Executable instances of the external crates, with the proofs that they satisfy the laws
  the development assumes of them. No operation of the model mentions them: they are what
  the witnesses plug into the parameters.

  The hex codec is the one the documentation of \<open>hex\<close> describes (lower-case output, both
  cases accepted). The digest is a stand-in with the interface and the laws of SHA-256, a
  32-byte value computed from the fed bytes, not the algorithm.
\<close>

definition ref_nibble :: "nat \<Rightarrow> char" where
  "ref_nibble n = hex_digits ! n"

definition ref_hex_encode :: "bytes \<Rightarrow> string" where
  "ref_hex_encode bs = concat (map (\<lambda>b. [ref_nibble (unat b div 16), ref_nibble (unat b mod 16)]) bs)"

definition ref_nibble_value :: "char \<Rightarrow> nat option" where
  "ref_nibble_value c =
     (let n = (of_char c :: nat) in
      if 48 \<le> n \<and> n \<le> 57 then Some (n - 48)
      else if 97 \<le> n \<and> n \<le> 102 then Some (n - 87)
      else if 65 \<le> n \<and> n \<le> 70 then Some (n - 55)
      else None)"

fun ref_hex_decode :: "string \<Rightarrow> bytes option" where
  "ref_hex_decode [] = Some []"
| "ref_hex_decode [c] = None"
| "ref_hex_decode (c # d # s) =
     (case (ref_nibble_value c, ref_nibble_value d, ref_hex_decode s) of
        (Some x, Some y, Some bs) \<Rightarrow> Some (word_of_nat (16 * x + y) # bs)
      | _ \<Rightarrow> None)"

definition ref_digest :: "bytes \<Rightarrow> bytes" where
  "ref_digest bs = take 32 (bs @ replicate 32 0)"

definition ref_hash :: "bytes hash_api" where
  "ref_hash = \<lparr>sha_new = [], sha_update = (\<lambda>s b. s @ b), sha_finalize = ref_digest,
     hex_encode = ref_hex_encode, hex_decode = ref_hex_decode\<rparr>"

lemma ref_nibble_value_nibble: "n < 16 \<Longrightarrow> ref_nibble_value (ref_nibble n) = Some n"
proof -
  have "\<forall>m \<in> set [0..<16]. ref_nibble_value (ref_nibble m) = Some m"
    by code_simp
  then show "n < 16 \<Longrightarrow> ?thesis" by simp
qed

lemma ref_nibble_digit: "n < 16 \<Longrightarrow> ref_nibble n \<in> set hex_digits"
  by (simp add: ref_nibble_def hex_digits_def nth_mem [of n hex_digits, unfolded hex_digits_def]
      del: set_simps)

lemma unat_u8_less: "unat (b :: u8) < 256"
proof -
  have "(unsigned b :: nat) < 2 ^ LENGTH(8)" by (rule unsigned_less)
  then show ?thesis by simp
qed

lemma ref_hex_decode_encode: "ref_hex_decode (ref_hex_encode bs) = Some bs"
proof (induction bs)
  case (Cons b bs)
  have "unat b div 16 < 16" and "unat b mod 16 < 16"
    using unat_u8_less [of b] by auto
  moreover have "16 * (unat b div 16) + unat b mod 16 = unat b"
    by simp
  ultimately show ?case
    using Cons by (simp add: ref_hex_encode_def ref_nibble_value_nibble)
qed (simp add: ref_hex_encode_def)

lemma ref_hex_length: "length (ref_hex_encode bs) = 2 * length bs"
  by (induction bs) (simp_all add: ref_hex_encode_def)

lemma ref_hex_chars: "set (ref_hex_encode bs) \<subseteq> set hex_digits"
proof (induction bs)
  case (Cons b bs)
  have "unat b div 16 < 16" and "unat b mod 16 < 16"
    using unat_u8_less [of b] by auto
  with Cons show ?case
    by (simp add: ref_hex_encode_def ref_nibble_digit)
qed (simp add: ref_hex_encode_def)

lemma ref_fold_update: "fold (\<lambda>c s. s @ c) cs s = s @ concat cs"
  by (induction cs arbitrary: s) auto

lemma ref_hash_ok: "hash_api_ok ref_hash"
  unfolding hash_api_ok_def ref_hash_def
  using ref_hex_chars ref_hex_decode_encode ref_hex_length
  by (auto simp: ref_fold_update ref_digest_def min_def)

text \<open>The inverse of \<open>str::as_bytes\<close>.\<close>

definition bytes_text :: "bytes \<Rightarrow> string" where
  "bytes_text b = map (\<lambda>w. char_of (unat w)) b"

lemma bytes_text_as_bytes [simp]: "bytes_text (as_bytes s) = s"
  by (simp add: bytes_text_def as_bytes_def byte_of_char_def comp_def unat_of_nat)

end
