(* ===== verification/Identity_Hash.thy ===== *)
theory Identity_Hash
  imports Releases Reference_Crates
begin

text \<open>
  The content identities of \<open>releases.rs\<close>: what the preimages of \<open>component_identity\<close>,
  \<open>vehicle_identity\<close> and \<open>tree_hash\<close> determine. SHA-256 is not injective, so the statements
  say: two identities agree exactly when the contents agree or the two preimages at hand
  are a collision of the digest.
\<close>

definition collide :: "'h hash_api \<Rightarrow> string \<Rightarrow> string \<Rightarrow> bool" where
  "collide H a b \<longleftrightarrow> a \<noteq> b \<and> ContentHash_of H (as_bytes a) = ContentHash_of H (as_bytes b)"

lemma hash_text_eq_iff:
  "hash_api_ok H \<Longrightarrow>
   to_prefixed H (ContentHash_of H (as_bytes a)) = to_prefixed H (ContentHash_of H (as_bytes b)) \<longleftrightarrow>
   a = b \<or> collide H a b"
  by (auto simp: to_prefixed_inj collide_def)

section \<open>Separated text\<close>

lemma takeWhile_sep: "c \<notin> set a \<Longrightarrow> takeWhile (\<lambda>d. d \<noteq> c) (a @ c # x) = a"
  by (induction a) auto

lemma split_at_sep:
  assumes "c \<notin> set a" and "c \<notin> set b" and "a @ c # x = b @ c # y"
  shows "a = b \<and> x = y"
proof -
  have "takeWhile (\<lambda>d. d \<noteq> c) (a @ c # x) = a" and "takeWhile (\<lambda>d. d \<noteq> c) (b @ c # y) = b"
    using assms(1,2) by (simp_all add: takeWhile_sep)
  with assms(3) show ?thesis by simp
qed

lemma join_Cons: "join sep (x # xs) = (if xs = [] then x else x @ sep @ join sep xs)"
  by (cases xs) auto

lemma join_inj:
  assumes "\<And>x. x \<in> set xs \<union> set ys \<Longrightarrow> x \<noteq> [] \<and> c \<notin> set x"
    and "join [c] xs = join [c] ys"
  shows "xs = ys"
  using assms
proof (induction xs arbitrary: ys)
  case Nil
  then show ?case by (cases ys) (auto simp: join_Cons split: if_splits)
next
  case (Cons x xs)
  then obtain y zs where ys: "ys = y # zs"
    by (cases ys) (auto simp: join_Cons split: if_splits)
  have x: "c \<notin> set x" and y: "c \<notin> set y"
    using Cons.prems(1) ys by auto
  have "x @ [c] @ join [c] xs \<noteq> y" and "y @ [c] @ join [c] zs \<noteq> x"
    using x y by auto
  with Cons.prems(2) have "x = y \<and> (xs = [] \<longleftrightarrow> zs = []) \<and> join [c] xs = join [c] zs"
    using split_at_sep [OF x y, of "join [c] xs" "join [c] zs"]
    unfolding ys join_Cons by (auto split: if_splits)
  moreover from this have "xs = zs"
    using Cons.IH [of zs] Cons.prems(1) ys by auto
  ultimately show ?case using ys by simp
qed

definition unlines :: "string list \<Rightarrow> string" where
  "unlines ls = concat (map (\<lambda>l. l @ [NL]) ls)"

lemma unlines_simps [simp]: "unlines [] = []" "unlines (l # ls) = l @ NL # unlines ls"
  "unlines (ks @ ls) = unlines ks @ unlines ls"
  by (simp_all add: unlines_def)

lemma unlines_inj:
  assumes "\<And>l. l \<in> set ks \<union> set ls \<Longrightarrow> NL \<notin> set l" and "unlines ks = unlines ls"
  shows "ks = ls"
  using assms
proof (induction ks arbitrary: ls)
  case Nil
  then show ?case by (cases ls) auto
next
  case (Cons k ks)
  then obtain l ls' where ls: "ls = l # ls'"
    by (cases ls) auto
  with Cons.prems split_at_sep [of NL k l "unlines ks" "unlines ls'"]
  have "k = l \<and> unlines ks = unlines ls'" by auto
  with Cons ls show ?case by auto
qed

section \<open>Vehicle releases\<close>

lemma distinct_remdups_adj_sorted: "sorted xs \<Longrightarrow> distinct (remdups_adj xs)"
proof (induction xs rule: remdups_adj.induct)
  case (3 x y xs)
  then have "x \<noteq> y \<Longrightarrow> x \<notin> set (y # xs)" by auto
  with 3 show ?case by auto
qed auto

lemma dedup_eq_iff: "remdups_adj (sort xs) = remdups_adj (sort ys) \<longleftrightarrow> set xs = set ys"
proof
  assume "remdups_adj (sort xs) = remdups_adj (sort ys)"
  then have "set (remdups_adj (sort xs)) = set (remdups_adj (sort ys))" by simp
  then show "set xs = set ys" by simp
next
  assume "set xs = set ys"
  then show "remdups_adj (sort xs) = remdups_adj (sort ys)"
    by (intro sorted_distinct_set_unique) (auto simp: distinct_remdups_adj_sorted sorted_remdups_adj)
qed

lemma i64_text_clean: "i64_to_string i \<noteq> [] \<and> CHR '','' \<notin> set (i64_to_string i) \<and> NL \<notin> set (i64_to_string i)"
  using i64_to_string_chars [of "CHR '',''" i] i64_to_string_chars [of NL i]
  by (auto simp: is_digit_char_def NL_def)

lemma join_i64_inj: "join '','' (map i64_to_string xs) = join '','' (map i64_to_string ys) \<longleftrightarrow> xs = ys"
proof
  assume "join '','' (map i64_to_string xs) = join '','' (map i64_to_string ys)"
  then have "map i64_to_string xs = map i64_to_string ys"
    by (rule join_inj [rotated]) (use i64_text_clean in auto)
  then show "xs = ys"
    using inj_map_eq_map [of i64_to_string] by (simp add: inj_def)
qed simp

lemma join_i64_no_NL: "NL \<notin> set (join '','' (map i64_to_string xs))"
  by (induction xs) (auto simp: join_Cons i64_text_clean, simp add: NL_def)

definition disabled_suffix :: "i64 list \<Rightarrow> string" where
  "disabled_suffix ids =
     (if ids = [] then [] else [NL] @ ''disabled:'' @ join '','' (map i64_to_string ids))"

lemma disabled_suffix_inj: "disabled_suffix xs = disabled_suffix ys \<longleftrightarrow> xs = ys"
  by (auto simp: disabled_suffix_def join_i64_inj)

lemma append_suffix_inj:
  "join '','' (map i64_to_string xs) @ disabled_suffix ds = join '','' (map i64_to_string ys) @ disabled_suffix es
   \<longleftrightarrow> xs = ys \<and> ds = es"
proof -
  have head: "takeWhile (\<lambda>d. d \<noteq> NL) (join '','' (map i64_to_string zs) @ disabled_suffix fs) =
      join '','' (map i64_to_string zs)" for zs fs
    using takeWhile_sep [OF join_i64_no_NL] join_i64_no_NL [of zs]
    by (auto simp: disabled_suffix_def takeWhile_eq_all_conv)
  show ?thesis
    using head [of xs ds] head [of ys es] by (auto simp: join_i64_inj disabled_suffix_inj dest: sym)
qed

lemma vehicle_identity_buf_eq_iff:
  "vehicle_identity_buf ms ds = vehicle_identity_buf ms' ds' \<longleftrightarrow>
   set ms = set ms' \<and> set ds \<inter> set ms = set ds' \<inter> set ms'"
proof -
  have buf: "vehicle_identity_buf xs ys = join '','' (map i64_to_string (remdups_adj (sort xs))) @
      disabled_suffix (remdups_adj (sort (filter (\<lambda>d. d \<in> set (remdups_adj (sort xs))) ys)))" for xs ys
    by (simp add: vehicle_identity_buf_def disabled_suffix_def Let_def)
  have mem: "set (filter (\<lambda>d. d \<in> set (remdups_adj (sort xs))) ys) = set ys \<inter> set xs" for xs ys :: "i64 list"
    by auto
  show ?thesis
    unfolding buf append_suffix_inj dedup_eq_iff mem ..
qed

section \<open>Component releases\<close>

text \<open>Names the separators of the preimages cannot be confused with.\<close>

definition clean_name :: "string \<Rightarrow> bool" where
  "clean_name s \<longleftrightarrow> NUL \<notin> set s \<and> NL \<notin> set s"

definition clean_part :: "NewPart \<Rightarrow> bool" where
  "clean_part p \<longleftrightarrow> clean_name (np_id p) \<and> clean_name (np_kind p)"

lemma to_prefixed_clean: "hash_api_ok H \<Longrightarrow> clean_name (to_prefixed H h)"
  using hash_api_okD(5) [of H "ch_bytes h"]
  by (auto simp: clean_name_def to_prefixed_def hex_digits_def NUL_def NL_def)

definition part_line :: "'h hash_api \<Rightarrow> NewPart \<Rightarrow> string" where
  "part_line H p = np_id p @ NUL # np_kind p @ NUL # to_prefixed H (np_content p)"

lemma part_line_inj:
  assumes "hash_api_ok H" and "clean_part p" and "clean_part q" and "part_line H p = part_line H q"
  shows "p = q"
proof -
  have "np_id p = np_id q \<and> np_kind p @ NUL # to_prefixed H (np_content p) = np_kind q @ NUL # to_prefixed H (np_content q)"
    using assms split_at_sep [of NUL "np_id p" "np_id q"]
    by (auto simp: part_line_def clean_part_def clean_name_def)
  moreover from this have "np_kind p = np_kind q \<and> to_prefixed H (np_content p) = to_prefixed H (np_content q)"
    using assms split_at_sep [of NUL "np_kind p" "np_kind q"]
    by (auto simp: clean_part_def clean_name_def)
  ultimately show ?thesis
    using assms(1) by (simp add: to_prefixed_inj)
qed

lemma component_identity_buf_unlines:
  "component_identity_buf H k ps = unlines (k # map (part_line H) (sort_key np_id ps))"
proof -
  have "(\<lambda>p. np_id p @ [NUL] @ np_kind p @ [NUL] @ to_prefixed H (np_content p) @ [NL]) =
      (\<lambda>p. part_line H p @ [NL])"
    by (simp add: part_line_def)
  then show ?thesis
    by (simp add: component_identity_buf_def unlines_def comp_def)
qed

lemma part_line_no_NL: "hash_api_ok H \<Longrightarrow> clean_part p \<Longrightarrow> NL \<notin> set (part_line H p)"
  using to_prefixed_clean [of H "np_content p"]
  by (auto simp: part_line_def clean_part_def clean_name_def, simp_all add: NL_def NUL_def)

lemma map_inj_on_eq:
  assumes "map f xs = map f ys" and "\<And>x y. x \<in> set xs \<Longrightarrow> y \<in> set ys \<Longrightarrow> f x = f y \<Longrightarrow> x = y"
  shows "xs = ys"
  using assms by (induction xs arbitrary: ys) (auto simp: Cons_eq_map_conv)

lemma component_identity_buf_eq_iff:
  assumes H: "hash_api_ok H" and "clean_name k" and "clean_name k'"
    and c: "list_all clean_part ps" and c': "list_all clean_part qs"
  shows "component_identity_buf H k ps = component_identity_buf H k' qs \<longleftrightarrow>
     k = k' \<and> sort_key np_id ps = sort_key np_id qs"
proof
  assume "component_identity_buf H k ps = component_identity_buf H k' qs"
  then have "k # map (part_line H) (sort_key np_id ps) = k' # map (part_line H) (sort_key np_id qs)"
    unfolding component_identity_buf_unlines
    by (rule unlines_inj [rotated]) (use assms in \<open>auto simp: part_line_no_NL list_all_iff clean_name_def\<close>)
  then show "k = k' \<and> sort_key np_id ps = sort_key np_id qs"
    using map_inj_on_eq [of "part_line H" "sort_key np_id ps" "sort_key np_id qs"]
      part_line_inj [OF H] c c' by (simp add: list_all_iff)
qed (simp add: component_identity_buf_def)

lemma sort_key_eq_iff:
  assumes "distinct (map f xs)" and "distinct (map f ys)"
  shows "sort_key f xs = sort_key f ys \<longleftrightarrow> set xs = set ys"
proof
  assume eq: "sort_key f xs = sort_key f ys"
  have "set (sort_key f xs) = set (sort_key f ys)" unfolding eq ..
  then show "set xs = set ys" by simp
next
  assume eq: "set xs = set ys"
  have "distinct (map f (sort_key f zs))" if "distinct (map f zs)" for zs
    using that by (simp add: distinct_map)
  moreover have "inj_on f (set xs \<union> set ys)"
    using assms eq by (simp add: distinct_map)
  ultimately show "sort_key f xs = sort_key f ys"
    using assms eq by (intro map_sorted_distinct_set_unique [of f]) auto
qed

section \<open>Resolved trees\<close>

text \<open>What \<open>tree_hash\<close> can see of a tree.\<close>

definition tree_view :: "Tree \<Rightarrow> (string \<times> bool \<times> (string \<times> ContentHash) list) list" where
  "tree_view t =
     map (\<lambda>(path, e). (path, e_disabled e, map (\<lambda>p. (p_id p, p_content p)) (sort_key p_id (e_parts e))))
       (entities t)"

definition clean_entity :: "string \<times> Entity \<Rightarrow> bool" where
  "clean_entity pe \<longleftrightarrow> clean_name (fst pe) \<and> fst pe \<noteq> ''disabled'' \<and>
     list_all (\<lambda>p. clean_name (p_id p)) (e_parts (snd pe))"

definition clean_tree :: "Tree \<Rightarrow> bool" where
  "clean_tree t \<longleftrightarrow> list_all clean_entity (entities t)"

definition slot_line :: "'h hash_api \<Rightarrow> string \<times> ContentHash \<Rightarrow> string" where
  "slot_line H s = fst s @ NUL # to_prefixed H (snd s)"

fun entity_lines :: "'h hash_api \<Rightarrow> string \<times> bool \<times> (string \<times> ContentHash) list \<Rightarrow> string list" where
  "entity_lines H (path, dis, slots) =
     path # (if dis then [''disabled''] else []) @ map (slot_line H) slots"

lemma tree_hash_buf_unlines:
  "tree_hash_buf H t = unlines (concat (map (entity_lines H) (tree_view t)))"
proof -
  have "tree_entity_buf H = (\<lambda>pe. unlines (entity_lines H (fst pe, e_disabled (snd pe),
      map (\<lambda>p. (p_id p, p_content p)) (sort_key p_id (e_parts (snd pe))))))"
  proof -
    have "tree_part_line H = (\<lambda>p. slot_line H (p_id p, p_content p) @ [NL])"
      by (simp add: fun_eq_iff tree_part_line_def slot_line_def)
    then show ?thesis
      by (intro ext) (simp add: tree_entity_buf_def unlines_def comp_def)
  qed
  moreover have "unlines (concat ls) = concat (map unlines ls)" for ls
    by (induction ls) simp_all
  ultimately show ?thesis
    by (simp add: tree_hash_buf_def tree_view_def comp_def case_prod_unfold del: entity_lines.simps)
qed

fun clean_view :: "string \<times> bool \<times> (string \<times> ContentHash) list \<Rightarrow> bool" where
  "clean_view (path, dis, slots) \<longleftrightarrow> clean_name path \<and> path \<noteq> ''disabled'' \<and> list_all (clean_name \<circ> fst) slots"

lemma clean_tree_view: "clean_tree t \<Longrightarrow> list_all clean_view (tree_view t)"
  by (auto simp: clean_tree_def tree_view_def clean_entity_def list_all_iff)

lemma slot_line_inj:
  assumes "hash_api_ok H" and "clean_name (fst s)" and "clean_name (fst r)" and "slot_line H s = slot_line H r"
  shows "s = r"
  using assms split_at_sep [of NUL "fst s" "fst r" "to_prefixed H (snd s)" "to_prefixed H (snd r)"]
  by (auto simp: slot_line_def clean_name_def to_prefixed_inj prod_eq_iff)

text \<open>Slot lines contain a NUL, path lines and the flag do not: the lines of an entity end
  where the next line has none.\<close>

lemma split_slots:
  assumes H: "hash_api_ok H"
    and clean: "list_all (clean_name \<circ> fst) xs" "list_all (clean_name \<circ> fst) ys"
    and ends: "ks = [] \<or> NUL \<notin> set (hd ks)" "ls = [] \<or> NUL \<notin> set (hd ls)"
    and eq: "map (slot_line H) xs @ ks = map (slot_line H) ys @ ls"
  shows "xs = ys \<and> ks = ls"
proof -
  let ?T = "takeWhile (\<lambda>l. NUL \<in> set l)"
  have pre: "?T (map (slot_line H) zs @ ms) = map (slot_line H) zs"
    if "ms = [] \<or> NUL \<notin> set (hd ms)" for zs ms
    using that by (induction zs) (cases ms, auto simp: slot_line_def)
  have "map (slot_line H) xs = map (slot_line H) ys"
    using arg_cong [OF eq, of ?T] pre ends by simp
  moreover from this have "ks = ls"
    using eq by simp
  ultimately show ?thesis
    using map_inj_on_eq [of "slot_line H" xs ys] slot_line_inj [OF H] clean by (auto simp: list_all_iff)
qed

lemma entity_lines_hd:
  "list_all clean_view vs \<Longrightarrow>
   concat (map (entity_lines H) vs) = [] \<or>
   NUL \<notin> set (hd (concat (map (entity_lines H) vs))) \<and> hd (concat (map (entity_lines H) vs)) \<noteq> ''disabled''"
  by (cases vs) (auto simp: clean_name_def)

lemma flag_inj:
  assumes "(if d then [a] else []) @ xs = (if d' then [a] else []) @ ys"
    and "xs \<noteq> [] \<Longrightarrow> hd xs \<noteq> a" and "ys \<noteq> [] \<Longrightarrow> hd ys \<noteq> a"
  shows "d = d' \<and> xs = ys"
  using assms by (cases d; cases d') auto

lemma entity_lines_inj:
  assumes H: "hash_api_ok H"
  shows "list_all clean_view vs \<Longrightarrow> list_all clean_view ws \<Longrightarrow>
    concat (map (entity_lines H) vs) = concat (map (entity_lines H) ws) \<Longrightarrow> vs = ws"
proof (induction vs arbitrary: ws)
  case Nil
  then show ?case by (cases ws) auto
next
  case (Cons v vs)
  then obtain w ws' where ws: "ws = w # ws'"
    by (cases ws) (cases v, auto)
  obtain path dis slots where v: "v = (path, dis, slots)" by (cases v)
  obtain path' dis' slots' where w: "w = (path', dis', slots')" by (cases w)
  let ?L = "\<lambda>us. concat (map (entity_lines H) us)"
  have eq: "path = path'" "(if dis then [''disabled''] else []) @ map (slot_line H) slots @ ?L vs =
      (if dis' then [''disabled''] else []) @ map (slot_line H) slots' @ ?L ws'"
    using Cons.prems(3) by (simp_all add: ws v w)
  have nd: "hd (map (slot_line H) ss @ ?L us) \<noteq> ''disabled''"
    if "list_all clean_view us" and "map (slot_line H) ss @ ?L us \<noteq> []" for ss us
  proof (cases ss)
    case Nil
    with that(2) have "?L us \<noteq> []" by simp
    with entity_lines_hd [OF that(1), of H] have "hd (?L us) \<noteq> ''disabled''" by blast
    with Nil show ?thesis by simp
  next
    case (Cons a ss')
    have "NUL \<in> set (slot_line H a)" and "NUL \<notin> set ''disabled''"
      by (simp_all add: slot_line_def NUL_def)
    with Cons show ?thesis by fastforce
  qed
  have vw: "list_all clean_view vs" "list_all clean_view ws'"
    using Cons.prems by (simp_all add: ws)
  have "dis = dis' \<and> map (slot_line H) slots @ ?L vs = map (slot_line H) slots' @ ?L ws'"
    by (rule flag_inj [OF eq(2)]) (use nd vw in blast)+
  then have dis: "dis = dis'" and "map (slot_line H) slots @ ?L vs = map (slot_line H) slots' @ ?L ws'"
    by simp_all
  then have "slots = slots' \<and> ?L vs = ?L ws'"
    using Cons.prems entity_lines_hd [OF vw(1), of H] entity_lines_hd [OF vw(2), of H]
    by (intro split_slots [OF H]) (auto simp: v w ws)
  with Cons.IH [OF vw] eq dis show ?case by (simp add: v w ws)
qed

lemma entity_lines_no_NL:
  assumes "hash_api_ok H" and "clean_view v" and "l \<in> set (entity_lines H v)"
  shows "NL \<notin> set l"
proof (cases v)
  case (fields path dis slots)
  have "NL \<noteq> NUL" "NL \<notin> set ''disabled''" by (simp_all add: NL_def NUL_def)
  with fields assms to_prefixed_clean [OF assms(1)] show ?thesis
    by (auto simp: slot_line_def clean_name_def list_all_iff split: if_splits)
qed

lemma tree_hash_buf_eq_iff:
  assumes H: "hash_api_ok H" and "clean_tree t" and "clean_tree u"
  shows "tree_hash_buf H t = tree_hash_buf H u \<longleftrightarrow> tree_view t = tree_view u"
proof
  note views = assms(2,3) [THEN clean_tree_view]
  assume "tree_hash_buf H t = tree_hash_buf H u"
  then have "concat (map (entity_lines H) (tree_view t)) = concat (map (entity_lines H) (tree_view u))"
    unfolding tree_hash_buf_unlines
    by (rule unlines_inj [rotated]) (use entity_lines_no_NL [OF H] views in \<open>auto simp: list_all_iff\<close>)
  with entity_lines_inj [OF H views] show "tree_view t = tree_view u" by simp
qed (simp add: tree_hash_buf_unlines)

section \<open>Properties\<close>

text \<open>The identity of a vehicle release is the identity of its content: two member lists get
  the same one exactly when they name the same set of component releases and disable the
  same of them (a disabled id that is no member has no effect), unless the two preimages
  collide under the digest.\<close>

theorem vehicle_identity_exact:
  assumes "hash_api_ok H"
  shows "vehicle_identity H ms ds = vehicle_identity H ms' ds' \<longleftrightarrow>
     set ms = set ms' \<and> set ds \<inter> set ms = set ds' \<inter> set ms' \<or>
     collide H (vehicle_identity_buf ms ds) (vehicle_identity_buf ms' ds')"
  unfolding vehicle_identity_def hash_text_eq_iff [OF assms] vehicle_identity_buf_eq_iff ..

theorem vehicle_identity_exact_witness:
  "vehicle_identity ref_hash [2, 1, 2] [1, 9] = vehicle_identity ref_hash [1, 2] [1] \<and>
   vehicle_identity ref_hash [1, 2] [] \<noteq> vehicle_identity ref_hash [1, 2] [2]"
proof -
  have "\<not> collide ref_hash (vehicle_identity_buf [1, 2] []) (vehicle_identity_buf [1, 2] [2])"
    by code_simp
  then show ?thesis
    using vehicle_identity_exact [OF ref_hash_ok, of "[2, 1, 2]" "[1, 9]" "[1, 2]" "[1]"]
      vehicle_identity_exact [OF ref_hash_ok, of "[1, 2]" "[]" "[1, 2]" "[2]"]
    by auto
qed

text \<open>The identity of a component release: for names free of the separators NUL and newline and
  parts with distinct ids, two releases get the same identity exactly when they have the same
  kind and the same set of parts (their order does not matter), unless the preimages collide.\<close>

theorem component_identity_exact:
  assumes "hash_api_ok H" and "clean_name k" and "clean_name k'"
    and "list_all clean_part ps" and "list_all clean_part qs"
    and "distinct (map np_id ps)" and "distinct (map np_id qs)"
  shows "component_identity H k ps = component_identity H k' qs \<longleftrightarrow>
     k = k' \<and> set ps = set qs \<or>
     collide H (component_identity_buf H k ps) (component_identity_buf H k' qs)"
  unfolding component_identity_def hash_text_eq_iff [OF assms(1)]
    component_identity_buf_eq_iff [OF assms(1-5)] sort_key_eq_iff [OF assms(6,7)] ..

theorem component_identity_exact_witness:
  "component_identity ref_hash ''vm''
     [\<lparr>np_id = ''rootfs'', np_kind = ''image'', np_content = ContentHash (replicate 32 1)\<rparr>,
      \<lparr>np_id = ''kernel'', np_kind = ''image'', np_content = ContentHash (replicate 32 2)\<rparr>] =
   component_identity ref_hash ''vm''
     [\<lparr>np_id = ''kernel'', np_kind = ''image'', np_content = ContentHash (replicate 32 2)\<rparr>,
      \<lparr>np_id = ''rootfs'', np_kind = ''image'', np_content = ContentHash (replicate 32 1)\<rparr>]"
  by (subst component_identity_exact [OF ref_hash_ok])
    (simp_all add: clean_name_def clean_part_def NUL_def NL_def, auto)

text \<open>Without that proviso the identity does not determine the content: a part whose id is
  built from separators is taken for a list of other parts.\<close>

theorem component_identity_separator_clash:
  "\<exists>ps qs. set ps \<noteq> set qs \<and> distinct (map np_id ps) \<and> distinct (map np_id qs) \<and>
     component_identity H ''vm'' ps = component_identity H ''vm'' qs"
proof -
  let ?h = "ContentHash (replicate 32 1)"
  let ?p = "\<lparr>np_id = ''a'', np_kind = ''k'', np_content = ?h\<rparr>"
  let ?q = "\<lparr>np_id = ''b'', np_kind = ''k'', np_content = ?h\<rparr>"
  let ?r = "\<lparr>np_id = ''a'' @ NUL # ''k'' @ NUL # to_prefixed H ?h @ NL # ''b'', np_kind = ''k'', np_content = ?h\<rparr>"
  have "sort_key np_id [?p, ?q] = [?p, ?q]"
    by simp
  then have "component_identity H ''vm'' [?p, ?q] = component_identity H ''vm'' [?r]"
    by (simp add: component_identity_def component_identity_buf_def)
  then show ?thesis
    by (intro exI [of _ "[?p, ?q]"] exI [of _ "[?r]"]) auto
qed

text \<open>C38. The tree hash that binds a plan to its execution: for trees whose names are free of the
  separators and that have no entity called \<open>disabled\<close>, it determines the entity paths, which
  of them are disabled, and for each the part ids with their contents, and nothing else,
  unless the preimages collide.\<close>

theorem tree_hash_exact:
  assumes "hash_api_ok H" and "clean_tree t" and "clean_tree u"
  shows "tree_hash H t = tree_hash H u \<longleftrightarrow>
     tree_view t = tree_view u \<or> collide H (tree_hash_buf H t) (tree_hash_buf H u)"
  unfolding tree_hash_def hash_text_eq_iff [OF assms(1)] tree_hash_buf_eq_iff [OF assms] ..

theorem tree_hash_exact_witness:
  "tree_hash ref_hash \<lparr>entities = [(''vm1'', Entity_default)]\<rparr> =
   tree_hash ref_hash \<lparr>entities = [(''vm1'', Entity_default\<lparr>e_kind := ''vm'', e_version := Some ''7''\<rparr>)]\<rparr>"
  by (subst tree_hash_exact [OF ref_hash_ok])
    (simp_all add: clean_tree_def clean_entity_def clean_name_def NUL_def NL_def Entity_default_def tree_view_def)

text \<open>An entity called \<open>disabled\<close> breaks the binding: a disabled component without parts and
  two enabled ones without parts have the same tree hash.\<close>

theorem tree_hash_disabled_clash:
  "tree_hash H \<lparr>entities = [(''a'', Entity_default\<lparr>e_disabled := True\<rparr>)]\<rparr> =
   tree_hash H \<lparr>entities = [(''a'', Entity_default), (''disabled'', Entity_default)]\<rparr>"
  by (simp add: tree_hash_def tree_hash_buf_def tree_entity_buf_def Entity_default_def)

end
