(* ===== verification/Release_Props.thy ===== *)
theory Release_Props
  imports Identity_Hash
begin

text \<open>
  The release tables as a state machine: every handler that writes is a step, the integrity
  constraints of the schema are an invariant, and a release that exists is never changed
  by a later step, so that a tree hash handed out stays valid.
\<close>

section \<open>Integrity of the tables\<close>

definition part_key :: "part_row \<Rightarrow> i64 \<times> string" where
  "part_key r = (pr_release_id r, pr_part_id r)"

definition member_key :: "member_row \<Rightarrow> i64 \<times> i64" where
  "member_key r = (mr_vehicle_release_id r, mr_component_release_id r)"

definition channel_key :: "channel_row \<Rightarrow> string \<times> string \<times> string" where
  "channel_key r = (ct_channel r, ct_device r, ct_architecture r)"

definition component_ident :: "component_row \<Rightarrow> string \<times> string option" where
  "component_ident r = (cr_entity_path r, cr_identity_hash r)"

definition vehicle_ident :: "vehicle_row \<Rightarrow> string \<times> string option" where
  "vehicle_ident r = (vr_tag r, vr_identity_hash r)"

definition components_wf :: "database \<Rightarrow> bool" where
  "components_wf d \<longleftrightarrow> distinct (map cr_id (db_components d)) \<and>
     (\<forall>r \<in> set (db_components d). cr_id r < db_component_seq d \<and> cr_identity_hash r \<noteq> None) \<and>
     distinct (map component_ident (db_components d))"

definition vehicles_wf :: "database \<Rightarrow> bool" where
  "vehicles_wf d \<longleftrightarrow> distinct (map vr_id (db_vehicles d)) \<and>
     (\<forall>r \<in> set (db_vehicles d). vr_id r < db_vehicle_seq d \<and> vr_identity_hash r \<noteq> None) \<and>
     distinct (map vehicle_ident (db_vehicles d))"

definition parts_wf :: "database \<Rightarrow> bool" where
  "parts_wf d \<longleftrightarrow> distinct (map part_key (db_parts d)) \<and>
     pr_release_id ` set (db_parts d) \<subseteq> cr_id ` set (db_components d)"

definition members_wf :: "database \<Rightarrow> bool" where
  "members_wf d \<longleftrightarrow> distinct (map member_key (db_members d)) \<and>
     mr_vehicle_release_id ` set (db_members d) \<subseteq> vr_id ` set (db_vehicles d) \<and>
     mr_component_release_id ` set (db_members d) \<subseteq> cr_id ` set (db_components d)"

definition targets_wf :: "database \<Rightarrow> bool" where
  "targets_wf d \<longleftrightarrow> distinct (db_targets d) \<and>
     tr_vehicle_release_id ` set (db_targets d) \<subseteq> vr_id ` set (db_vehicles d)"

definition channels_wf :: "database \<Rightarrow> bool" where
  "channels_wf d \<longleftrightarrow> distinct (map channel_key (db_channels d)) \<and>
     ct_vehicle_release_id ` set (db_channels d) \<subseteq> vr_id ` set (db_vehicles d)"

definition db_wf :: "database \<Rightarrow> bool" where
  "db_wf d \<longleftrightarrow> components_wf d \<and> vehicles_wf d \<and> parts_wf d \<and> members_wf d \<and> targets_wf d \<and> channels_wf d"

lemmas table_wf_defs = components_wf_def vehicles_wf_def parts_wf_def members_wf_def targets_wf_def
  channels_wf_def

lemma db_wf_component_ids: "db_wf d \<Longrightarrow> db_component_seq d \<notin> cr_id ` set (db_components d)"
  by (auto simp: db_wf_def components_wf_def)

lemma db_wf_vehicle_ids: "db_wf d \<Longrightarrow> db_vehicle_seq d \<notin> vr_id ` set (db_vehicles d)"
  by (auto simp: db_wf_def vehicles_wf_def)

lemma db_wf_part_ids:
  assumes "db_wf d" and "p \<in> set (db_parts d)"
  shows "pr_release_id p \<noteq> db_component_seq d"
proof -
  have "pr_release_id ` set (db_parts d) \<subseteq> cr_id ` set (db_components d)"
    using assms(1) by (simp add: db_wf_def parts_wf_def)
  with db_wf_component_ids [OF assms(1)] assms(2) show ?thesis by (metis imageI subsetD)
qed

lemma db_wf_member_ids:
  assumes "db_wf d" and "m \<in> set (db_members d)"
  shows "mr_vehicle_release_id m \<noteq> db_vehicle_seq d"
proof -
  have "mr_vehicle_release_id ` set (db_members d) \<subseteq> vr_id ` set (db_vehicles d)"
    using assms(1) by (simp add: db_wf_def members_wf_def)
  with db_wf_vehicle_ids [OF assms(1)] assms(2) show ?thesis by (metis imageI subsetD)
qed

section \<open>The statements\<close>

lemma insert_component_wf:
  assumes wf: "db_wf d" and i: "insert_component d path kind ver ident = (d', r)"
  shows "db_wf d'"
proof -
  have fresh: "db_component_seq d \<notin> cr_id ` set (db_components d)"
    by (rule db_wf_component_ids [OF wf])
  show ?thesis
  proof (cases r)
    case (Inl e)
    with i have "d' = d\<lparr>db_component_seq := db_component_seq d + 1\<rparr>"
      by (auto simp: insert_component_def Let_def split: if_splits)
    with wf show ?thesis
      by (force simp: db_wf_def table_wf_defs)
  next
    case (Inr row)
    with i have d': "d' = d\<lparr>db_component_seq := db_component_seq d + 1, db_components := db_components d @ [row]\<rparr>"
      and row: "cr_id row = db_component_seq d" "cr_identity_hash row = Some ident" "cr_entity_path row = path"
      and new: "\<not> (\<exists>r \<in> set (db_components d). cr_entity_path r = path \<and> cr_identity_hash r = Some ident)"
      by (auto simp: insert_component_def Let_def split: if_splits)
    have "component_ident row \<notin> component_ident ` set (db_components d)"
      using new row by (auto simp: component_ident_def)
    with wf fresh have "components_wf d'"
      unfolding db_wf_def components_wf_def d' by (force simp: row)
    moreover have "vehicles_wf d'" "parts_wf d'" "members_wf d'" "targets_wf d'" "channels_wf d'"
      using wf unfolding db_wf_def by (auto simp: d' table_wf_defs)
    ultimately show ?thesis by (simp add: db_wf_def)
  qed
qed

lemma insert_vehicle_wf:
  assumes wf: "db_wf d" and i: "insert_vehicle d tag ver ident snap = (d', r)"
  shows "db_wf d'"
proof -
  have fresh: "db_vehicle_seq d \<notin> vr_id ` set (db_vehicles d)"
    by (rule db_wf_vehicle_ids [OF wf])
  show ?thesis
  proof (cases r)
    case (Inl e)
    with i have "d' = d\<lparr>db_vehicle_seq := db_vehicle_seq d + 1\<rparr>"
      by (auto simp: insert_vehicle_def Let_def split: if_splits)
    with wf show ?thesis
      by (force simp: db_wf_def table_wf_defs)
  next
    case (Inr row)
    with i have d': "d' = d\<lparr>db_vehicle_seq := db_vehicle_seq d + 1, db_vehicles := db_vehicles d @ [row]\<rparr>"
      and row: "vr_id row = db_vehicle_seq d" "vr_identity_hash row = Some ident" "vr_tag row = tag"
      and new: "\<not> (\<exists>r \<in> set (db_vehicles d). vr_tag r = tag \<and> vr_identity_hash r = Some ident)"
      by (auto simp: insert_vehicle_def Let_def split: if_splits)
    have "vehicle_ident row \<notin> vehicle_ident ` set (db_vehicles d)"
      using new row by (auto simp: vehicle_ident_def)
    with wf fresh have "vehicles_wf d'"
      unfolding db_wf_def vehicles_wf_def d' by (force simp: row)
    moreover have "components_wf d'" "parts_wf d'" "members_wf d'" "targets_wf d'" "channels_wf d'"
      using wf unfolding db_wf_def by (auto simp: d' table_wf_defs)
    ultimately show ?thesis by (simp add: db_wf_def)
  qed
qed

lemma insert_part_cases:
  assumes "insert_part d row = (d', r)"
  shows "(r = Inr () \<and> d' = d\<lparr>db_parts := db_parts d @ [row]\<rparr> \<and>
      pr_release_id row \<in> cr_id ` set (db_components d) \<and> part_key row \<notin> part_key ` set (db_parts d)) \<or>
    ((\<exists>e. r = Inl e) \<and> d' = d)"
  using assms by (auto simp: insert_part_def part_key_def split: if_splits)

lemma insert_member_cases:
  assumes "insert_member d row = (d', r)"
  shows "(r = Inr () \<and> d' = d\<lparr>db_members := db_members d @ [row]\<rparr> \<and>
      mr_vehicle_release_id row \<in> vr_id ` set (db_vehicles d) \<and>
      mr_component_release_id row \<in> cr_id ` set (db_components d) \<and>
      member_key row \<notin> member_key ` set (db_members d)) \<or>
    ((\<exists>e. r = Inl e) \<and> d' = d)"
  using assms by (auto simp: insert_member_def member_key_def split: if_splits)

lemma insert_part_wf:
  assumes "db_wf d" and "insert_part d row = (d', r)"
  shows "db_wf d'"
  using insert_part_cases [OF assms(2)] assms(1) by (elim disjE conjE) (simp_all add: db_wf_def table_wf_defs)

lemma insert_member_wf:
  assumes "db_wf d" and "insert_member d row = (d', r)"
  shows "db_wf d'"
  using insert_member_cases [OF assms(2)] assms(1) by (elim disjE conjE) (simp_all add: db_wf_def table_wf_defs)

lemma insert_all_invariant:
  assumes step: "\<And>d row d' r. row \<in> set rows \<Longrightarrow> P d \<Longrightarrow> ins d row = (d', r) \<Longrightarrow> P d'"
    and "P d" and "insert_all ins rows d = (d', r)"
  shows "P d'"
  using assms
proof (induction rows arbitrary: d)
  case (Cons row rows)
  obtain d1 q where i: "ins d row = (d1, q)"
    by (cases "ins d row")
  with Cons.prems(1) [of row d] Cons.prems(2) have d1: "P d1" by simp
  show ?case
  proof (cases q)
    case (Inl e)
    with i d1 Cons.prems(3) show ?thesis by simp
  next
    case (Inr u)
    with i Cons.prems(3) have "insert_all ins rows d1 = (d', r)" by simp
    then show ?thesis
      using Cons.IH [OF _ d1] Cons.prems(1) by (metis list.set_intros(2))
  qed
qed simp

section \<open>The handlers as steps\<close>

inductive release_step :: "'h hash_api \<Rightarrow> database \<Rightarrow> database \<Rightarrow> bool" for H where
  component: "create_component_release H d req = (d', r) \<Longrightarrow> release_step H d d'"
| vehicle: "create_vehicle_release H d vreq = (d', r) \<Longrightarrow> release_step H d d'"
| channel: "set_channel_target H d creq = (d', r') \<Longrightarrow> release_step H d d'"
| tick: "db_now d \<le> t \<Longrightarrow> release_step H d (d\<lparr>db_now := t\<rparr>)"

text \<open>\<open>extends d d'\<close>: rows were only added, and none of them belongs to a release of \<open>d\<close>.\<close>

definition extends :: "database \<Rightarrow> database \<Rightarrow> bool" where
  "extends d d' \<longleftrightarrow>
     (\<exists>cs. db_components d' = db_components d @ cs) \<and>
     (\<exists>ps. db_parts d' = db_parts d @ ps \<and> (\<forall>p \<in> set ps. pr_release_id p \<notin> cr_id ` set (db_components d))) \<and>
     (\<exists>ms. db_members d' = db_members d @ ms \<and>
        (\<forall>m \<in> set ms. mr_vehicle_release_id m \<notin> vr_id ` set (db_vehicles d))) \<and>
     vr_id ` set (db_vehicles d) \<subseteq> vr_id ` set (db_vehicles d') \<and>
     set (db_targets d) \<subseteq> set (db_targets d')"

lemma extends_refl [simp]: "extends d d"
  by (simp add: extends_def)

lemma extendsE:
  assumes "extends d d'"
  obtains cs ps ms where "db_components d' = db_components d @ cs" and "db_parts d' = db_parts d @ ps"
    and "db_members d' = db_members d @ ms"
    and "\<forall>p \<in> set ps. pr_release_id p \<notin> cr_id ` set (db_components d)"
    and "\<forall>m \<in> set ms. mr_vehicle_release_id m \<notin> vr_id ` set (db_vehicles d)"
    and "vr_id ` set (db_vehicles d) \<subseteq> vr_id ` set (db_vehicles d')"
    and "set (db_targets d) \<subseteq> set (db_targets d')"
  using assms unfolding extends_def by (elim conjE exE) (rule that; assumption)

lemma extends_trans:
  assumes ab: "extends a b" and bc: "extends b c"
  shows "extends a c"
proof -
  obtain cs ps ms where b: "db_components b = db_components a @ cs" "db_parts b = db_parts a @ ps"
      "db_members b = db_members a @ ms" "\<forall>p \<in> set ps. pr_release_id p \<notin> cr_id ` set (db_components a)"
      "\<forall>m \<in> set ms. mr_vehicle_release_id m \<notin> vr_id ` set (db_vehicles a)"
      "vr_id ` set (db_vehicles a) \<subseteq> vr_id ` set (db_vehicles b)" "set (db_targets a) \<subseteq> set (db_targets b)"
    by (rule extendsE [OF ab])
  obtain cs' ps' ms' where c: "db_components c = db_components b @ cs'" "db_parts c = db_parts b @ ps'"
      "db_members c = db_members b @ ms'" "\<forall>p \<in> set ps'. pr_release_id p \<notin> cr_id ` set (db_components b)"
      "\<forall>m \<in> set ms'. mr_vehicle_release_id m \<notin> vr_id ` set (db_vehicles b)"
      "vr_id ` set (db_vehicles b) \<subseteq> vr_id ` set (db_vehicles c)" "set (db_targets b) \<subseteq> set (db_targets c)"
    by (rule extendsE [OF bc])
  have "cr_id ` set (db_components a) \<subseteq> cr_id ` set (db_components b)"
    by (auto simp: b(1))
  with b(4) c(4) have "\<forall>p \<in> set (ps @ ps'). pr_release_id p \<notin> cr_id ` set (db_components a)"
    unfolding set_append by blast
  moreover have "\<forall>m \<in> set (ms @ ms'). mr_vehicle_release_id m \<notin> vr_id ` set (db_vehicles a)"
    using b(5,6) c(5) unfolding set_append by blast
  ultimately show ?thesis
    unfolding extends_def b(1-3) c(1-3) append_assoc
    using subset_trans [OF b(6) c(6)] subset_trans [OF b(7) c(7)] by blast
qed

lemma extends_add_part:
  "extends d d1 \<Longrightarrow> pr_release_id row \<notin> cr_id ` set (db_components d) \<Longrightarrow>
   extends d (d1\<lparr>db_parts := db_parts d1 @ [row]\<rparr>)"
  unfolding extends_def by auto

lemma extends_add_member:
  "extends d d1 \<Longrightarrow> mr_vehicle_release_id row \<notin> vr_id ` set (db_vehicles d) \<Longrightarrow>
   extends d (d1\<lparr>db_members := db_members d1 @ [row]\<rparr>)"
  unfolding extends_def by auto

lemma insert_component_extends:
  "insert_component d path kind ver ident = (d', r) \<Longrightarrow> extends d d'"
  by (auto simp: insert_component_def extends_def Let_def split: if_splits)

lemma insert_vehicle_extends:
  "insert_vehicle d tag ver ident snap = (d', r) \<Longrightarrow> extends d d'"
  by (auto simp: insert_vehicle_def extends_def Let_def split: if_splits)

lemma insert_parts_extends:
  assumes "insert_all insert_part rows d1 = (d', r)" and "extends d d1"
    and "\<And>row. row \<in> set rows \<Longrightarrow> pr_release_id row \<notin> cr_id ` set (db_components d)"
  shows "extends d d'"
  by (rule insert_all_invariant [where P = "extends d", OF _ assms(2,1)])
    (use assms(3) in \<open>auto dest!: insert_part_cases intro: extends_add_part\<close>)

lemma insert_members_extends:
  assumes "insert_all insert_member rows d1 = (d', r)" and "extends d d1"
    and "\<And>row. row \<in> set rows \<Longrightarrow> mr_vehicle_release_id row \<notin> vr_id ` set (db_vehicles d)"
  shows "extends d d'"
  by (rule insert_all_invariant [where P = "extends d", OF _ assms(2,1)])
    (use assms(3) in \<open>auto dest!: insert_member_cases intro: extends_add_member\<close>)

lemma create_component_step:
  assumes wf: "db_wf d" and c: "create_component_release H d req = (d', r)"
  shows "db_wf d' \<and> extends d d'"
proof -
  let ?ident = "component_identity H (ncr_entity_kind req) (ncr_parts req)"
  obtain d1 q where i: "insert_component d (ncr_entity_path req) (ncr_entity_kind req) (ncr_version req) ?ident = (d1, q)"
    by (metis surj_pair)
  have d1: "db_wf d1" "extends d d1"
    using insert_component_wf [OF wf i] insert_component_extends [OF i] by simp_all
  have row: "cr_id row = db_component_seq d" if "q = Inr row" for row
    using i that by (auto simp: insert_component_def Let_def split: if_splits)
  let ?rows = "\<lambda>row. map (\<lambda>p. \<lparr>pr_release_id = cr_id row, pr_part_id = np_id p, pr_part_kind = np_kind p,
      pr_content_hash = to_prefixed H (np_content p)\<rparr>) (ncr_parts req)"
  have "db_wf d2 \<and> extends d d2" if "q = Inr row" "insert_all insert_part (?rows row) d1 = (d2, u)" for row d2 u
  proof
    show "db_wf d2"
      by (rule insert_all_invariant [where P = db_wf, OF insert_part_wf d1(1) that(2)])
    show "extends d d2"
      by (rule insert_parts_extends [OF that(2) d1(2)])
        (use db_wf_component_ids [OF wf] row [OF that(1)] in auto)
  qed
  with c wf d1 show ?thesis
    unfolding create_component_release_def Let_def i
    by (auto split: option.splits sum.splits prod.splits)
qed

lemma set_snapshot_keeps [simp]:
  "vr_id (set_snapshot i s r) = vr_id r" "vehicle_ident (set_snapshot i s r) = vehicle_ident r"
  "vr_identity_hash (set_snapshot i s r) = vr_identity_hash r"
  by (simp_all add: set_snapshot_def vehicle_ident_def)

lemma set_snapshot_step:
  assumes "db_wf d"
  shows "db_wf (d\<lparr>db_vehicles := map (set_snapshot i s) (db_vehicles d)\<rparr>) \<and>
     extends d (d\<lparr>db_vehicles := map (set_snapshot i s) (db_vehicles d)\<rparr>)"
proof -
  have eqs: "vr_id \<circ> set_snapshot i s = vr_id" "vehicle_ident \<circ> set_snapshot i s = vehicle_ident"
    by (simp_all add: fun_eq_iff)
  from assms show ?thesis
    unfolding db_wf_def table_wf_defs extends_def by (simp add: eqs image_image)
qed

lemma create_vehicle_step:
  assumes wf: "db_wf d" and c: "create_vehicle_release H d req = (d', r)"
  shows "db_wf d' \<and> extends d d'"
proof -
  let ?ident = "vehicle_identity H (nvr_members req) (nvr_disabled_members req)"
  obtain d1 q where i: "insert_vehicle d (nvr_tag req) (nvr_version req) ?ident (nvr_config_snapshot req) = (d1, q)"
    by (metis surj_pair)
  have d1: "db_wf d1" "extends d d1"
    using insert_vehicle_wf [OF wf i] insert_vehicle_extends [OF i] by simp_all
  have row: "vr_id row = db_vehicle_seq d" if "q = Inr row" for row
    using i that by (auto simp: insert_vehicle_def Let_def split: if_splits)
  let ?rows = "\<lambda>row. map (\<lambda>m. \<lparr>mr_vehicle_release_id = vr_id row, mr_component_release_id = m,
      mr_disabled = (m \<in> set (nvr_disabled_members req))\<rparr>) (nvr_members req)"
  have "db_wf d2 \<and> extends d d2" if "q = Inr row" "insert_all insert_member (?rows row) d1 = (d2, u)" for row d2 u
  proof
    show "db_wf d2"
      by (rule insert_all_invariant [where P = db_wf, OF insert_member_wf d1(1) that(2)])
    show "extends d d2"
      by (rule insert_members_extends [OF that(2) d1(2)])
        (use db_wf_vehicle_ids [OF wf] row [OF that(1)] in auto)
  qed
  with c wf d1 set_snapshot_step [OF wf] show ?thesis
    unfolding create_vehicle_release_def Let_def i
    by (auto split: option.splits sum.splits prod.splits if_splits)
qed

lemma insert_target_step:
  assumes "db_wf d" and "insert_target d row = Inr d'"
  shows "db_wf d' \<and> extends d d'"
proof -
  from assms(2) consider "d' = d"
    | "d' = d\<lparr>db_targets := db_targets d @ [row]\<rparr>" "row \<notin> set (db_targets d)"
      "tr_vehicle_release_id row \<in> vr_id ` set (db_vehicles d)"
    by (simp add: insert_target_def split: if_splits)
  then show ?thesis
  proof cases
    case 2
    with assms(1) show ?thesis
      by (simp add: db_wf_def table_wf_defs extends_def subset_insertI)
  qed (use assms(1) in simp)
qed

lemma map_upsert_keys:
  assumes "\<And>r. same r \<longleftrightarrow> key r = key row"
  shows "map key (map (\<lambda>r. if same r then row else r) rs) = map key rs"
  using assms by simp

lemma set_channels_step:
  assumes "db_wf d" and "channels_wf (d\<lparr>db_channels := rows\<rparr>)"
  shows "db_wf (d\<lparr>db_channels := rows\<rparr>) \<and> extends d (d\<lparr>db_channels := rows\<rparr>)"
  using assms by (simp add: db_wf_def table_wf_defs extends_def)

lemma upsert_channel_step:
  assumes wf: "db_wf d" and u: "upsert_channel d row = Inr d'"
  shows "db_wf d' \<and> extends d d'"
proof -
  let ?same = "\<lambda>r. ct_channel r = ct_channel row \<and> ct_device r = ct_device row \<and> ct_architecture r = ct_architecture row"
  let ?upd = "map (\<lambda>r. if ?same r then row else r) (db_channels d)"
  have same: "?same r \<longleftrightarrow> channel_key r = channel_key row" for r
    by (simp add: channel_key_def)
  have row: "ct_vehicle_release_id row \<in> vr_id ` set (db_vehicles d)"
    using u by (simp add: upsert_channel_def Let_def split: if_splits)
  have ch: "distinct (map channel_key (db_channels d))"
      "ct_vehicle_release_id ` set (db_channels d) \<subseteq> vr_id ` set (db_vehicles d)"
    using wf by (simp_all add: db_wf_def channels_wf_def)
  show ?thesis
  proof (cases "\<exists>r \<in> set (db_channels d). ?same r")
    case True
    with u row have d': "d' = d\<lparr>db_channels := ?upd\<rparr>"
      by (simp add: upsert_channel_def Let_def)
    have "distinct (map channel_key ?upd)"
      unfolding map_upsert_keys [where same = ?same and key = channel_key, OF same] by (rule ch)
    moreover have "ct_vehicle_release_id ` set ?upd \<subseteq> vr_id ` set (db_vehicles d)"
      using ch(2) row by (force split: if_splits)
    ultimately show ?thesis
      unfolding d' by (intro set_channels_step [OF wf]) (simp add: channels_wf_def del: set_map map_map)
  next
    case False
    with u row have d': "d' = d\<lparr>db_channels := db_channels d @ [row]\<rparr>"
      by (simp add: upsert_channel_def Let_def)
    have "channel_key row \<notin> channel_key ` set (db_channels d)"
      using False same by force
    with ch row show ?thesis
      unfolding d' by (intro set_channels_step [OF wf]) (simp add: channels_wf_def)
  qed
qed

lemma point_channel_step:
  assumes wf: "db_wf d" and c: "point_channel H req d tree = (d', r)"
  shows "db_wf d' \<and> extends d d'"
proof (cases "d' = d")
  case False
  with c obtain row d1 crow where i: "insert_target d row = Inr d1" and u: "upsert_channel d1 crow = Inr d'"
    by (auto simp: point_channel_def Let_def try_bind_def split: sum.splits)
  have d1: "db_wf d1" "extends d d1"
    using insert_target_step [OF wf i] by simp_all
  with upsert_channel_step [OF d1(1) u] extends_trans show ?thesis by blast
qed (use wf in simp)

lemma set_channel_step:
  assumes "db_wf d" and "set_channel_target H d req = (d', r)"
  shows "db_wf d' \<and> extends d d'"
  using assms(2) point_channel_step [OF assms(1)] assms(1)
  by (cases "resolve_members_to_tree H d (sct_vehicle_release_id req)") (simp_all add: set_channel_target_def, blast)

lemma release_step_wf:
  assumes "release_step H d d'" and "db_wf d"
  shows "db_wf d' \<and> extends d d'"
  using assms
proof cases
  case (tick t)
  with assms(2) show ?thesis by (simp add: db_wf_def table_wf_defs extends_def)
qed (use assms(2) create_component_step create_vehicle_step set_channel_step in blast)+

interpretation release_run: growing_system "release_step H" db_wf extends for H
  by unfold_locales (simp add: release_step_wf, simp, rule extends_trans)

section \<open>Releases do not change\<close>

lemma find_append: "find P (xs @ ys) = (case find P xs of Some x \<Rightarrow> Some x | None \<Rightarrow> find P ys)"
  by (induction xs) auto

lemma resolve_member_extends:
  assumes "extends d d'" and "mr_component_release_id m \<in> cr_id ` set (db_components d)"
  shows "resolve_member H d' vid m = resolve_member H d vid m"
proof -
  obtain cs ps where cs: "db_components d' = db_components d @ cs"
    and ps: "db_parts d' = db_parts d @ ps" "\<forall>p \<in> set ps. pr_release_id p \<notin> cr_id ` set (db_components d)"
    by (rule extendsE [OF assms(1)])
  have "find (\<lambda>r. cr_id r = mr_component_release_id m) (db_components d) \<noteq> None"
    using assms(2) by (auto simp: find_None_iff)
  moreover have "filter (\<lambda>p. pr_release_id p = mr_component_release_id m) ps = []"
    using ps(2) assms(2) by (auto simp: filter_empty_conv)
  ultimately show ?thesis
    by (auto simp: resolve_member_def cs ps(1) find_append split: option.splits)
qed

lemma traverse_cong: "(\<And>x. x \<in> set xs \<Longrightarrow> f x = g x) \<Longrightarrow> traverse f xs = traverse g xs"
  by (induction xs) auto

lemma resolve_extends:
  assumes wf: "db_wf d" and ext: "extends d d'" and vid: "vid \<in> vr_id ` set (db_vehicles d)"
  shows "resolve_members_to_tree H d' vid = resolve_members_to_tree H d vid"
proof -
  obtain ms where ms: "db_members d' = db_members d @ ms"
    "\<forall>m \<in> set ms. mr_vehicle_release_id m \<notin> vr_id ` set (db_vehicles d)"
    by (rule extendsE [OF ext])
  have "filter (\<lambda>m. mr_vehicle_release_id m = vid) ms = []"
    using ms(2) vid by (auto simp: filter_empty_conv)
  moreover have "resolve_member H d' vid m = resolve_member H d vid m" if "m \<in> set (db_members d)" for m
  proof -
    have "mr_component_release_id ` set (db_members d) \<subseteq> cr_id ` set (db_components d)"
      using wf by (simp add: db_wf_def members_wf_def)
    then show ?thesis
      using resolve_member_extends [OF ext] that by blast
  qed
  ultimately have "traverse (resolve_member H d' vid) (filter (\<lambda>m. mr_vehicle_release_id m = vid) (db_members d')) =
      traverse (resolve_member H d vid) (filter (\<lambda>m. mr_vehicle_release_id m = vid) (db_members d))"
    unfolding ms(1) by (auto intro: traverse_cong)
  then show ?thesis
    by (simp add: resolve_members_to_tree_def)
qed

section \<open>What a create leaves behind\<close>

definition part_rows :: "'h hash_api \<Rightarrow> i64 \<Rightarrow> NewPart list \<Rightarrow> part_row list" where
  "part_rows H rid ps = map (\<lambda>p. \<lparr>pr_release_id = rid, pr_part_id = np_id p, pr_part_kind = np_kind p,
      pr_content_hash = to_prefixed H (np_content p)\<rparr>) ps"

definition member_rows :: "i64 \<Rightarrow> i64 list \<Rightarrow> i64 list \<Rightarrow> member_row list" where
  "member_rows vid ms ds = map (\<lambda>m. \<lparr>mr_vehicle_release_id = vid, mr_component_release_id = m,
      mr_disabled = (m \<in> set ds)\<rparr>) ms"

lemma insert_parts_ok:
  "insert_all insert_part rows d = (d', Inr u) \<Longrightarrow> d' = d\<lparr>db_parts := db_parts d @ rows\<rparr>"
proof (induction rows arbitrary: d)
  case (Cons row rows)
  then obtain d1 where "insert_part d row = (d1, Inr ())" and "insert_all insert_part rows d1 = (d', Inr u)"
    by (auto split: sum.splits prod.splits)
  with Cons.IH insert_part_cases [of d row d1] show ?case by force
qed simp

lemma insert_members_ok:
  "insert_all insert_member rows d = (d', Inr u) \<Longrightarrow> d' = d\<lparr>db_members := db_members d @ rows\<rparr>"
proof (induction rows arbitrary: d)
  case (Cons row rows)
  then obtain d1 where "insert_member d row = (d1, Inr ())" and "insert_all insert_member rows d1 = (d', Inr u)"
    by (auto split: sum.splits prod.splits)
  with Cons.IH insert_member_cases [of d row d1] show ?case by force
qed simp

lemma insert_parts_total:
  assumes "\<And>row. row \<in> set rows \<Longrightarrow> pr_release_id row \<in> cr_id ` set (db_components d)"
    and "distinct (map part_key (db_parts d @ rows))"
  shows "insert_all insert_part rows d = (d\<lparr>db_parts := db_parts d @ rows\<rparr>, Inr ())"
  using assms
proof (induction rows arbitrary: d)
  case (Cons row rows)
  have "part_key row \<notin> part_key ` set (db_parts d)"
    using Cons.prems(2) by auto
  then have "insert_part d row = (d\<lparr>db_parts := db_parts d @ [row]\<rparr>, Inr ())"
    using Cons.prems(1) by (force simp: insert_part_def part_key_def image_iff)
  with Cons.IH [of "d\<lparr>db_parts := db_parts d @ [row]\<rparr>"] Cons.prems show ?case by simp
qed simp

text \<open>Inserting rows with a repeated key fails, with the rows before it left in the table.\<close>

lemma insert_parts_fails:
  assumes "\<not> distinct (map part_key (db_parts d @ rows))" and "distinct (map part_key (db_parts d))"
  shows "\<exists>d' e. insert_all insert_part rows d = (d', Inl e) \<and> db_components d' = db_components d"
  using assms
proof (induction rows arbitrary: d)
  case (Cons row rows)
  obtain d1 r where i: "insert_part d row = (d1, r)" by (cases "insert_part d row")
  from insert_part_cases [OF i] show ?case
  proof (elim disjE conjE exE)
    assume d1: "d1 = d\<lparr>db_parts := db_parts d @ [row]\<rparr>" and r: "r = Inr ()"
      and new: "part_key row \<notin> part_key ` set (db_parts d)"
    then have "distinct (map part_key (db_parts d1))" "\<not> distinct (map part_key (db_parts d1 @ rows))"
      using Cons.prems by auto
    with Cons.IH [of d1] i r d1 show ?thesis by auto
  qed (use i in auto)
qed simp

lemma create_component_fresh:
  assumes "\<not> (\<exists>r \<in> set (db_components d). cr_entity_path r = ncr_entity_path req \<and>
      cr_identity_hash r = Some (component_identity H (ncr_entity_kind req) (ncr_parts req)))"
  defines "row \<equiv> \<lparr>cr_id = db_component_seq d, cr_entity_path = ncr_entity_path req,
      cr_entity_kind = ncr_entity_kind req, cr_version = ncr_version req,
      cr_identity_hash = Some (component_identity H (ncr_entity_kind req) (ncr_parts req)),
      cr_created_at = db_now d\<rparr>"
  shows "create_component_release H d req =
     (case insert_all insert_part (part_rows H (db_component_seq d) (ncr_parts req))
         (d\<lparr>db_component_seq := db_component_seq d + 1, db_components := db_components d @ [row]\<rparr>) of
        (d2, Inl e) \<Rightarrow> (d2, Inl (db e))
      | (d2, Inr _) \<Rightarrow> (d2, Inr (component_ref d row False)))"
proof -
  have "find (\<lambda>r. cr_entity_path r = ncr_entity_path req \<and>
      cr_identity_hash r = Some (component_identity H (ncr_entity_kind req) (ncr_parts req))) (db_components d) = None"
    using assms(1) by (auto simp: find_None_iff)
  then show ?thesis
    using assms(1) unfolding create_component_release_def insert_component_def part_rows_def row_def
    by (auto simp: Let_def)
qed

lemma create_component_known:
  assumes "db_wf d" and "r \<in> set (db_components d)" and "cr_entity_path r = ncr_entity_path req"
    and "cr_identity_hash r = Some (component_identity H (ncr_entity_kind req) (ncr_parts req))"
  shows "create_component_release H d req = (d, Inr (component_ref d r True))"
proof -
  let ?P = "\<lambda>r. cr_entity_path r = ncr_entity_path req \<and>
      cr_identity_hash r = Some (component_identity H (ncr_entity_kind req) (ncr_parts req))"
  have "distinct (map component_ident (db_components d))"
    using assms(1) by (simp add: db_wf_def components_wf_def)
  moreover obtain s where s: "find ?P (db_components d) = Some s"
    using assms(2-4) by (cases "find ?P (db_components d)") (auto simp: find_None_iff)
  moreover from s have "?P s" "s \<in> set (db_components d)"
    by (auto simp: find_Some_iff)
  ultimately have "s = r"
    using assms(2-4) by (auto simp: distinct_map inj_on_def component_ident_def)
  with s show ?thesis
    by (simp add: create_component_release_def)
qed

lemma find_id_unique:
  assumes "distinct (map f xs)" and "x \<in> set xs"
  shows "find (\<lambda>y. f y = f x) xs = Some x"
  using assms by (induction xs) auto

text \<open>Reading a stored part back.\<close>

definition part_of :: "NewPart \<Rightarrow> Part" where
  "part_of p = \<lparr>p_kind = np_kind p, p_id = np_id p, p_content = np_content p\<rparr>"

lemma resolve_part_rows:
  assumes "hash_api_ok H" and "\<And>p. p \<in> set ps \<Longrightarrow> ch_ok (np_content p)"
  shows "traverse (resolve_part H vid rid path) (part_rows H rid' ps) = Inr (map part_of ps)"
  using assms
  by (induction ps)
    (auto simp: part_rows_def resolve_part_def parse_stored_hash_def ch_from_str_prefixed part_of_def)

definition new_component_row :: "'h hash_api \<Rightarrow> database \<Rightarrow> NewComponentRelease \<Rightarrow> component_row" where
  "new_component_row H d req = \<lparr>cr_id = db_component_seq d, cr_entity_path = ncr_entity_path req,
      cr_entity_kind = ncr_entity_kind req, cr_version = ncr_version req,
      cr_identity_hash = Some (component_identity H (ncr_entity_kind req) (ncr_parts req)),
      cr_created_at = db_now d\<rparr>"

lemma create_component_new:
  assumes wf: "db_wf d" and ids: "distinct (map np_id (ncr_parts req))"
    and new: "\<not> (\<exists>r \<in> set (db_components d). cr_entity_path r = ncr_entity_path req \<and>
      cr_identity_hash r = Some (component_identity H (ncr_entity_kind req) (ncr_parts req)))"
  shows "create_component_release H d req =
    (d\<lparr>db_component_seq := db_component_seq d + 1,
       db_components := db_components d @ [new_component_row H d req],
       db_parts := db_parts d @ part_rows H (db_component_seq d) (ncr_parts req)\<rparr>,
     Inr (component_ref d (new_component_row H d req) False))"
proof -
  let ?rows = "part_rows H (db_component_seq d) (ncr_parts req)"
  let ?d1 = "d\<lparr>db_component_seq := db_component_seq d + 1, db_components := db_components d @ [new_component_row H d req]\<rparr>"
  have old: "distinct (map part_key (db_parts d))"
    using wf by (simp add: db_wf_def parts_wf_def)
  have "part_key ` set (db_parts d) \<inter> part_key ` set ?rows = {}"
    using db_wf_part_ids [OF wf] by (auto simp: part_rows_def part_key_def)
  moreover have "distinct (map part_key ?rows)"
    using ids by (simp add: part_rows_def part_key_def comp_def distinct_map inj_on_def)
  ultimately have "distinct (map part_key (db_parts ?d1 @ ?rows))"
    using old by simp
  then have "insert_all insert_part ?rows ?d1 = (?d1\<lparr>db_parts := db_parts ?d1 @ ?rows\<rparr>, Inr ())"
    by (rule insert_parts_total [rotated]) (auto simp: part_rows_def new_component_row_def)
  then show ?thesis
    using create_component_fresh [OF new] by (simp add: new_component_row_def)
qed

section \<open>An example database\<close>

definition ex_db :: database where
  "ex_db = \<lparr>db_components = [], db_parts = [], db_vehicles = [], db_members = [], db_targets = [],
     db_channels = [], db_component_seq = 1, db_vehicle_seq = 1, db_now = 100, db_ts_text = nat_to_string\<rparr>"

definition ex_creq :: NewComponentRelease where
  "ex_creq = \<lparr>ncr_entity_path = ''vm1'', ncr_entity_kind = ''vm'', ncr_version = ''1'',
     ncr_parts = [\<lparr>np_id = ''rootfs'', np_kind = ''image'', np_content = ContentHash (replicate 32 1)\<rparr>,
                  \<lparr>np_id = ''kernel'', np_kind = ''image'', np_content = ContentHash (replicate 32 2)\<rparr>]\<rparr>"

lemma ex_db_wf: "db_wf ex_db"
  by (simp add: db_wf_def table_wf_defs ex_db_def)

lemma traverse_map: "traverse f (map g xs) = traverse (\<lambda>x. f (g x)) xs"
  by (induction xs) auto

section \<open>Properties\<close>

text \<open>C25. A component release reads back as it was submitted: with distinct part ids, creating new
  content succeeds with a fresh id, and resolving that id from then on yields the entity with
  the submitted kind, version and parts, in order and with their content addresses.\<close>

theorem component_release_roundtrip:
  assumes "hash_api_ok H" and "db_wf d" and "distinct (map np_id (ncr_parts req))"
    and "list_all (\<lambda>p. ch_ok (np_content p)) (ncr_parts req)"
    and "\<not> (\<exists>r \<in> set (db_components d). cr_entity_path r = ncr_entity_path req \<and>
      cr_identity_hash r = Some (component_identity H (ncr_entity_kind req) (ncr_parts req)))"
  shows "\<exists>d' ref. create_component_release H d req = (d', Inr ref) \<and> \<not> rr_reused ref \<and>
     rr_id ref \<notin> cr_id ` set (db_components d) \<and>
     (\<forall>d'' vid dis. (release_step H)\<^sup>*\<^sup>* d' d'' \<longrightarrow>
       resolve_member H d'' vid \<lparr>mr_vehicle_release_id = vid, mr_component_release_id = rr_id ref, mr_disabled = dis\<rparr> =
       Inr (ncr_entity_path req,
            \<lparr>e_kind = ncr_entity_kind req, e_version = Some (ncr_version req), e_update_mode = None,
             e_parts = map part_of (ncr_parts req), e_disabled = dis, e_admin_disabled = None\<rparr>))"
proof -
  let ?rid = "db_component_seq d" and ?row = "new_component_row H d req"
  let ?rows = "part_rows H ?rid (ncr_parts req)"
  let ?d2 = "d\<lparr>db_component_seq := ?rid + 1, db_components := db_components d @ [?row], db_parts := db_parts d @ ?rows\<rparr>"
  note c = create_component_new [OF assms(2,3,5)]
  have fresh: "?rid \<notin> cr_id ` set (db_components d)"
    by (rule db_wf_component_ids [OF assms(2)])
  have wf2: "db_wf ?d2"
    using create_component_step [OF assms(2) c] by simp
  have "filter (\<lambda>p. pr_release_id p = ?rid) (db_parts d @ ?rows) = ?rows"
    using db_wf_part_ids [OF assms(2)] by (auto simp: part_rows_def filter_empty_conv)
  moreover have "find (\<lambda>r. cr_id r = ?rid) (db_components d @ [?row]) = Some ?row"
    using wf2 find_id_unique [of cr_id "db_components d @ [?row]" ?row]
    by (simp add: db_wf_def components_wf_def new_component_row_def)
  ultimately have here: "resolve_member H ?d2 vid \<lparr>mr_vehicle_release_id = vid, mr_component_release_id = ?rid, mr_disabled = dis\<rparr> =
       Inr (ncr_entity_path req,
            \<lparr>e_kind = ncr_entity_kind req, e_version = Some (ncr_version req), e_update_mode = None,
             e_parts = map part_of (ncr_parts req), e_disabled = dis, e_admin_disabled = None\<rparr>)" for vid dis
    using resolve_part_rows [OF assms(1), of "ncr_parts req"] assms(4)
    by (simp add: resolve_member_def Let_def list_all_iff new_component_row_def del: filter_append)
  have later: "resolve_member H d'' vid m = resolve_member H ?d2 vid m"
    if "(release_step H)\<^sup>*\<^sup>* ?d2 d''" "mr_component_release_id m = ?rid" for d'' vid m
    using release_run.history [OF that(1) wf2] that(2) by (intro resolve_member_extends) (simp_all add: new_component_row_def)
  have ref: "rr_id (component_ref d ?row False) = ?rid" "\<not> rr_reused (component_ref d ?row False)"
    by (simp_all add: component_ref_def new_component_row_def)
  show ?thesis
  proof (intro exI conjI allI impI)
    show "create_component_release H d req = (?d2, Inr (component_ref d ?row False))"
      by (rule c)
    show "rr_id (component_ref d ?row False) \<notin> cr_id ` set (db_components d)"
      using fresh by (simp add: ref)
    show "resolve_member H d'' vid \<lparr>mr_vehicle_release_id = vid,
        mr_component_release_id = rr_id (component_ref d ?row False), mr_disabled = dis\<rparr> =
      Inr (ncr_entity_path req,
            \<lparr>e_kind = ncr_entity_kind req, e_version = Some (ncr_version req), e_update_mode = None,
             e_parts = map part_of (ncr_parts req), e_disabled = dis, e_admin_disabled = None\<rparr>)"
      if "(release_step H)\<^sup>*\<^sup>* ?d2 d''" for d'' vid dis
      unfolding ref by (subst later [OF that]) (simp, rule here)
  qed (rule ref)
qed

theorem component_release_roundtrip_witness:
  "\<exists>d' ref. create_component_release ref_hash ex_db ex_creq = (d', Inr ref) \<and>
     resolve_member ref_hash d' 7 \<lparr>mr_vehicle_release_id = 7, mr_component_release_id = rr_id ref, mr_disabled = False\<rparr> =
       Inr (''vm1'', \<lparr>e_kind = ''vm'', e_version = Some ''1'', e_update_mode = None,
             e_parts = map part_of (ncr_parts ex_creq), e_disabled = False, e_admin_disabled = None\<rparr>)"
proof -
  have "\<not> (\<exists>r \<in> set (db_components ex_db). cr_entity_path r = ncr_entity_path ex_creq \<and>
      cr_identity_hash r = Some (component_identity ref_hash (ncr_entity_kind ex_creq) (ncr_parts ex_creq)))"
    by (simp add: ex_db_def)
  from component_release_roundtrip [OF ref_hash_ok ex_db_wf _ _ this]
  show ?thesis by (fastforce simp: ex_creq_def ch_ok_def)
qed

text \<open>Creating a component release is idempotent on content: once a create has succeeded, any
  later create for the entity whose parts have the same identity (in any order, under any
  version) returns that release marked as reused and writes nothing.\<close>

theorem component_release_idempotent:
  assumes "db_wf d" and "create_component_release H d req = (d', Inr ref)"
    and "ncr_entity_path req' = ncr_entity_path req"
    and "component_identity H (ncr_entity_kind req') (ncr_parts req') =
         component_identity H (ncr_entity_kind req) (ncr_parts req)"
  shows "create_component_release H d' req' = (d', Inr (ref\<lparr>rr_reused := True\<rparr>))"
proof -
  have wf': "db_wf d'"
    using create_component_step [OF assms(1,2)] by simp
  obtain r where r: "r \<in> set (db_components d')" "cr_entity_path r = ncr_entity_path req"
      "cr_identity_hash r = Some (component_identity H (ncr_entity_kind req) (ncr_parts req))"
      "component_ref d' r True = ref\<lparr>rr_reused := True\<rparr>"
  proof (cases "\<exists>r \<in> set (db_components d). cr_entity_path r = ncr_entity_path req \<and>
      cr_identity_hash r = Some (component_identity H (ncr_entity_kind req) (ncr_parts req))")
    case True
    then obtain r where r: "r \<in> set (db_components d)" "cr_entity_path r = ncr_entity_path req"
      "cr_identity_hash r = Some (component_identity H (ncr_entity_kind req) (ncr_parts req))" by blast
    with create_component_known [OF assms(1) r] assms(2) show ?thesis
      using that [of r] by (auto simp: component_ref_def)
  next
    case False
    let ?row = "new_component_row H d req"
    from create_component_fresh [OF False] assms(2)
    obtain u where i: "insert_all insert_part (part_rows H (db_component_seq d) (ncr_parts req))
         (d\<lparr>db_component_seq := db_component_seq d + 1, db_components := db_components d @ [?row]\<rparr>) = (d', Inr u)"
      and ref: "ref = component_ref d ?row False"
      by (auto simp: new_component_row_def split: sum.splits prod.splits)
    from insert_parts_ok [OF i] show ?thesis
      using that [of ?row] by (simp add: ref component_ref_def new_component_row_def)
  qed
  with create_component_known [OF wf', of r req' H] assms(3,4) show ?thesis by simp
qed

theorem component_release_idempotent_witness:
  "\<exists>d' ref. create_component_release ref_hash ex_db ex_creq = (d', Inr ref) \<and>
     create_component_release ref_hash d' (ex_creq\<lparr>ncr_version := ''2'', ncr_parts := rev (ncr_parts ex_creq)\<rparr>) =
       (d', Inr (ref\<lparr>rr_reused := True\<rparr>))"
proof -
  let ?req = "ex_creq\<lparr>ncr_version := ''2'', ncr_parts := rev (ncr_parts ex_creq)\<rparr>"
  have "distinct (map np_id (ncr_parts ex_creq))"
    by (simp add: ex_creq_def)
  from create_component_new [OF ex_db_wf this, of ref_hash]
  obtain d' ref where c: "create_component_release ref_hash ex_db ex_creq = (d', Inr ref)"
    by (simp add: ex_db_def)
  have "component_identity ref_hash (ncr_entity_kind ?req) (ncr_parts ?req) =
      component_identity ref_hash (ncr_entity_kind ex_creq) (ncr_parts ex_creq)"
    by (simp add: component_identity_def component_identity_buf_def ex_creq_def)
  with component_release_idempotent [OF ex_db_wf c, of ?req] c show ?thesis by simp
qed

text \<open>C40. A component release with a repeated part id is not rejected cleanly: the call fails, but
  the release row stays behind without the remaining parts, and a retry of the very same
  request reports success, handing out that incomplete release as an existing one.\<close>

theorem component_release_half_built:
  assumes "db_wf d" and "\<not> distinct (map np_id (ncr_parts req))"
    and "\<not> (\<exists>r \<in> set (db_components d). cr_entity_path r = ncr_entity_path req \<and>
      cr_identity_hash r = Some (component_identity H (ncr_entity_kind req) (ncr_parts req)))"
  shows "\<exists>d' e ref. create_component_release H d req = (d', Inl e) \<and>
     create_component_release H d' req = (d', Inr ref) \<and> rr_reused ref"
proof -
  let ?row = "new_component_row H d req"
  let ?rows = "part_rows H (db_component_seq d) (ncr_parts req)"
  let ?d1 = "d\<lparr>db_component_seq := db_component_seq d + 1, db_components := db_components d @ [?row]\<rparr>"
  have "\<not> distinct (map part_key ?rows)"
    using assms(2) by (auto simp: part_rows_def part_key_def comp_def distinct_map inj_on_def)
  moreover have "distinct (map part_key (db_parts ?d1))"
    using assms(1) by (simp add: db_wf_def parts_wf_def)
  ultimately obtain d' e where i: "insert_all insert_part ?rows ?d1 = (d', Inl e)"
    and d': "db_components d' = db_components ?d1"
    using insert_parts_fails [of ?d1 ?rows] by auto
  have c: "create_component_release H d req = (d', Inl (db e))"
    using create_component_fresh [OF assms(3)] i by (simp add: new_component_row_def)
  have "create_component_release H d' req = (d', Inr (component_ref d' ?row True))"
    using create_component_step [OF assms(1) c] d'
    by (intro create_component_known) (auto simp: new_component_row_def)
  with c show ?thesis by (auto simp: component_ref_def)
qed

theorem component_release_half_built_witness:
  "\<exists>d' e ref. create_component_release ref_hash ex_db
       (ex_creq\<lparr>ncr_parts := ncr_parts ex_creq @ ncr_parts ex_creq\<rparr>) = (d', Inl e) \<and>
     create_component_release ref_hash d' (ex_creq\<lparr>ncr_parts := ncr_parts ex_creq @ ncr_parts ex_creq\<rparr>) =
       (d', Inr ref) \<and> rr_reused ref"
  by (rule component_release_half_built [OF ex_db_wf]) (simp_all add: ex_creq_def ex_db_def)

text \<open>C8. A vehicle release is immutable: whatever creates, channel moves and retries follow, in
  any order, failing or not, the integrity of the tables is kept, the release stays, and it
  resolves to the same tree.\<close>

theorem vehicle_release_immutable:
  assumes "db_wf d" and "(release_step H)\<^sup>*\<^sup>* d d'" and "vid \<in> vr_id ` set (db_vehicles d)"
  shows "db_wf d' \<and> vid \<in> vr_id ` set (db_vehicles d') \<and>
     resolve_members_to_tree H d' vid = resolve_members_to_tree H d vid"
  using release_run.history [OF assms(2,1)] resolve_extends [OF assms(1) _ assms(3)] assms(3)
  unfolding extends_def by blast

definition ex_db_v :: database where
  "ex_db_v = ex_db\<lparr>db_vehicles := [\<lparr>vr_id = 0, vr_tag = ''car'', vr_version = ''1'',
     vr_identity_hash = Some ''x'', vr_created_at = 1, vr_config_snapshot = None\<rparr>]\<rparr>"

lemma ex_db_v_wf: "db_wf ex_db_v"
  by (simp add: db_wf_def table_wf_defs ex_db_v_def ex_db_def)

theorem vehicle_release_immutable_witness:
  "\<exists>d'. release_step ref_hash ex_db_v d' \<and> d' \<noteq> ex_db_v \<and>
     resolve_members_to_tree ref_hash d' 0 = resolve_members_to_tree ref_hash ex_db_v 0"
proof -
  have "distinct (map np_id (ncr_parts ex_creq))"
    by (simp add: ex_creq_def)
  from create_component_new [OF ex_db_v_wf this, of ref_hash]
  obtain d' r where c: "create_component_release ref_hash ex_db_v ex_creq = (d', r)" and "d' \<noteq> ex_db_v"
    by (simp add: ex_db_v_def ex_db_def)
  moreover have "release_step ref_hash ex_db_v d'"
    using c by (rule release_step.component)
  moreover from this have "resolve_members_to_tree ref_hash d' 0 = resolve_members_to_tree ref_hash ex_db_v 0"
    using vehicle_release_immutable [OF ex_db_v_wf, of ref_hash d' 0] by (simp add: ex_db_v_def r_into_rtranclp)
  ultimately show ?thesis by blast
qed

text \<open>C26. A new vehicle release resolves to the combination that was asked for: its tree is made of
  the entities of the listed component releases, each disabled exactly when it is listed as
  such.\<close>

theorem vehicle_release_roundtrip:
  assumes "db_wf d" and "create_vehicle_release H d req = (d', Inr ref)" and "\<not> rr_reused ref"
  shows "resolve_members_to_tree H d' (rr_id ref) =
     try_bind (traverse (\<lambda>m. resolve_member H d (rr_id ref)
          \<lparr>mr_vehicle_release_id = rr_id ref, mr_component_release_id = m,
           mr_disabled = (m \<in> set (nvr_disabled_members req))\<rparr>) (nvr_members req))
       (\<lambda>kvs. Inr \<lparr>entities = bt_collect kvs\<rparr>)"
proof -
  let ?vid = "db_vehicle_seq d"
  let ?ident = "vehicle_identity H (nvr_members req) (nvr_disabled_members req)"
  obtain d1 row u where iv: "insert_vehicle d (nvr_tag req) (nvr_version req) ?ident (nvr_config_snapshot req) = (d1, Inr row)"
    and im: "insert_all insert_member (member_rows (vr_id row) (nvr_members req) (nvr_disabled_members req)) d1 = (d', Inr u)"
    and ref: "ref = vehicle_ref d row False"
    using assms(2,3) unfolding create_vehicle_release_def Let_def member_rows_def
    by (auto simp: vehicle_ref_def split: option.splits sum.splits prod.splits)
  have row: "vr_id row = ?vid" and d1: "db_members d1 = db_members d" "db_components d1 = db_components d"
    using iv by (auto simp: insert_vehicle_def Let_def split: if_splits)
  let ?rows = "member_rows ?vid (nvr_members req) (nvr_disabled_members req)"
  have d': "d' = d1\<lparr>db_members := db_members d @ ?rows\<rparr>"
    using insert_members_ok [OF im] by (simp add: row d1)
  have mine: "filter (\<lambda>m. mr_vehicle_release_id m = ?vid) (db_members d') = ?rows"
    using db_wf_member_ids [OF assms(1)] by (auto simp: d' member_rows_def filter_empty_conv)
  have wf': "db_wf d'" and ext: "extends d d'"
    using create_vehicle_step [OF assms(1,2)] by simp_all
  have "mr_component_release_id ` set (db_members d') \<subseteq> cr_id ` set (db_components d)"
    using wf' by (simp add: db_wf_def members_wf_def d' d1)
  then have "resolve_member H d' ?vid m = resolve_member H d ?vid m" if "m \<in> set ?rows" for m
    using that by (intro resolve_member_extends [OF ext]) (auto simp: d')
  then have "traverse (resolve_member H d' ?vid) ?rows = traverse (resolve_member H d ?vid) ?rows"
    by (rule traverse_cong)
  then show ?thesis
    using mine unfolding resolve_members_to_tree_def
    by (simp add: ref vehicle_ref_def row member_rows_def traverse_map)
qed

theorem vehicle_release_roundtrip_witness:
  "\<exists>d ref d' vref. create_component_release ref_hash ex_db ex_creq = (d, Inr ref) \<and>
     create_vehicle_release ref_hash d \<lparr>nvr_tag = ''car'', nvr_version = ''1'', nvr_members = [1],
       nvr_disabled_members = [1], nvr_config_snapshot = None\<rparr> = (d', Inr vref) \<and>
     resolve_members_to_tree ref_hash d' (rr_id vref) =
       try_bind (traverse (\<lambda>m. resolve_member ref_hash d (rr_id vref)
          \<lparr>mr_vehicle_release_id = rr_id vref, mr_component_release_id = m, mr_disabled = (m \<in> {1})\<rparr>) [1])
       (\<lambda>kvs. Inr \<lparr>entities = bt_collect kvs\<rparr>)"
proof -
  let ?req = "\<lparr>nvr_tag = ''car'', nvr_version = ''1'', nvr_members = [1],
       nvr_disabled_members = [1], nvr_config_snapshot = None\<rparr>"
  have "distinct (map np_id (ncr_parts ex_creq))"
    by (simp add: ex_creq_def)
  from create_component_new [OF ex_db_wf this, of ref_hash]
  obtain d ref where c: "create_component_release ref_hash ex_db ex_creq = (d, Inr ref)"
    and d: "db_components d = [new_component_row ref_hash ex_db ex_creq]" "db_vehicles d = []" "db_members d = []"
    by (simp add: ex_db_def)
  have id: "cr_id (new_component_row ref_hash ex_db ex_creq) = 1"
    by (simp add: new_component_row_def ex_db_def)
  obtain d' vref where v: "create_vehicle_release ref_hash d ?req = (d', Inr vref)" and "\<not> rr_reused vref"
    using d id by (simp add: create_vehicle_release_def insert_vehicle_def insert_member_def vehicle_ref_def Let_def)
  moreover have "db_wf d"
    using create_component_step [OF ex_db_wf c] by simp
  ultimately show ?thesis
    using vehicle_release_roundtrip [of d ref_hash ?req d' vref] c v by auto
qed

lemma resolve_target_release:
  assumes "vid \<in> vr_id ` set (db_vehicles d)" and "resolve_members_to_tree H d vid = Inr tree"
    and "ts_vehicle_release_id sel = Some vid" and "ts_tree_hash sel = Some (tree_hash H tree)"
  shows "resolve_target H d sel = Inr (Some tree)"
  using assms by (simp add: resolve_target_def)

lemma upsert_channel_lookup:
  assumes "upsert_channel d row = Inr d'"
  shows "channel_target_vehicle d' (ct_channel row) (Some (ct_device row)) (Some (ct_architecture row)) =
     Some (ct_vehicle_release_id row)"
proof -
  let ?same = "\<lambda>r. ct_channel r = ct_channel row \<and> ct_device r = ct_device row \<and> ct_architecture r = ct_architecture row"
  have upd: "(\<exists>r \<in> set rs. ?same r) \<Longrightarrow> find ?same (map (\<lambda>r. if ?same r then row else r) rs) = Some row" for rs
    by (induction rs) auto
  have app: "\<not> (\<exists>r \<in> set rs. ?same r) \<Longrightarrow> find ?same (rs @ [row]) = Some row" for rs
    by (induction rs) auto
  from assms have "find ?same (db_channels d') = Some row"
    using upd [of "db_channels d"] app [of "db_channels d"]
    by (auto simp: upsert_channel_def Let_def split: if_splits)
  then show ?thesis
    by (simp add: channel_target_vehicle_def)
qed

text \<open>C15. Pointing a channel at a release pins the plan: the tree hash handed out is that of the
  release's tree, the channel resolves to that tree under that hash at once, and by release id
  it does so after any further steps, for the device and architecture it was set for.\<close>

theorem channel_target_pinned:
  assumes "db_wf d" and "set_channel_target H d req = (d1, Inr ref)" and "(release_step H)\<^sup>*\<^sup>* d1 d2"
  shows "\<exists>tree. resolve_members_to_tree H d (sct_vehicle_release_id req) = Inr tree \<and>
     ctr_tree_hash ref = tree_hash H tree \<and>
     resolve_target H d1 \<lparr>ts_channel = Some (sct_channel req), ts_device = Some (sct_device req),
       ts_architecture = Some (sct_architecture req), ts_vehicle_release_id = None,
       ts_tree_hash = Some (ctr_tree_hash ref)\<rparr> = Inr (Some tree) \<and>
     resolve_target H d2 \<lparr>ts_channel = None, ts_device = Some (sct_device req),
       ts_architecture = Some (sct_architecture req), ts_vehicle_release_id = Some (sct_vehicle_release_id req),
       ts_tree_hash = Some (ctr_tree_hash ref)\<rparr> = Inr (Some tree) \<and>
     release_matches_target d2 (sct_vehicle_release_id req) (sct_device req) (sct_architecture req)"
proof -
  let ?vid = "sct_vehicle_release_id req"
  let ?trow = "\<lparr>tr_vehicle_release_id = ?vid, tr_device = sct_device req, tr_architecture = sct_architecture req\<rparr>"
  obtain tree da where tree: "resolve_members_to_tree H d ?vid = Inr tree"
    and i: "insert_target d ?trow = Inr da"
    and u: "upsert_channel da \<lparr>ct_channel = sct_channel req, ct_device = sct_device req,
        ct_architecture = sct_architecture req, ct_vehicle_release_id = ?vid,
        ct_tree_hash = tree_hash H tree, ct_updated_at = db_now d\<rparr> = Inr d1"
    and hash: "ctr_tree_hash ref = tree_hash H tree"
    using assms(2) by (auto simp: set_channel_target_def point_channel_def Let_def try_bind_def split: sum.splits)
  have "?vid \<in> vr_id ` set (db_vehicles da)"
    using u by (simp add: upsert_channel_def Let_def split: if_splits)
  moreover have "db_vehicles da = db_vehicles d" and trow: "?trow \<in> set (db_targets da)"
    using i by (auto simp: insert_target_def split: if_splits)
  ultimately have vid: "?vid \<in> vr_id ` set (db_vehicles d)" by simp
  have s1: "db_wf d1" "extends d d1"
    using set_channel_step [OF assms(1,2)] by simp_all
  have s2: "db_wf d2" "extends d1 d2"
    using release_run.history [OF assms(3) s1(1)] by simp_all
  have ex2: "extends d d2"
    by (rule extends_trans [OF s1(2) s2(2)])
  have r: "resolve_members_to_tree H d1 ?vid = Inr tree" "resolve_members_to_tree H d2 ?vid = Inr tree"
    using resolve_extends [OF assms(1) s1(2) vid, of H] resolve_extends [OF assms(1) ex2 vid, of H] tree by simp_all
  have vid2: "?vid \<in> vr_id ` set (db_vehicles d2)"
    using ex2 vid unfolding extends_def by blast
  have "db_targets d1 = db_targets da"
    using u by (auto simp: upsert_channel_def Let_def split: if_splits)
  then have "?trow \<in> set (db_targets d2)"
    using s2(2) trow unfolding extends_def by auto
  then have m: "release_matches_target d2 ?vid (sct_device req) (sct_architecture req)"
    unfolding release_matches_target_def by (rule rev_bexI) simp
  have "channel_target_vehicle d1 (sct_channel req) (Some (sct_device req)) (Some (sct_architecture req)) = Some ?vid"
    using upsert_channel_lookup [OF u] by simp
  then have by_channel: "resolve_target H d1 \<lparr>ts_channel = Some (sct_channel req), ts_device = Some (sct_device req),
       ts_architecture = Some (sct_architecture req), ts_vehicle_release_id = None,
       ts_tree_hash = Some (ctr_tree_hash ref)\<rparr> = Inr (Some tree)"
    using r(1) hash by (simp add: resolve_target_def resolve_channel_target_def)
  have by_id: "resolve_target H d2 \<lparr>ts_channel = None, ts_device = Some (sct_device req),
       ts_architecture = Some (sct_architecture req), ts_vehicle_release_id = Some ?vid,
       ts_tree_hash = Some (ctr_tree_hash ref)\<rparr> = Inr (Some tree)"
    by (rule resolve_target_release [OF vid2 r(2)]) (simp_all add: hash)
  from tree hash by_channel by_id m show ?thesis by blast
qed

theorem channel_target_pinned_witness:
  "\<exists>d1 ref. set_channel_target ref_hash ex_db_v \<lparr>sct_channel = ''stable'', sct_device = ''cvc'',
       sct_architecture = ''arm64'', sct_vehicle_release_id = 0\<rparr> = (d1, Inr ref) \<and>
     resolve_target ref_hash d1 \<lparr>ts_channel = None, ts_device = Some ''cvc'', ts_architecture = Some ''arm64'',
       ts_vehicle_release_id = Some 0, ts_tree_hash = Some (ctr_tree_hash ref)\<rparr> = Inr (Some \<lparr>entities = []\<rparr>)"
proof -
  let ?req = "\<lparr>sct_channel = ''stable'', sct_device = ''cvc'', sct_architecture = ''arm64'', sct_vehicle_release_id = 0\<rparr>"
  have t: "resolve_members_to_tree ref_hash ex_db_v 0 = Inr \<lparr>entities = []\<rparr>"
    by (simp add: resolve_members_to_tree_def ex_db_v_def ex_db_def bt_collect_def)
  obtain d1 ref where c: "set_channel_target ref_hash ex_db_v ?req = (d1, Inr ref)"
    using t by (simp add: set_channel_target_def point_channel_def insert_target_def upsert_channel_def Let_def ex_db_v_def ex_db_def)
  from channel_target_pinned [OF ex_db_v_wf c, of d1] t have "resolve_target ref_hash d1 \<lparr>ts_channel = None,
      ts_device = Some ''cvc'', ts_architecture = Some ''arm64'', ts_vehicle_release_id = Some 0,
      ts_tree_hash = Some (ctr_tree_hash ref)\<rparr> = Inr (Some \<lparr>entities = []\<rparr>)"
    by auto
  with c show ?thesis by blast
qed

end
