(* ===== verification/Wire_Props.thy ===== *)
theory Wire_Props
  imports Reference_Crates
begin

text \<open>
  The correctness of \<open>crates/wire/src/lib.rs\<close>: content addresses round-trip, the diff and
  the flash plan say exactly which slots differ, shipping the plan's payloads and reusing
  the active bank reaches the desired slots, and the assessment names exactly the
  components that need work.
\<close>

section \<open>Example trees\<close>

definition ex_hash :: "nat \<Rightarrow> ContentHash" where
  "ex_hash n = ContentHash (replicate 32 (word_of_nat n))"

definition ex_part :: "string \<Rightarrow> nat \<Rightarrow> Part" where
  "ex_part i n = \<lparr>p_kind = ''file'', p_id = i, p_content = ex_hash n\<rparr>"

definition ex_entity :: "Part list \<Rightarrow> Entity" where
  "ex_entity ps = Entity_default\<lparr>e_kind := ''vm'', e_parts := ps\<rparr>"

definition ex_observed :: Tree where
  "ex_observed = \<lparr>entities =
     [(''vm1'', ex_entity [ex_part ''kernel'' 1, ex_part ''rootfs'' 2])]\<rparr>"

definition ex_desired :: Tree where
  "ex_desired = \<lparr>entities =
     [(''vm1'', ex_entity [ex_part ''kernel'' 3, ex_part ''rootfs'' 2, ex_part ''policy'' 4])]\<rparr>"

lemmas ex_tree_simps = ex_observed_def ex_desired_def ex_entity_def ex_part_def ex_hash_def
  Entity_default_def

lemma ex_trees_ok: "tree_ok ex_observed" "tree_ok ex_desired"
  by (simp_all add: tree_ok_def ex_tree_simps bt_wf_def)

section \<open>Content addresses\<close>

text \<open>Every content address that is 32 bytes long, rendered either as \<open>sha256:<hex>\<close> or as
  bare hex, parses back to itself: both forms \<open>from_str\<close> documents are accepted.\<close>

theorem content_hash_roundtrip:
  assumes "hash_api_ok H" and "ch_ok h"
  shows "ch_from_str H (to_prefixed H h) = Inr h \<and>
         ch_from_str H (hex_encode H (ch_bytes h)) = Inr h"
  using assms by (simp add: ch_from_str_prefixed ch_from_str_bare)

theorem content_hash_roundtrip_witness:
  "hash_api_ok ref_hash \<and> ch_ok (ex_hash 7) \<and>
   ch_from_str ref_hash (to_prefixed ref_hash (ex_hash 7)) = Inr (ex_hash 7)"
  using content_hash_roundtrip [OF ref_hash_ok, of "ex_hash 7"] ref_hash_ok
  by (simp add: ch_ok_def ex_hash_def)

text \<open>\<open>from_str\<close> fails exactly when the text left after an optional \<open>sha256:\<close> prefix is
  not hex (\<open>NotHex\<close>) or decodes to another length than 32 bytes (\<open>WrongLength\<close>); whatever it
  accepts is a 32-byte address.\<close>

theorem content_hash_parse_total:
  "case ch_from_str H s of
     Inr h \<Rightarrow> ch_ok h
   | Inl NotHex \<Rightarrow>
       hex_decode H (case strip_prefix ''sha256:'' s of Some r \<Rightarrow> r | None \<Rightarrow> s) = None
   | Inl WrongLength \<Rightarrow>
       (\<exists>bs. hex_decode H (case strip_prefix ''sha256:'' s of Some r \<Rightarrow> r | None \<Rightarrow> s) = Some bs
             \<and> length bs \<noteq> 32)"
proof (cases "hex_decode H (case strip_prefix ''sha256:'' s of Some r \<Rightarrow> r | None \<Rightarrow> s)")
  case None
  then show ?thesis by (simp add: ch_from_str_def Let_def)
next
  case (Some bs)
  then show ?thesis by (simp add: ch_from_str_def Let_def ch_ok_def)
qed

text \<open>Feeding a byte stream to the incremental hasher chunk by chunk yields the content
  address of the whole stream, however it is cut into chunks.\<close>

theorem hasher_chunking:
  assumes "hash_api_ok H" and "concat cs = concat ds"
  shows "hasher_finalize H (fold (\<lambda>c h. hasher_update H h c) cs (hasher H)) =
           ContentHash_of H (concat ds) \<and>
         hasher_finalize H (fold (\<lambda>c h. hasher_update H h c) ds (hasher H)) =
           ContentHash_of H (concat cs)"
  using assms by (simp add: hasher_stream)

theorem hasher_chunking_witness:
  "hasher_finalize ref_hash (fold (\<lambda>c h. hasher_update ref_hash h c) [[1, 2], [3]] (hasher ref_hash)) =
     ContentHash_of ref_hash [1, 2, 3]"
  using hasher_chunking [OF ref_hash_ok, of "[[1, 2], [3]]" "[[1], [2, 3]]"] by simp

section \<open>The diff\<close>

lemma part_delta_iff:
  "c \<in> set (part_delta t ent dp) \<longleftrightarrow>
     slot_of t ent (p_id dp) = None \<and> c = part_change ent Added dp \<or>
     (\<exists>h. slot_of t ent (p_id dp) = Some h \<and> h \<noteq> p_content dp \<and> c = part_change ent Changed dp)"
  by (auto simp: part_delta_def split: option.splits)

lemma removals_iff:
  "c \<in> set (removals ent obs des) \<longleftrightarrow>
     (\<exists>op \<in> set obs. p_id op \<notin> p_id ` set des \<and> c = part_change ent Removed op)"
  by (auto simp: removals_def)

lemma diff_desired_side_iff:
  assumes "bt_wf (entities observed)"
  shows "c \<in> set (removals path (e_parts (case bt_get (entities observed) path of
            Some e \<Rightarrow> e | None \<Rightarrow> Entity_default)) des) \<longleftrightarrow>
         (\<exists>obs op. (path, obs) \<in> set (entities observed) \<and> op \<in> set (e_parts obs) \<and>
            p_id op \<notin> p_id ` set des \<and> c = part_change path Removed op)"
  unfolding btm.get_entries [OF assms, symmetric]
  by (cases "bt_get (entities observed) path") (auto simp: removals_iff Entity_default_def)

lemma diff_parts_exact_iff_aux:
  assumes "bt_wf (entities observed)" and "bt_wf (entities desired)"
  shows "c \<in> set (td_parts (diff observed desired)) \<longleftrightarrow>
     (\<exists>ent des dp. (ent, des) \<in> set (entities desired) \<and> dp \<in> set (e_parts des) \<and>
        (slot_of observed ent (p_id dp) = None \<and> c = part_change ent Added dp \<or>
         (\<exists>h. slot_of observed ent (p_id dp) = Some h \<and> h \<noteq> p_content dp \<and>
              c = part_change ent Changed dp))) \<or>
     (\<exists>ent obs op. (ent, obs) \<in> set (entities observed) \<and> op \<in> set (e_parts obs) \<and>
        slot_of desired ent (p_id op) = None \<and> c = part_change ent Removed op)"
    (is "_ \<longleftrightarrow> ?D \<or> ?R")
proof -
  have slotD: "slot_of desired ent i = None \<longleftrightarrow>
      (\<forall>des. (ent, des) \<in> set (entities desired) \<longrightarrow> i \<notin> p_id ` set (e_parts des))" for ent i
    unfolding btm.get_entries [OF assms(2), symmetric]
    by (cases "bt_get (entities desired) ent") (auto simp: slot_of_def slot_None_iff)
  have uniq: "(ent, d) \<in> set (entities desired) \<Longrightarrow> (ent, d') \<in> set (entities desired) \<Longrightarrow> d = d'"
    for ent d d'
    using btm.get_entries [OF assms(2)] by (metis option.inject)
  have R: "?R \<longleftrightarrow>
     (\<exists>ent des obs op. (ent, des) \<in> set (entities desired) \<and> (ent, obs) \<in> set (entities observed) \<and>
        op \<in> set (e_parts obs) \<and> p_id op \<notin> p_id ` set (e_parts des) \<and> c = part_change ent Removed op) \<or>
     (\<exists>ent obs op. (ent, obs) \<in> set (entities observed) \<and> op \<in> set (e_parts obs) \<and>
        ent \<notin> fst ` set (entities desired) \<and> c = part_change ent Removed op)" (is "_ \<longleftrightarrow> ?R1 \<or> ?R2")
  proof -
    have keys: "ent \<in> fst ` set (entities desired) \<longleftrightarrow> (\<exists>d. (ent, d) \<in> set (entities desired))" for ent
      by force
    show ?thesis unfolding slotD keys using uniq by blast
  qed
  have main: "c \<in> set (td_parts (diff observed desired)) \<longleftrightarrow> ?D \<or> ?R1 \<or> ?R2"
  proof -
    let ?obs = "\<lambda>ent. e_parts (case bt_get (entities observed) ent of
        Some e \<Rightarrow> e | None \<Rightarrow> Entity_default)"
    have "c \<in> set (td_parts (diff observed desired)) \<longleftrightarrow>
      (\<exists>ent des. (ent, des) \<in> set (entities desired) \<and>
         ((\<exists>dp \<in> set (e_parts des). c \<in> set (part_delta observed ent dp)) \<or>
          c \<in> set (removals ent (?obs ent) (e_parts des)))) \<or>
      (\<exists>ent e. (ent, e) \<in> set (entities observed) \<and> ent \<notin> fst ` set (entities desired) \<and>
         c \<in> set (removals ent (e_parts e) []))"
      by (auto simp: diff_closed bt_contains_key_iff)
    then show ?thesis
      unfolding part_delta_iff diff_desired_side_iff [OF assms(1)]
      unfolding removals_iff by (simp only: list.set image_empty empty_iff simp_thms) blast
  qed
  show ?thesis unfolding R by (rule main)
qed

text \<open>C21. The part changes \<open>diff\<close> reports are exactly: an \<open>Added\<close> for every desired part whose
  slot is empty on the observed entity, a \<open>Changed\<close> for every desired part whose slot holds
  other content, and a \<open>Removed\<close> for every observed part whose id the desired entity does not
  have (every part of an entity that is not desired at all).\<close>

theorem diff_parts_exact:
  assumes "bt_wf (entities observed)" and "bt_wf (entities desired)"
  shows "c \<in> set (td_parts (diff observed desired)) \<longleftrightarrow>
     (\<exists>ent des dp. (ent, des) \<in> set (entities desired) \<and> dp \<in> set (e_parts des) \<and>
        (slot_of observed ent (p_id dp) = None \<and> c = part_change ent Added dp \<or>
         (\<exists>h. slot_of observed ent (p_id dp) = Some h \<and> h \<noteq> p_content dp \<and>
              c = part_change ent Changed dp))) \<or>
     (\<exists>ent obs op. (ent, obs) \<in> set (entities observed) \<and> op \<in> set (e_parts obs) \<and>
        slot_of desired ent (p_id op) = None \<and> c = part_change ent Removed op)"
  using assms by (rule diff_parts_exact_iff_aux)

theorem diff_parts_exact_witness:
  "part_change ''vm1'' Changed (ex_part ''kernel'' 3) \<in> set (td_parts (diff ex_observed ex_desired))
   \<and> bt_wf (entities ex_observed) \<and> bt_wf (entities ex_desired)"
proof -
  have wf: "bt_wf (entities ex_observed)" "bt_wf (entities ex_desired)"
    using ex_trees_ok by (simp_all add: tree_ok_wf)
  have "slot_of ex_observed ''vm1'' (p_id (ex_part ''kernel'' 3)) = Some (ex_hash 1)"
    and "ex_hash 1 \<noteq> p_content (ex_part ''kernel'' 3)"
    and "(''vm1'', ex_entity [ex_part ''kernel'' 3, ex_part ''rootfs'' 2, ex_part ''policy'' 4])
           \<in> set (entities ex_desired)"
    by (simp_all add: ex_tree_simps slot_of_def slot_def)
  then show ?thesis
    using wf diff_parts_exact [OF wf] by (force simp: ex_entity_def)
qed

lemma tree_slot_desired:
  assumes "tree_ok t" and "(ent, e) \<in> set (entities t)" and "p \<in> set (e_parts e)"
  shows "slot_of t ent (p_id p) = Some (p_content p)"
  using assms by (simp add: slot_of_simps(2) [of t ent e] tree_ok_get slot_distinct tree_ok_distinct)

lemma tree_slot_part:
  assumes "tree_ok t" and "slot_of t ent i = Some h"
  shows "\<exists>e p. (ent, e) \<in> set (entities t) \<and> p \<in> set (e_parts e) \<and> p_id p = i \<and> p_content p = h"
  using assms by (auto simp: slot_of_def bind_eq_Some_conv tree_ok_get dest!: slot_SomeD)

lemma diff_part_differs:
  assumes "tree_ok observed" and "tree_ok desired"
    and "c \<in> set (td_parts (diff observed desired))"
  shows "\<exists>i. slot_of observed (pc_entity c) i \<noteq> slot_of desired (pc_entity c) i"
proof -
  from assms(3) consider (des) e d dp where "(e, d) \<in> set (entities desired)" "dp \<in> set (e_parts d)"
      "pc_entity c = e" "slot_of observed e (p_id dp) \<noteq> Some (p_content dp)"
    | (obs) e ob op where "(e, ob) \<in> set (entities observed)" "op \<in> set (e_parts ob)"
      "slot_of desired e (p_id op) = None" "pc_entity c = e"
    unfolding diff_parts_exact_iff_aux [OF assms(1,2) [THEN tree_ok_wf]] by (fastforce simp: part_change_def)
  then show ?thesis
    by cases (use tree_slot_desired [OF assms(1)] tree_slot_desired [OF assms(2)] in \<open>metis option.distinct(1)\<close>)+
qed

lemma differs_diff_part:
  assumes "tree_ok observed" and "tree_ok desired" and "slot_of observed ent i \<noteq> slot_of desired ent i"
  shows "\<exists>c \<in> set (td_parts (diff observed desired)). pc_entity c = ent"
proof (cases "slot_of desired ent i")
  case None
  with assms(3) tree_slot_part [OF assms(1)] obtain obs op where "(ent, obs) \<in> set (entities observed)"
    "op \<in> set (e_parts obs)" "p_id op = i" by fastforce
  with None show ?thesis
    unfolding Bex_def diff_parts_exact_iff_aux [OF assms(1,2) [THEN tree_ok_wf]]
    by (intro exI [of _ "part_change ent Removed op"] conjI disjI2) (auto simp: part_change_def)
next
  case (Some h)
  with tree_slot_part [OF assms(2)] obtain des dp where
    dp: "(ent, des) \<in> set (entities desired)" "dp \<in> set (e_parts des)" "p_id dp = i" "p_content dp = h"
    by blast
  with Some assms(3) have "\<exists>k. k \<in> set (part_delta observed ent dp) \<and> pc_entity k = ent"
    by (auto simp: part_delta_def part_change_def split: option.splits)
  with dp(1,2) show ?thesis
    by (fastforce simp: diff_closed)
qed

lemma diff_td_entity_desired:
  assumes "tree_ok observed" and "tree_ok desired"
  shows "(\<exists>c \<in> set (td_parts (diff observed desired)). pc_entity c = ent) \<longleftrightarrow>
         (\<exists>i. slot_of observed ent i \<noteq> slot_of desired ent i)"
  using diff_part_differs [OF assms] differs_diff_part [OF assms] by blast

lemma diff_added_set:
  "set (entities_added (diff o' d)) = fst ` set (entities d) - fst ` set (entities o')"
  by (auto simp: diff_closed bt_contains_key_iff image_iff)

lemma diff_removed_set:
  "set (entities_removed (diff o' d)) = fst ` set (entities o') - fst ` set (entities d)"
  by (auto simp: diff_closed bt_contains_key_iff image_iff)

text \<open>On trees without duplicate part ids, \<open>diff\<close> is empty exactly when the two trees have
  the same entities and every slot of every entity holds the same content: kinds, versions
  and administrative state do not count.\<close>

theorem diff_empty_exact:
  assumes ok: "tree_ok observed" "tree_ok desired"
  shows "td_is_empty (diff observed desired) \<longleftrightarrow>
         fst ` set (entities observed) = fst ` set (entities desired) \<and>
         (\<forall>ent i. slot_of observed ent i = slot_of desired ent i)"
    (is "?empty \<longleftrightarrow> ?keys \<and> ?slots")
proof
  assume e: ?empty
  then have keys: ?keys
    using diff_added_set [of observed desired] diff_removed_set [of observed desired]
    by (auto simp: td_is_empty_def)
  moreover have ?slots
    using e differs_diff_part [OF ok] by (fastforce simp: td_is_empty_def)
  ultimately show "?keys \<and> ?slots" ..
next
  assume ks: "?keys \<and> ?slots"
  have "c \<notin> set (td_parts (diff observed desired))" for c
  proof
    assume c: "c \<in> set (td_parts (diff observed desired))"
    from diff_part_differs [OF ok c] ks show False by blast
  qed
  then have "td_parts (diff observed desired) = []"
    by (metis list.set_intros(1) neq_Nil_conv)
  with ks show ?empty
    using diff_added_set [of observed desired] diff_removed_set [of observed desired]
    by (auto simp: td_is_empty_def)
qed

theorem diff_empty_exact_witness:
  "td_is_empty (diff ex_observed ex_observed) \<and> \<not> td_is_empty (diff ex_observed ex_desired)"
proof
  show "td_is_empty (diff ex_observed ex_observed)"
    using diff_empty_exact [OF ex_trees_ok(1) ex_trees_ok(1)] by simp
  have "slot_of ex_observed ''vm1'' ''kernel'' \<noteq> slot_of ex_desired ''vm1'' ''kernel''"
    by (simp add: slot_of_def slot_def ex_tree_simps)
  then show "\<not> td_is_empty (diff ex_observed ex_desired)"
    using diff_empty_exact [OF ex_trees_ok] by blast
qed

section \<open>The flash plan\<close>

lemma planned_ships_delta:
  "map (\<lambda>p. (pp_entity p, pp_part p, pp_kind p))
     (filter (\<lambda>p. pp_plan p = Ship) (plan_entity t (path, d))) =
   map (\<lambda>c. (pc_entity c, pc_part c, pc_kind c)) (concat (map (part_delta t path) (e_parts d)))"
proof -
  have "map (\<lambda>p. (pp_entity p, pp_part p, pp_kind p)) (filter (\<lambda>p. pp_plan p = Ship)
      (map (\<lambda>p. \<lparr>pp_entity = path, pp_part = p_id p, pp_kind = p_kind p, pp_content = p_content p,
      pp_plan = (if slot_of t path (p_id p) = Some (p_content p) then Reuse else Ship)\<rparr>) ps)) =
    map (\<lambda>c. (pc_entity c, pc_part c, pc_kind c)) (concat (map (part_delta t path) ps))" for ps
    by (induction ps) (auto simp: part_delta_def part_change_def split: option.splits)
  then show ?thesis by (simp add: plan_part_slot)
qed

lemma part_delta_not_removed: "filter (\<lambda>c. pc_change c \<noteq> Removed) (part_delta t ent p) = part_delta t ent p"
  by (auto simp: part_delta_def part_change_def split: option.splits)

lemma removals_removed: "filter (\<lambda>c. pc_change c \<noteq> Removed) (removals ent o' d) = []"
  by (auto simp: removals_def part_change_def filter_empty_conv)

text \<open>The parts the flash plan ships are, in order, exactly the part-level additions and
  changes the diff reports: the two views never disagree, duplicates included.\<close>

theorem flash_plan_ships_diff:
  "map (\<lambda>p. (pp_entity p, pp_part p, pp_kind p)) (fp_ships (flash_plan observed desired)) =
   map (\<lambda>c. (pc_entity c, pc_part c, pc_kind c))
     (filter (\<lambda>c. pc_change c \<noteq> Removed) (td_parts (diff observed desired)))"
proof -
  have tail: "filter (\<lambda>c. pc_change c \<noteq> Removed) (concat (map (\<lambda>(path, e). removals path (e_parts e) []) es)) = []"
    for es :: "(string \<times> Entity) list"
    by (induction es) (auto simp: removals_removed)
  have "map (\<lambda>p. (pp_entity p, pp_part p, pp_kind p))
          (filter (\<lambda>p. pp_plan p = Ship) (concat (map (plan_entity observed) es))) =
        map (\<lambda>c. (pc_entity c, pc_part c, pc_kind c)) (filter (\<lambda>c. pc_change c \<noteq> Removed)
          (concat (map (\<lambda>(path, d). concat (map (part_delta observed path) (e_parts d)) @
            removals path (e_parts (case bt_get (entities observed) path of
              Some e \<Rightarrow> e | None \<Rightarrow> Entity_default)) (e_parts d)) es)))" for es
  proof (induction es)
    case (Cons pe es)
    then show ?case
      by (cases pe) (simp add: planned_ships_delta filter_concat_map part_delta_not_removed
          removals_removed)
  qed simp
  then show ?thesis
    by (simp add: fp_ships_def flash_plan_closed diff_closed tail)
qed

text \<open>
  What the device makes of a plan (\<open>seed_target_from_active\<close>, as the comments of
  \<open>PartPlan\<close> describe it): a slot the update carries holds the carried content, every other
  slot of the component is copied from the component's own active bank.
\<close>

definition target_slot :: "Tree \<Rightarrow> FlashPlan \<Rightarrow> string \<Rightarrow> string \<Rightarrow> ContentHash option" where
  "target_slot observed pl ent i =
     (case map_of (rev (map (\<lambda>p. ((pp_entity p, pp_part p), pp_content p)) (fp_ships pl))) (ent, i) of
        Some h \<Rightarrow> Some h
      | None \<Rightarrow> slot_of observed ent i)"

lemma planned_iff:
  assumes "tree_ok desired"
  shows "p \<in> set (fp_parts (flash_plan observed desired)) \<longleftrightarrow>
     (\<exists>des q. bt_get (entities desired) (pp_entity p) = Some des \<and> q \<in> set (e_parts des) \<and>
        p = \<lparr>pp_entity = pp_entity p, pp_part = p_id q, pp_kind = p_kind q, pp_content = p_content q,
          pp_plan = (if slot_of observed (pp_entity p) (p_id q) = Some (p_content q)
                     then Reuse else Ship)\<rparr>)"
  unfolding flash_plan_closed tree_ok_get [OF assms]
  by (force simp: plan_part_slot image_iff)

lemma planned_content:
  assumes "tree_ok desired" and "p \<in> set (fp_parts (flash_plan observed desired))"
  shows "slot_of desired (pp_entity p) (pp_part p) = Some (pp_content p)"
proof -
  from assms obtain des q where q: "bt_get (entities desired) (pp_entity p) = Some des"
      "q \<in> set (e_parts des)" "pp_part p = p_id q" "pp_content p = p_content q"
    unfolding planned_iff [OF assms(1)]
    by (metis (no_types, lifting) PlannedPart.select_convs(2,4))
  then have "slot (e_parts des) (p_id q) = Some (p_content q)"
    using assms(1) by (intro slot_distinct) (auto simp: tree_ok_get intro: tree_ok_distinct)
  with q show ?thesis by (simp add: slot_of_simps(2))
qed

lemma slot_planned:
  assumes "tree_ok desired" and "slot_of desired ent i = Some h"
  shows "\<exists>k. \<lparr>pp_entity = ent, pp_part = i, pp_kind = k, pp_content = h,
          pp_plan = (if slot_of observed ent i = Some h then Reuse else Ship)\<rparr>
           \<in> set (fp_parts (flash_plan observed desired))"
proof -
  from assms(2) obtain des where des: "bt_get (entities desired) ent = Some des"
      "slot (e_parts des) i = Some h"
    by (auto simp: slot_of_def bind_eq_Some_conv)
  then obtain q where "q \<in> set (e_parts des)" "p_id q = i" "p_content q = h"
    by (auto dest: slot_SomeD)
  with des(1) show ?thesis
    unfolding planned_iff [OF assms(1)] by (intro exI [of _ "p_kind q"]) fastforce
qed

text \<open>C12. Executing the plan reaches the desired state: after the shipped parts are written and
  the rest is copied from the component's own active bank, every slot the desired tree names
  holds the desired content, and a slot the desired tree does not name keeps what it had.\<close>

theorem flash_plan_realises:
  assumes "tree_ok desired"
  shows "target_slot observed (flash_plan observed desired) ent i =
         (case slot_of desired ent i of Some h \<Rightarrow> Some h | None \<Rightarrow> slot_of observed ent i)"
proof -
  let ?ships = "map (\<lambda>p. ((pp_entity p, pp_part p), pp_content p))
      (fp_ships (flash_plan observed desired))"
  have sound: "map_of (rev ?ships) (ent, i) = Some h \<Longrightarrow> slot_of desired ent i = Some h" for h
    using planned_content [OF assms] by (force simp: fp_ships_def dest!: map_of_SomeD)
  show ?thesis
  proof (cases "map_of (rev ?ships) (ent, i)")
    case None
    have "slot_of observed ent i = Some h" if "slot_of desired ent i = Some h" for h
    proof (rule ccontr)
      assume "slot_of observed ent i \<noteq> Some h"
      with slot_planned [OF assms that, of observed] obtain k where
        "\<lparr>pp_entity = ent, pp_part = i, pp_kind = k, pp_content = h, pp_plan = Ship\<rparr>
           \<in> set (fp_parts (flash_plan observed desired))" by (auto split: if_splits)
      with None show False
        by (force simp: map_of_eq_None_iff fp_ships_def)
    qed
    with None show ?thesis
      by (simp add: target_slot_def split: option.split)
  next
    case (Some h)
    with sound show ?thesis by (simp add: target_slot_def)
  qed
qed

theorem flash_plan_realises_witness:
  "target_slot ex_observed (flash_plan ex_observed ex_desired) ''vm1'' ''rootfs'' = Some (ex_hash 2) \<and>
   target_slot ex_observed (flash_plan ex_observed ex_desired) ''vm1'' ''kernel'' = Some (ex_hash 3)"
  using flash_plan_realises [OF ex_trees_ok(2)]
  by (simp add: slot_of_def slot_def ex_tree_simps)

text \<open>There is no data flow between components: what is planned for a component depends
  only on that component's own active bank, whatever the other components hold.\<close>

theorem flash_plan_no_cross_component:
  assumes "bt_get (entities o1) ent = bt_get (entities o2) ent"
  shows "filter (\<lambda>p. pp_entity p = ent) (fp_parts (flash_plan o1 desired)) =
         filter (\<lambda>p. pp_entity p = ent) (fp_parts (flash_plan o2 desired))"
proof -
  have "filter (\<lambda>p. pp_entity p = ent) (plan_entity o1 pe) =
        filter (\<lambda>p. pp_entity p = ent) (plan_entity o2 pe)" for pe
    using assms
    by (cases pe) (simp add: plan_part_slot slot_of_def filter_map comp_def)
  then show ?thesis
    by (simp add: flash_plan_closed filter_concat_map)
qed

theorem flash_plan_no_cross_component_witness:
  "filter (\<lambda>p. pp_entity p = ''vm2'') (fp_parts (flash_plan ex_observed
     \<lparr>entities = [(''vm2'', ex_entity [ex_part ''rootfs'' 2])]\<rparr>)) =
   [\<lparr>pp_entity = ''vm2'', pp_part = ''rootfs'', pp_kind = ''file'', pp_content = ex_hash 2,
     pp_plan = Ship\<rparr>]"
proof -
  have "bt_get (entities ex_observed) ''vm2'' = bt_get (entities Tree_default) ''vm2''"
    by (simp add: ex_observed_def Tree_default_def)
  then show ?thesis
    unfolding flash_plan_no_cross_component [OF \<open>_ = _\<close>]
    by (simp add: flash_plan_closed plan_part_slot slot_of_def Tree_default_def ex_entity_def
        ex_part_def Entity_default_def)
qed

section \<open>The assessment\<close>

text \<open>
  When a desired component needs work: a component to be disabled, when the device reports
  it enabled; a component to be enabled, when the device does not have it, reports it
  disabled, or holds other content in some slot.
\<close>

definition needs_work :: "Tree \<Rightarrow> Tree \<Rightarrow> string \<Rightarrow> bool" where
  "needs_work observed desired i \<longleftrightarrow>
     (\<exists>want. bt_get (entities desired) i = Some want \<and>
        (if e_disabled want then observed_admin observed i = Some False
         else bt_get (entities observed) i = None \<or> observed_admin observed i = Some True \<or>
              (\<exists>j. slot_of observed i j \<noteq> slot_of desired i j)))"

lemma fold_assess_added:
  "set (fold (assess_added desired) xs acc) =
   set acc \<union> {i \<in> set xs. \<exists>e. bt_get (entities desired) i = Some e \<and> \<not> e_disabled e}"
proof (induction xs arbitrary: acc)
  case (Cons x xs)
  have "set (assess_added desired x acc) =
      set acc \<union> {i. i = x \<and> (\<exists>e. bt_get (entities desired) i = Some e \<and> \<not> e_disabled e)}"
    by (auto simp: assess_added_def set_bs_insert split: option.splits)
  with Cons show ?case by auto
qed simp

lemma fold_assess_part:
  "set (fold (assess_part observed desired) cs acc) =
   set acc \<union> {i. \<exists>c \<in> set cs. pc_entity c = i \<and> (\<exists>e. bt_get (entities desired) i = Some e \<and>
      (\<not> e_disabled e \<or> observed_admin observed i = Some False))}"
proof (induction cs arbitrary: acc)
  case (Cons c cs)
  have "set (assess_part observed desired c acc) =
      set acc \<union> {i. pc_entity c = i \<and> (\<exists>e. bt_get (entities desired) i = Some e \<and>
      (\<not> e_disabled e \<or> observed_admin observed i = Some False))}"
    by (auto simp: assess_part_def set_bs_insert Let_def split: option.splits)
  with Cons show ?case by auto
qed simp

lemma fold_assess_admin:
  "set (fold (assess_admin observed) es acc) =
   set acc \<union> {i. \<exists>e. (i, e) \<in> set es \<and>
      (e_disabled e \<and> observed_admin observed i = Some False \<or>
       \<not> e_disabled e \<and> observed_admin observed i = Some True)}"
proof (induction es arbitrary: acc)
  case (Cons pe es)
  have "set (assess_admin observed pe acc) =
      set acc \<union> {i. \<exists>e. (i, e) = pe \<and>
      (e_disabled e \<and> observed_admin observed i = Some False \<or>
       \<not> e_disabled e \<and> observed_admin observed i = Some True)}"
    by (cases pe) (auto simp: assess_admin_def set_bs_insert Let_def)
  with Cons show ?case by auto
qed simp

lemma sorted_fold_assess:
  assumes "sorted_wrt (<) acc"
  shows "sorted_wrt (<) (fold (assess_added d) xs acc)"
    and "sorted_wrt (<) (fold (assess_part o' d) cs acc)"
    and "sorted_wrt (<) (fold (assess_admin o') es acc)"
proof -
  have fold_sorted: "sorted_wrt (<) (fold f xs a)"
    if "sorted_wrt (<) a" and "\<And>x s. sorted_wrt (<) s \<Longrightarrow> sorted_wrt (<) (f x s)"
    for f and xs :: "'x list" and a :: "string list"
    using that by (induction xs arbitrary: a) auto
  show "sorted_wrt (<) (fold (assess_added d) xs acc)"
    using assms by (rule fold_sorted) (auto simp: assess_added_def sorted_bs_insert split: option.split)
  show "sorted_wrt (<) (fold (assess_part o' d) cs acc)"
    using assms
    by (rule fold_sorted) (auto simp: assess_part_def sorted_bs_insert Let_def split: option.split)
  show "sorted_wrt (<) (fold (assess_admin o') es acc)"
    using assms by (rule fold_sorted) (auto simp: assess_admin_def sorted_bs_insert Let_def)
qed

lemma assess_components_set:
  assumes ok: "tree_ok observed" "tree_ok desired"
  shows "i \<in> set (ca_components (assess_tree observed desired)) \<longleftrightarrow> needs_work observed desired i"
proof (cases "bt_get (entities desired) i")
  case None
  then have "i \<notin> fst ` set (entities desired)"
    by (simp add: map_of_eq_None_iff)
  with None show ?thesis
    by (auto simp: assess_tree_def Let_def fold_assess_added fold_assess_part fold_assess_admin
        needs_work_def intro: rev_image_eqI)
next
  case (Some want)
  then have mem: "(i, want) \<in> set (entities desired)"
    by (simp add: map_of_SomeD)
  have uniq: "(i, e) \<in> set (entities desired) \<longleftrightarrow> e = want" for e
    using Some ok(2) by (auto simp: tree_ok_get [symmetric])
  have added: "i \<in> set (entities_added (diff observed desired)) \<longleftrightarrow>
      bt_get (entities observed) i = None"
    using mem by (force simp: diff_added_set map_of_eq_None_iff)
  note parts = diff_td_entity_desired [OF ok, of i]
  show ?thesis
    by (auto simp: assess_tree_def Let_def fold_assess_added fold_assess_part fold_assess_admin
        needs_work_def Some uniq added parts [unfolded Bex_def] Bex_def)
qed

lemma assess_components_sorted: "sorted_wrt (<) (ca_components (assess_tree observed desired))"
  unfolding assess_tree_def Let_def
  by (simp add: sorted_fold_assess)

text \<open>C22. \<open>assess_tree\<close> lists, in ascending order and once each, exactly the desired components
  that need work: one to be disabled that the device reports enabled, or one to be enabled
  that is absent, reported disabled, or differs in some slot. A component only on the
  device is never listed.\<close>

theorem assess_components_exact:
  assumes "tree_ok observed" and "tree_ok desired"
  shows "sorted_wrt (<) (ca_components (assess_tree observed desired)) \<and>
         (i \<in> set (ca_components (assess_tree observed desired)) \<longleftrightarrow> needs_work observed desired i)"
  using assms by (simp add: assess_components_sorted assess_components_set)

theorem assess_components_exact_witness:
  "''vm1'' \<in> set (ca_components (assess_tree ex_observed ex_desired))"
proof -
  have "slot_of ex_observed ''vm1'' ''kernel'' \<noteq> slot_of ex_desired ''vm1'' ''kernel''"
    by (simp add: slot_of_def slot_def ex_tree_simps)
  then have "needs_work ex_observed ex_desired ''vm1''"
    unfolding needs_work_def by (auto simp: ex_desired_def ex_entity_def Entity_default_def)
  then show ?thesis
    using assess_components_exact [OF ex_trees_ok] by blast
qed

text \<open>C23. The outcome is determined by the components that need work: converged exactly when
  there is none (ignoring device-only entities when there are some), deferred exactly when
  there are some and the device advertises none of them, actionable otherwise.\<close>

theorem assess_outcome_exact:
  assumes "tree_ok observed" and "tree_ok desired"
  shows "outcome (assess_tree observed desired) =
     (if \<not> (\<exists>i. needs_work observed desired i) then
        (if fst ` set (entities observed) \<subseteq> fst ` set (entities desired)
         then Converged else ConvergedIgnoringDeviceOnly)
      else if \<forall>i. needs_work observed desired i \<longrightarrow> bt_get (entities observed) i = None
      then Deferred else Actionable)"
proof -
  let ?a = "assess_tree observed desired"
  have empty: "ca_components ?a = [] \<longleftrightarrow> \<not> (\<exists>i. needs_work observed desired i)"
    using assess_components_set [OF assms] by (metis equals0D last_in_set set_empty)
  have removed: "entities_removed (diff observed desired) = [] \<longleftrightarrow>
      fst ` set (entities observed) \<subseteq> fst ` set (entities desired)"
    using diff_removed_set [of observed desired] by (auto simp: set_empty [symmetric] simp del: set_empty)
  have absent: "list_all (\<lambda>i. \<not> bt_contains_key (entities observed) i) (ca_components ?a) \<longleftrightarrow>
      (\<forall>i. needs_work observed desired i \<longrightarrow> bt_get (entities observed) i = None)"
    using assess_components_set [OF assms] by (auto simp: list_all_iff bt_contains_key_def)
  have "outcome ?a = (if ca_components ?a = [] then
           (if entities_removed (diff observed desired) = [] then Converged
            else ConvergedIgnoringDeviceOnly)
         else if list_all (\<lambda>i. \<not> bt_contains_key (entities observed) i) (ca_components ?a)
         then Deferred else Actionable)"
    by (simp add: assess_tree_def Let_def)
  then show ?thesis
    unfolding empty removed absent .
qed

theorem assess_outcome_exact_witness:
  "outcome (assess_tree ex_observed ex_observed) = Converged"
proof -
  have "\<not> needs_work ex_observed ex_observed i" for i
    by (auto simp: needs_work_def observed_admin_def ex_observed_def ex_entity_def
        Entity_default_def split: if_splits)
  then show ?thesis
    using assess_outcome_exact [OF ex_trees_ok(1) ex_trees_ok(1)] by simp
qed

end
