(* ===== verification/Content_Props.thy ===== *)
theory Content_Props
  imports Content Reference_Crates
begin

text \<open>
  Correctness of the content core: what the filesystem store keeps, the contract of the
  artifact index (the locale \<open>artifact_index\<close>, discharged for the Postgres and for the
  in-memory backend), and what the streaming publish leaves behind on success and on every
  error path.
\<close>

section \<open>Laws of the compressor and of the AEAD backend\<close>

fun zstd_run :: "'z zstd_api \<Rightarrow> 'z \<Rightarrow> bytes list \<Rightarrow> string + ('z \<times> bytes)" where
  "zstd_run Z z [] = Inr (z, [])"
| "zstd_run Z z (c # cs) =
     try_bind (zstd_write Z z c) (\<lambda>(z1, out).
     try_bind (zstd_run Z z1 cs) (\<lambda>(z2, outs). Inr (z2, out @ outs)))"

fun aead_run :: "'s aead_api \<Rightarrow> 's \<Rightarrow> bytes list \<Rightarrow> string + ('s \<times> bytes list)" where
  "aead_run B s [] = Inr (s, [])"
| "aead_run B s (c # cs) =
     try_bind (aead_update B s c) (\<lambda>(s1, out).
     try_bind (aead_run B s1 cs) (\<lambda>(s2, outs). Inr (s2, out # outs)))"

text \<open>zstd: decoding the frame an encoder produced gives back what was written to it.
  AES-GCM: decrypting the ciphertext chunks followed by the tag, under the same key and
  nonce, gives back the plaintext chunks; the key and the nonce have the length of the
  buffers they are drawn into.\<close>

definition zstd_ok :: "'z zstd_api \<Rightarrow> bool" where
  "zstd_ok Z \<longleftrightarrow>
     (\<forall>z0 cs z out tail. zstd_new Z = Inr z0 \<longrightarrow> zstd_run Z z0 cs = Inr (z, out) \<longrightarrow>
        zstd_finish Z z = Inr tail \<longrightarrow> zstd_decode Z (out @ tail) = Some (concat cs))"

definition aead_ok :: "'s aead_api \<Rightarrow> bool" where
  "aead_ok B \<longleftrightarrow>
     (\<forall>k n s0 ps s cts tag. aes_gcm_encrypt_stream B k n = Inr s0 \<longrightarrow>
        aead_run B s0 ps = Inr (s, cts) \<longrightarrow> aead_finalize B s = Inr tag \<longrightarrow>
        aead_decrypt B k n (concat cts @ tag) = Some (concat ps)) \<and>
     (\<forall>k. random_cek B = Inr k \<longrightarrow> length k = CEK_LEN) \<and>
     (\<forall>n. random_nonce B = Inr n \<longrightarrow> length n = NONCE_LEN)"

lemma zstd_run_snoc:
  "zstd_run Z z (cs @ [c]) =
     try_bind (zstd_run Z z cs) (\<lambda>(z1, outs).
     try_bind (zstd_write Z z1 c) (\<lambda>(z2, out). Inr (z2, outs @ out)))"
proof (induction cs arbitrary: z)
  case Nil
  show ?case by (cases "zstd_write Z z c") auto
next
  case (Cons d cs)
  show ?case
  proof (cases "zstd_write Z z d")
    case (Inr r)
    obtain z1 o1 where r: "r = (z1, o1)" by (cases r)
    show ?thesis
    proof (cases "zstd_run Z z1 cs")
      case (Inr q)
      with r \<open>zstd_write Z z d = Inr r\<close> Cons [of z1] show ?thesis
        by (cases q; cases "zstd_write Z (fst q) c") auto
    qed (use r Inr Cons [of z1] in simp)
  qed simp
qed

lemma aead_run_snoc:
  "aead_run B s (cs @ [c]) =
     try_bind (aead_run B s cs) (\<lambda>(s1, outs).
     try_bind (aead_update B s1 c) (\<lambda>(s2, out). Inr (s2, outs @ [out])))"
proof (induction cs arbitrary: s)
  case Nil
  show ?case by (cases "aead_update B s c") auto
next
  case (Cons d cs)
  show ?case
  proof (cases "aead_update B s d")
    case (Inr r)
    obtain s1 o1 where r: "r = (s1, o1)" by (cases r)
    show ?thesis
    proof (cases "aead_run B s1 cs")
      case (Inr q)
      with r \<open>aead_update B s d = Inr r\<close> Cons [of s1] show ?thesis
        by (cases q; cases "aead_update B (fst q) c") auto
    qed (use r Inr Cons [of s1] in simp)
  qed simp
qed

section \<open>What the sink touches\<close>

text \<open>\<open>only_at t fs fs'\<close>: the step from \<open>fs\<close> to \<open>fs'\<close> changed at most the file \<open>t\<close>.\<close>

definition only_at :: "string \<Rightarrow> blob_fs \<Rightarrow> blob_fs \<Rightarrow> bool" where
  "only_at t fs fs' \<longleftrightarrow> (\<forall>n. n \<noteq> t \<longrightarrow> fs_files fs' n = fs_files fs n)"

lemma only_at_refl [simp]: "only_at t fs fs"
  by (simp add: only_at_def)

lemma only_at_trans: "only_at t a b \<Longrightarrow> only_at t b c \<Longrightarrow> only_at t a c"
  by (simp add: only_at_def)

lemma only_at_files: "only_at t fs fs' \<Longrightarrow> n \<noteq> t \<Longrightarrow> fs_files fs' n = fs_files fs n"
  by (simp add: only_at_def)

lemma only_at_write_all: "sink_write_all io fs sink b = (fs', r) \<Longrightarrow> only_at (sink_tmp sink) fs fs'"
  by (auto simp: sink_write_all_def only_at_def split: if_splits)

lemma write_all_ok:
  "sink_write_all io fs sink b = (fs', Inr u) \<Longrightarrow> fs_files fs (sink_tmp sink) = Some old \<Longrightarrow>
   fs_files fs' (sink_tmp sink) = Some (old @ b)"
  by (auto simp: sink_write_all_def split: if_splits)

lemma only_at_write_ciphertext:
  "write_ciphertext H B io sink c st = (fs', r) \<Longrightarrow> only_at (sink_tmp sink) (fst st) fs'"
  by (auto simp: write_ciphertext_def Let_def split: if_splits sum.splits prod.splits
      dest: only_at_write_all)

lemma only_at_publish_chunks:
  "publish_chunks H B Z io sink body st = (fs', r) \<Longrightarrow> only_at (sink_tmp sink) (fst st) fs'"
proof (induction H B Z io sink body st rule: publish_chunks.induct)
  case (3 H B Z io sink chunk rest st)
  then show ?case
    by (fastforce simp: Let_def split: sum.splits prod.splits
        dest: only_at_write_ciphertext intro: only_at_trans)
qed auto

lemma only_at_publish_finish:
  "publish_finish H B Z io sink st = (fs', r) \<Longrightarrow> only_at (sink_tmp sink) (fst st) fs'"
  by (auto simp: publish_finish_def split: sum.splits prod.splits
      dest!: only_at_write_ciphertext only_at_write_all intro: only_at_trans)

lemma only_at_remove: "only_at t fs (remove_file io fs t)"
  by (simp add: remove_file_def only_at_def)

lemma only_at_drop: "only_at (sink_tmp sink) fs (sink_drop io fs sink)"
  by (simp add: sink_drop_def only_at_remove)

lemma blobs_begin_ok:
  assumes "blobs_begin io fs = (fs', Inr sink)"
  shows "sink = \<lparr>sink_tmp = temp_name (fs_pid fs) (temp_seq fs), sink_file_open = True,
            sink_committed = False\<rparr>"
    and "fs_files fs' = (fs_files fs)(sink_tmp sink \<mapsto> [])"
  using assms by (auto simp: blobs_begin_def Let_def split: if_splits)

lemma blobs_begin_err:
  "blobs_begin io fs = (fs', Inl e) \<Longrightarrow> fs_files fs' = fs_files fs"
  by (auto simp: blobs_begin_def Let_def split: if_splits)

text \<open>A temporary name starts with a dot, a blob name consists of hex digits.\<close>

lemma temp_name_not_blob:
  "hash_api_ok H \<Longrightarrow> blob_path H h \<noteq> temp_name p s"
proof
  assume H: "hash_api_ok H" and eq: "blob_path H h = temp_name p s"
  have "CHR ''.'' \<in> set (temp_name p s)"
    by (simp add: temp_name_def)
  with eq hash_api_okD(5) [OF H, of "ch_bytes h"] show False
    unfolding blob_path_def by (auto simp: hex_digits_def)
qed

lemma blob_path_inj: "hash_api_ok H \<Longrightarrow> blob_path H g = blob_path H h \<longleftrightarrow> g = h"
  by (cases g; cases h) (simp add: blob_path_def hex_encode_inj)

section \<open>The state of a publish between two chunks\<close>

text \<open>
  \<open>pub_inv\<close> relates the running publish to the chunks read so far: the inner hasher and the
  size have seen all of them, the compressor has produced \<open>zs\<close>, the encryptor has been
  fed exactly \<open>zs\<close>, and the outer hasher and the temporary file hold its ciphertext.
\<close>

definition pub_inv ::
    "'h hash_api \<Rightarrow> 's aead_api \<Rightarrow> 'z zstd_api \<Rightarrow> string \<Rightarrow> 's StreamEncryptor \<Rightarrow> 'z
      \<Rightarrow> bytes list \<Rightarrow> bytes \<Rightarrow> bytes list \<Rightarrow> bytes list \<Rightarrow> blob_fs \<times> ('h, 's, 'z) publish_state \<Rightarrow> bool" where
  "pub_inv H B Z t enc0 z0 chunks zs fed cts st \<longleftrightarrow>
     ps_inner_h (snd st) = fold (\<lambda>c h. hasher_update H h c) chunks (hasher H) \<and>
     ps_size (snd st) = word_of_nat (length (concat chunks)) \<and>
     zstd_run Z z0 chunks = Inr (ps_zenc (snd st), zs) \<and>
     concat fed = zs \<and>
     enc_cek (ps_enc (snd st)) = enc_cek enc0 \<and> enc_nonce (ps_enc (snd st)) = enc_nonce enc0 \<and>
     aead_run B (enc_inner enc0) fed = Inr (enc_inner (ps_enc (snd st)), cts) \<and>
     ps_outer_h (snd st) = fold (\<lambda>c h. hasher_update H h c) cts (hasher H) \<and>
     fs_files (fst st) t = Some (concat cts)"

lemma enc_update_ok:
  "enc_update B enc c = Inr (enc', ct) \<Longrightarrow>
   aead_update B (enc_inner enc) c = Inr (enc_inner enc', ct) \<and>
   enc_cek enc' = enc_cek enc \<and> enc_nonce enc' = enc_nonce enc"
  by (auto simp: enc_update_def try_bind_Inr_iff)

text \<open>One round of the loop body after the compressor emitted \<open>new\<close>.\<close>

lemma write_ciphertext_inv:
  assumes w: "write_ciphertext H B io sink new (fs, ps) = (fs', Inr ps')"
    and enc: "enc_cek (ps_enc ps) = enc_cek enc0" "enc_nonce (ps_enc ps) = enc_nonce enc0"
    and run: "aead_run B (enc_inner enc0) fed = Inr (enc_inner (ps_enc ps), cts)"
    and outer: "ps_outer_h ps = fold (\<lambda>c h. hasher_update H h c) cts (hasher H)"
    and tmpf: "fs_files fs (sink_tmp sink) = Some (concat cts)"
  shows "\<exists>fed' cts'. concat fed' = concat fed @ new \<and>
     enc_cek (ps_enc ps') = enc_cek enc0 \<and> enc_nonce (ps_enc ps') = enc_nonce enc0 \<and>
     aead_run B (enc_inner enc0) fed' = Inr (enc_inner (ps_enc ps'), cts') \<and>
     ps_outer_h ps' = fold (\<lambda>c h. hasher_update H h c) cts' (hasher H) \<and>
     fs_files fs' (sink_tmp sink) = Some (concat cts') \<and>
     ps_inner_h ps' = ps_inner_h ps \<and> ps_size ps' = ps_size ps \<and> ps_zenc ps' = ps_zenc ps"
proof (cases "new = []")
  case True
  with assms show ?thesis
    by (intro exI [of _ fed] exI [of _ cts]) (auto simp: write_ciphertext_def)
next
  case False
  with w obtain enc ct where u: "enc_update B (ps_enc ps) new = Inr (enc, ct)"
    and wr: "sink_write_all io fs sink ct = (fs', Inr ())"
    and ps': "ps' = ps\<lparr>ps_enc := enc, ps_outer_h := hasher_update H (ps_outer_h ps) ct\<rparr>"
    by (auto simp: write_ciphertext_def Let_def split: sum.splits prod.splits)
  show ?thesis
    using enc_update_ok [OF u] write_all_ok [OF wr tmpf] enc run outer
    by (intro exI [of _ "fed @ [new]"] exI [of _ "cts @ [ct]"])
      (simp add: ps' aead_run_snoc)
qed

lemma pub_inv_chunk:
  assumes inv: "pub_inv H B Z (sink_tmp sink) enc0 z0 chunks zs fed cts (fs, ps)"
    and z: "zstd_write Z (ps_zenc ps) c = Inr (zenc, new)"
    and w: "write_ciphertext H B io sink new
       (fs, ps\<lparr>ps_inner_h := hasher_update H (ps_inner_h ps) c,
               ps_size := ps_size ps + word_of_nat (length c), ps_zenc := zenc\<rparr>) = (fs', Inr ps')"
  shows "\<exists>fed' cts'. pub_inv H B Z (sink_tmp sink) enc0 z0 (chunks @ [c]) (zs @ new) fed' cts' (fs', ps')"
proof -
  have "\<exists>fed' cts'. concat fed' = concat fed @ new \<and>
     enc_cek (ps_enc ps') = enc_cek enc0 \<and> enc_nonce (ps_enc ps') = enc_nonce enc0 \<and>
     aead_run B (enc_inner enc0) fed' = Inr (enc_inner (ps_enc ps'), cts') \<and>
     ps_outer_h ps' = fold (\<lambda>c h. hasher_update H h c) cts' (hasher H) \<and>
     fs_files fs' (sink_tmp sink) = Some (concat cts') \<and>
     ps_inner_h ps' = hasher_update H (ps_inner_h ps) c \<and>
     ps_size ps' = ps_size ps + word_of_nat (length c) \<and> ps_zenc ps' = zenc"
    using write_ciphertext_inv [OF w, of enc0 fed cts] inv by (simp add: pub_inv_def)
  then obtain fed' cts' where ex: "concat fed' = concat fed @ new \<and>
     enc_cek (ps_enc ps') = enc_cek enc0 \<and> enc_nonce (ps_enc ps') = enc_nonce enc0 \<and>
     aead_run B (enc_inner enc0) fed' = Inr (enc_inner (ps_enc ps'), cts') \<and>
     ps_outer_h ps' = fold (\<lambda>c h. hasher_update H h c) cts' (hasher H) \<and>
     fs_files fs' (sink_tmp sink) = Some (concat cts') \<and>
     ps_inner_h ps' = hasher_update H (ps_inner_h ps) c \<and>
     ps_size ps' = ps_size ps + word_of_nat (length c) \<and> ps_zenc ps' = zenc"
    by blast
  have "pub_inv H B Z (sink_tmp sink) enc0 z0 (chunks @ [c]) (zs @ new) fed' cts' (fs', ps')"
    using inv ex z by (simp add: pub_inv_def zstd_run_snoc)
  then show ?thesis by blast
qed

lemma publish_chunks_inv:
  assumes "publish_chunks H B Z io sink body st = (fs', Inr ps')"
    and "pub_inv H B Z (sink_tmp sink) enc0 z0 chunks zs fed cts st"
  shows "\<exists>cs zs' fed' cts'. body = map Inr cs \<and>
     pub_inv H B Z (sink_tmp sink) enc0 z0 (chunks @ cs) zs' fed' cts' (fs', ps')"
  using assms
proof (induction H B Z io sink body st arbitrary: chunks zs fed cts rule: publish_chunks.induct)
  case (1 H B Z io sink st)
  then show ?case by (intro exI [of _ "[]"] exI) (auto)
next
  case (2 H B Z io sink e rest st)
  then show ?case by simp
next
  case (3 H B Z io sink c rest st)
  obtain fs ps where st: "st = (fs, ps)" by (cases st)
  let ?ps = "ps\<lparr>ps_inner_h := hasher_update H (ps_inner_h ps) c,
                ps_size := ps_size ps + word_of_nat (length c)\<rparr>"
  from 3(2) obtain zenc new fs1 ps1 where z: "zstd_write Z (ps_zenc ps) c = Inr (zenc, new)"
    and w: "write_ciphertext H B io sink new (fs, ?ps\<lparr>ps_zenc := zenc\<rparr>) = (fs1, Inr ps1)"
    and r: "publish_chunks H B Z io sink rest (fs1, ps1) = (fs', Inr ps')"
    unfolding st by (auto simp: Let_def split: sum.splits prod.splits)
  obtain fed' cts' where inv: "pub_inv H B Z (sink_tmp sink) enc0 z0 (chunks @ [c]) (zs @ new) fed' cts' (fs1, ps1)"
    using pub_inv_chunk [OF 3(3) [unfolded st] z w] by blast
  from 3(1) [OF refl _ refl, of zenc new, OF _ _ refl, OF _ _ r inv] z w
  obtain cs comp2 fed2 cts2 where "rest = map Inr cs"
    and "pub_inv H B Z (sink_tmp sink) enc0 z0 ((chunks @ [c]) @ cs) comp2 fed2 cts2 (fs', ps')"
    unfolding st by auto
  then show ?case by (intro exI [of _ "c # cs"] exI) (auto)
qed

text \<open>After the frame footer and the tag: the temporary file holds the whole ciphertext and
  both hashers the addresses of the plaintext and of that file.\<close>

lemma publish_finish_inv:
  assumes H: "hash_api_ok H"
    and f: "publish_finish H B Z io sink (fs, ps) = (fs', Inr ps')"
    and inv: "pub_inv H B Z (sink_tmp sink) enc0 z0 chunks zs fed cts (fs, ps)"
  shows "\<exists>tail fed' s cts' tag. zstd_finish Z (ps_zenc ps) = Inr tail \<and> concat fed' = zs @ tail \<and>
     aead_run B (enc_inner enc0) fed' = Inr (s, cts') \<and> aead_finalize B s = Inr tag \<and>
     fs_files fs' (sink_tmp sink) = Some (concat cts' @ tag) \<and>
     hasher_finalize H (ps_outer_h ps') = ContentHash_of H (concat cts' @ tag) \<and>
     hasher_finalize H (ps_inner_h ps') = ContentHash_of H (concat chunks) \<and>
     ps_size ps' = word_of_nat (length (concat chunks)) \<and>
     enc_cek (ps_enc ps') = enc_cek enc0 \<and> enc_nonce (ps_enc ps') = enc_nonce enc0"
proof -
  from f obtain tail fs1 ps1 tag where tail: "zstd_finish Z (ps_zenc ps) = Inr tail"
    and w: "write_ciphertext H B io sink tail (fs, ps) = (fs1, Inr ps1)"
    and tag: "aead_finalize B (enc_inner (ps_enc ps1)) = Inr tag"
    and wt: "sink_write_all io fs1 sink tag = (fs', Inr ())"
    and ps': "ps' = ps1\<lparr>ps_outer_h := hasher_update H (ps_outer_h ps1) tag\<rparr>"
    by (auto simp: publish_finish_def enc_finish_def split: sum.splits prod.splits)
  obtain fed' cts' where ex: "concat fed' = concat fed @ tail \<and>
     enc_cek (ps_enc ps1) = enc_cek enc0 \<and> enc_nonce (ps_enc ps1) = enc_nonce enc0 \<and>
     aead_run B (enc_inner enc0) fed' = Inr (enc_inner (ps_enc ps1), cts') \<and>
     ps_outer_h ps1 = fold (\<lambda>c h. hasher_update H h c) cts' (hasher H) \<and>
     fs_files fs1 (sink_tmp sink) = Some (concat cts') \<and>
     ps_inner_h ps1 = ps_inner_h ps \<and> ps_size ps1 = ps_size ps"
    using write_ciphertext_inv [OF w, of enc0 fed cts] inv unfolding pub_inv_def by auto
  have "hasher_finalize H (ps_outer_h ps') = ContentHash_of H (concat cts' @ tag)"
    using hasher_stream [OF H, of "cts' @ [tag]"] ex by (simp add: ps')
  moreover have "hasher_finalize H (ps_inner_h ps') = ContentHash_of H (concat chunks)"
    using hasher_stream [OF H, of chunks] ex inv by (simp add: ps' pub_inv_def)
  moreover have "fs_files fs' (sink_tmp sink) = Some (concat cts' @ tag)"
    using write_all_ok [OF wt] ex by simp
  ultimately show ?thesis
    using tail tag ex inv unfolding pub_inv_def ps'
    by (intro exI [of _ tail] exI [of _ fed'] exI [of _ "enc_inner (ps_enc ps1)"] exI [of _ cts']
        exI [of _ tag]) simp
qed

section \<open>Publish against its specification\<close>

text \<open>\<open>blob_stored\<close>: the ciphertext \<open>ct\<close> has been filed under its address; a blob that was
  already there may have stayed, every other blob is untouched.\<close>

definition blob_stored ::
    "'h hash_api \<Rightarrow> (io_op \<Rightarrow> bool) \<Rightarrow> string \<Rightarrow> bytes \<Rightarrow> blob_fs \<Rightarrow> blob_fs \<Rightarrow> bool" where
  "blob_stored H io t ct fs fs' \<longleftrightarrow>
     (let dest = blob_path H (ContentHash_of H ct) in
      (\<forall>n. n \<noteq> t \<and> n \<noteq> dest \<longrightarrow> fs_files fs' n = fs_files fs n) \<and>
      (fs_files fs' dest = Some ct \<and> (fs_files fs dest = None \<or> io (TryExists dest)) \<or>
       fs_files fs dest \<noteq> None \<and> fs_files fs' dest = fs_files fs dest))"

text \<open>\<open>decrypts_to\<close>: what a rig that holds the key recovers from the blob.\<close>

definition decrypts_to ::
    "'s aead_api \<Rightarrow> 'z zstd_api \<Rightarrow> bytes \<Rightarrow> bytes \<Rightarrow> bytes \<Rightarrow> bytes \<Rightarrow> bool" where
  "decrypts_to B Z cek nonce ct p \<longleftrightarrow>
     (\<exists>zs. aead_decrypt B cek nonce ct = Some zs \<and> zstd_decode Z zs = Some p)"

text \<open>The four ways a publish of \<open>body\<close> can end.\<close>

inductive publish_spec ::
    "'h hash_api \<Rightarrow> 's aead_api \<Rightarrow> 'z zstd_api \<Rightarrow> 'i index_api \<Rightarrow> (io_op \<Rightarrow> bool) \<Rightarrow> string
      \<Rightarrow> blob_fs \<Rightarrow> 'i \<Rightarrow> (string + bytes) list \<Rightarrow> blob_fs \<Rightarrow> 'i \<Rightarrow> AppError + ArtifactRef \<Rightarrow> bool"
  for H B Z A io t fs ix where
  aborted:
    "only_at t fs fs' \<Longrightarrow> publish_spec H B Z A io t fs ix body fs' ix (Inl e)"
| known:
    "only_at t fs fs' \<Longrightarrow> index_get A ix (ContentHash_of H (concat cs)) = Inr (Some x) \<Longrightarrow>
     publish_spec H B Z A io t fs ix (map Inr cs) fs' ix
       (Inr \<lparr>ar_inner = ae_inner x, ar_outer = ae_outer x, ar_size = ae_size x\<rparr>)"
| unindexed:
    "blob_stored H io t ct fs fs' \<Longrightarrow>
     publish_spec H B Z A io t fs ix (map Inr cs) fs' ix (Inl (Internal er))"
| indexed:
    "blob_stored H io t ct fs fs' \<Longrightarrow>
     index_get A ix (ContentHash_of H (concat cs)) = Inr None \<Longrightarrow>
     aead_ok B \<and> zstd_ok Z \<longrightarrow>
       decrypts_to B Z cek nonce ct (concat cs) \<and> length cek = CEK_LEN \<and> length nonce = NONCE_LEN \<Longrightarrow>
     index_put A ix \<lparr>ae_inner = ContentHash_of H (concat cs), ae_outer = ContentHash_of H ct,
        ae_cek = cek, ae_nonce = nonce, ae_size = word_of_nat (length (concat cs))\<rparr> = Inr ix' \<Longrightarrow>
     publish_spec H B Z A io t fs ix (map Inr cs) fs' ix'
       (Inr \<lparr>ar_inner = ContentHash_of H (concat cs), ar_outer = ContentHash_of H ct,
             ar_size = word_of_nat (length (concat cs))\<rparr>)"

lemmas sink_commit_defs = sink_commit_def sink_flush_def dest_exists_def sink_discard_def sink_rename_def

lemma sink_commit_err:
  "sink_commit H io fs sink outer = (fs1, sink1, Inl e) \<Longrightarrow>
   fs1 = fs \<and> sink_tmp sink1 = sink_tmp sink"
  by (auto simp: sink_commit_defs Let_def split: if_splits)

lemma sink_commit_ok:
  assumes "sink_commit H io fs sink outer = (fs1, sink1, Inr u)"
  shows "sink_committed sink1"
    and "n \<noteq> sink_tmp sink \<Longrightarrow> n \<noteq> blob_path H outer \<Longrightarrow> fs_files fs1 n = fs_files fs n"
    and "fs_files fs1 (blob_path H outer) = fs_files fs (sink_tmp sink) \<and>
           (fs_files fs (blob_path H outer) = None \<or> io (TryExists (blob_path H outer))) \<or>
         fs_files fs (blob_path H outer) \<noteq> None \<and> blob_path H outer \<noteq> sink_tmp sink \<and>
           fs_files fs1 (blob_path H outer) = fs_files fs (blob_path H outer) \<or>
         blob_path H outer = sink_tmp sink"
  using assms by (auto simp: sink_commit_defs Let_def remove_file_def split: if_splits)

lemma sink_commit_stored:
  assumes H: "hash_api_ok H"
    and c: "sink_commit H io fs1 sink (ContentHash_of H ct) = (fs2, sink2, Inr u)"
    and t: "sink_tmp sink = temp_name pid seq"
    and tmpf: "fs_files fs1 (sink_tmp sink) = Some ct"
    and at: "only_at (sink_tmp sink) fs fs1"
  shows "blob_stored H io (sink_tmp sink) ct fs fs2"
proof -
  have neq: "blob_path H (ContentHash_of H ct) \<noteq> sink_tmp sink"
    unfolding t by (rule temp_name_not_blob [OF H])
  have "fs_files fs2 n = fs_files fs n" if "n \<noteq> sink_tmp sink" "n \<noteq> blob_path H (ContentHash_of H ct)" for n
    using sink_commit_ok(2) [OF c that] only_at_files [OF at that(1)] by simp
  then show ?thesis
    using sink_commit_ok(3) [OF c] tmpf neq only_at_files [OF at neq]
    by (auto simp: blob_stored_def Let_def)
qed

text \<open>The last step of a publish: the blob is in place, the index is written.\<close>

lemma publish_store_stored:
  assumes p: "publish_store H A io sink fs1 ix ps = ((fs', ix'), r)"
    and get: "index_get A ix (ContentHash_of H (concat cs)) = Inr None"
    and c: "sink_commit H io fs1 sink (ContentHash_of H ct) = (fs2, sink2, Inr v)" and cm: "sink_committed sink2"
    and st: "blob_stored H io (sink_tmp sink) ct fs fs2"
    and inner: "hasher_finalize H (ps_inner_h ps) = ContentHash_of H (concat cs)"
    and outer: "hasher_finalize H (ps_outer_h ps) = ContentHash_of H ct"
    and sz: "ps_size ps = word_of_nat (length (concat cs))"
    and dec: "aead_ok B \<and> zstd_ok Z \<longrightarrow>
       decrypts_to B Z (enc_cek (ps_enc ps)) (enc_nonce (ps_enc ps)) ct (concat cs) \<and>
       length (enc_cek (ps_enc ps)) = CEK_LEN \<and> length (enc_nonce (ps_enc ps)) = NONCE_LEN"
  shows "publish_spec H B Z A io (sink_tmp sink) fs ix (map Inr cs) fs' ix' r"
proof (cases "index_put A ix \<lparr>ae_inner = ContentHash_of H (concat cs), ae_outer = ContentHash_of H ct,
    ae_cek = enc_cek (ps_enc ps), ae_nonce = enc_nonce (ps_enc ps), ae_size = ps_size ps\<rparr>")
  case (Inl e)
  with p st cm c get show ?thesis
    by (auto simp: publish_store_def inner outer sink_drop_def intro: publish_spec.unindexed)
next
  case (Inr ix1)
  with p cm c get have "fs' = fs2" "ix' = ix1" "r = Inr \<lparr>ar_inner = ContentHash_of H (concat cs),
      ar_outer = ContentHash_of H ct, ar_size = ps_size ps\<rparr>"
    by (auto simp: publish_store_def inner outer sink_drop_def)
  with st dec Inr get show ?thesis
    unfolding sz by (blast intro: publish_spec.indexed)
qed

lemma publish_store_spec:
  assumes H: "hash_api_ok H"
    and p: "publish_store H A io sink fs1 ix ps = ((fs', ix'), r)"
    and t: "sink_tmp sink = temp_name pid seq" and u: "\<not> sink_committed sink"
    and at: "only_at (sink_tmp sink) fs fs1"
    and tmpf: "fs_files fs1 (sink_tmp sink) = Some ct"
    and inner: "hasher_finalize H (ps_inner_h ps) = ContentHash_of H (concat cs)"
    and outer: "hasher_finalize H (ps_outer_h ps) = ContentHash_of H ct"
    and sz: "ps_size ps = word_of_nat (length (concat cs))"
    and dec: "aead_ok B \<and> zstd_ok Z \<longrightarrow>
       decrypts_to B Z (enc_cek (ps_enc ps)) (enc_nonce (ps_enc ps)) ct (concat cs) \<and>
       length (enc_cek (ps_enc ps)) = CEK_LEN \<and> length (enc_nonce (ps_enc ps)) = NONCE_LEN"
  shows "publish_spec H B Z A io (sink_tmp sink) fs ix (map Inr cs) fs' ix' r"
proof -
  have drop: "only_at (sink_tmp sink) fs (sink_drop io fs1 sink)"
    using at only_at_drop by (rule only_at_trans)
  show ?thesis
  proof (cases "index_get A ix (ContentHash_of H (concat cs))")
    case (Inl e)
    with p drop show ?thesis
      by (auto simp: publish_store_def inner intro: publish_spec.aborted)
  next
    case (Inr found)
    show ?thesis
    proof (cases found)
      case (Some x)
      with p drop Inr show ?thesis
        by (auto simp: publish_store_def inner intro: publish_spec.known)
    next
      case None
      obtain fs2 sink2 res where c: "sink_commit H io fs1 sink (ContentHash_of H ct) = (fs2, sink2, res)"
        by (metis prod_cases3)
      show ?thesis
      proof (cases res)
        case (Inl e)
        with c have "fs2 = fs1 \<and> sink_tmp sink2 = sink_tmp sink"
          using sink_commit_err by blast
        then have "only_at (sink_tmp sink) fs (sink_drop io fs2 sink2)"
          using at only_at_drop [of sink2] only_at_trans by metis
        with p Inl c Inr None show ?thesis
          by (auto simp: publish_store_def inner outer intro: publish_spec.aborted)
      next
        case (Inr v)
        with c have cc: "sink_commit H io fs1 sink (ContentHash_of H ct) = (fs2, sink2, Inr v)"
          by simp
        have "index_get A ix (ContentHash_of H (concat cs)) = Inr None"
          using \<open>index_get A ix _ = Inr found\<close> None by simp
        from publish_store_stored [OF p this cc sink_commit_ok(1) [OF cc] sink_commit_stored [OF H cc t tmpf at]
            inner outer sz dec] show ?thesis .
      qed
    qed
  qed
qed

lemma decrypts_to_run:
  assumes "aead_ok B" and "zstd_ok Z" and "aes_gcm_encrypt_stream B cek nonce = Inr s0"
    and "aead_run B s0 fed = Inr (s, cts)" and "aead_finalize B s = Inr tag"
    and "zstd_new Z = Inr z0" and "zstd_run Z z0 cs = Inr (z, zs)" and "zstd_finish Z z = Inr tail"
    and "concat fed = zs @ tail"
  shows "decrypts_to B Z cek nonce (concat cts @ tag) (concat cs)"
proof -
  have "aead_decrypt B cek nonce (concat cts @ tag) = Some (concat fed)"
    using assms by (simp add: aead_ok_def)
  moreover have "zstd_decode Z (zs @ tail) = Some (concat cs)"
    using assms by (simp add: zstd_ok_def)
  ultimately show ?thesis
    using assms(9) by (auto simp: decrypts_to_def)
qed

lemma StreamEncryptor_new_ok:
  assumes "StreamEncryptor_new B = Inr enc"
  shows "aes_gcm_encrypt_stream B (enc_cek enc) (enc_nonce enc) = Inr (enc_inner enc)"
    and "aead_ok B \<Longrightarrow> length (enc_cek enc) = CEK_LEN \<and> length (enc_nonce enc) = NONCE_LEN"
  using assms by (auto simp: StreamEncryptor_new_def try_bind_Inr_iff aead_ok_def)

text \<open>The end of the stream: footer and tag, then the store step.\<close>

lemma publish_tail_spec:
  assumes H: "hash_api_ok H"
    and enc: "StreamEncryptor_new B = Inr enc" and z0: "zstd_new Z = Inr z0"
    and t: "sink_tmp sink = temp_name pid seq" and u: "\<not> sink_committed sink"
    and at: "only_at (sink_tmp sink) fs fs2"
    and inv: "pub_inv H B Z (sink_tmp sink) enc z0 cs zs fed cts (fs2, ps1)"
    and p: "(case publish_finish H B Z io sink (fs2, ps1) of
               (fs3, Inl e) \<Rightarrow> ((sink_drop io fs3 sink, ix), Inl e)
             | (fs3, Inr ps2) \<Rightarrow> publish_store H A io sink fs3 ix ps2) = ((fs', ix'), r)"
  shows "publish_spec H B Z A io (sink_tmp sink) fs ix (map Inr cs) fs' ix' r"
proof -
  obtain fs3 r3 where f: "publish_finish H B Z io sink (fs2, ps1) = (fs3, r3)"
    by (cases "publish_finish H B Z io sink (fs2, ps1)")
  have at3: "only_at (sink_tmp sink) fs fs3"
    using only_at_publish_finish [OF f] at only_at_trans by simp
  show ?thesis
  proof (cases r3)
    case (Inl e)
    have "only_at (sink_tmp sink) fs (sink_drop io fs3 sink)"
      using at3 only_at_drop by (rule only_at_trans)
    with p f Inl show ?thesis by (auto intro: publish_spec.aborted)
  next
    case (Inr ps2)
    from publish_finish_inv [OF H f [unfolded Inr] inv] obtain tail fed' s cts' tag
      where fin: "zstd_finish Z (ps_zenc ps1) = Inr tail" "concat fed' = zs @ tail"
        "aead_run B (enc_inner enc) fed' = Inr (s, cts')" "aead_finalize B s = Inr tag"
        "fs_files fs3 (sink_tmp sink) = Some (concat cts' @ tag)"
        "hasher_finalize H (ps_outer_h ps2) = ContentHash_of H (concat cts' @ tag)"
        "hasher_finalize H (ps_inner_h ps2) = ContentHash_of H (concat cs)"
        "ps_size ps2 = word_of_nat (length (concat cs))"
        "enc_cek (ps_enc ps2) = enc_cek enc" "enc_nonce (ps_enc ps2) = enc_nonce enc"
      by blast
    have z: "zstd_run Z z0 cs = Inr (ps_zenc ps1, zs)"
      using inv by (simp add: pub_inv_def)
    have dec: "aead_ok B \<and> zstd_ok Z \<longrightarrow>
      decrypts_to B Z (enc_cek (ps_enc ps2)) (enc_nonce (ps_enc ps2)) (concat cts' @ tag) (concat cs) \<and>
      length (enc_cek (ps_enc ps2)) = CEK_LEN \<and> length (enc_nonce (ps_enc ps2)) = NONCE_LEN"
      using decrypts_to_run [OF _ _ StreamEncryptor_new_ok(1) [OF enc] fin(3,4) z0 z fin(1,2)]
        StreamEncryptor_new_ok(2) [OF enc] fin(9,10) by auto
    have "publish_store H A io sink fs3 ix ps2 = ((fs', ix'), r)"
      using p f Inr by simp
    from publish_store_spec [OF H this t u at3 fin(5,7,6,8) dec] show ?thesis .
  qed
qed

lemma publish_stream_spec:
  assumes H: "hash_api_ok H"
    and p: "publish_stream H B Z A io body (fs, ix) = ((fs', ix'), r)"
  shows "publish_spec H B Z A io (temp_name (fs_pid fs) (temp_seq fs)) fs ix body fs' ix' r"
proof -
  let ?t = "temp_name (fs_pid fs) (temp_seq fs)"
  consider (early) e where "fs_files fs' = fs_files fs" "ix' = ix" "r = Inl e"
    | (begun) enc z0 fs1 sink where "StreamEncryptor_new B = Inr enc" "zstd_new Z = Inr z0"
        "blobs_begin io fs = (fs1, Inr sink)"
    using p by (auto simp: publish_stream_def dest: blobs_begin_err split: sum.splits prod.splits)
  then show ?thesis
  proof cases
    case early
    then show ?thesis by (auto simp: only_at_def intro: publish_spec.aborted)
  next
    case begun
    have t: "sink_tmp sink = ?t" and u: "\<not> sink_committed sink" and
      files: "fs_files fs1 = (fs_files fs)(?t \<mapsto> [])"
      using blobs_begin_ok [OF begun(3)] by auto
    let ?ps = "\<lparr>ps_enc = enc, ps_zenc = z0, ps_inner_h = hasher H, ps_outer_h = hasher H, ps_size = 0\<rparr>"
    obtain fs2 r2 where c: "publish_chunks H B Z io sink body (fs1, ?ps) = (fs2, r2)"
      by (cases "publish_chunks H B Z io sink body (fs1, ?ps)")
    have at2: "only_at (sink_tmp sink) fs fs2"
      using only_at_publish_chunks [OF c] files t by (simp add: only_at_def)
    show ?thesis
    proof (cases r2)
      case (Inl e)
      have "only_at ?t fs (sink_drop io fs2 sink)"
        using at2 only_at_drop [of sink] only_at_trans t by metis
      with p begun c Inl show ?thesis
        by (auto simp: publish_stream_def intro: publish_spec.aborted)
    next
      case (Inr ps1)
      have "pub_inv H B Z (sink_tmp sink) enc z0 [] [] [] [] (fs1, ?ps)"
        by (simp add: pub_inv_def files t)
      from publish_chunks_inv [OF c [unfolded Inr] this] obtain cs zs fed cts
        where body: "body = map Inr cs" and inv: "pub_inv H B Z (sink_tmp sink) enc z0 cs zs fed cts (fs2, ps1)"
        by auto
      have "(case publish_finish H B Z io sink (fs2, ps1) of
               (fs3, Inl e) \<Rightarrow> ((sink_drop io fs3 sink, ix), Inl e)
             | (fs3, Inr ps2) \<Rightarrow> publish_store H A io sink fs3 ix ps2) = ((fs', ix'), r)"
        using p begun c Inr by (simp add: publish_stream_def)
      from publish_tail_spec [OF H begun(1,2) t u at2 inv this]
      show ?thesis unfolding t body .
    qed
  qed
qed

text \<open>No litter: when the temporary file can be removed, it is gone afterwards.\<close>

lemma sink_drop_gone:
  "\<not> io (RemoveFile (sink_tmp sink)) \<Longrightarrow> \<not> sink_committed sink \<Longrightarrow>
   fs_files (sink_drop io fs sink) (sink_tmp sink) = None"
  by (simp add: sink_drop_def remove_file_def)

lemma sink_commit_gone:
  assumes "sink_commit H io fs sink outer = (fs1, sink1, r)" and "\<not> io (RemoveFile (sink_tmp sink))"
    and "blob_path H outer \<noteq> sink_tmp sink" and "\<not> sink_committed sink"
  shows "fs_files (sink_drop io fs1 sink1) (sink_tmp sink) = None"
proof -
  have "sink_tmp sink1 = sink_tmp sink \<and>
      (sink_committed sink1 \<longrightarrow> fs_files fs1 (sink_tmp sink) = None)"
    using assms by (auto simp: sink_commit_defs remove_file_def Let_def split: if_splits)
  then show ?thesis
    using assms(2) by (simp add: sink_drop_def remove_file_def)
qed

lemma publish_store_gone:
  assumes H: "hash_api_ok H" and p: "publish_store H A io sink fs ix ps = ((fs', ix'), r)"
    and t: "sink_tmp sink = temp_name pid seq" and u: "\<not> sink_committed sink"
    and rm: "\<not> io (RemoveFile (sink_tmp sink))"
  shows "fs_files fs' (sink_tmp sink) = None"
proof -
  have gone: "fs_files (sink_drop io fs1 sink1) (sink_tmp sink) = None"
    if "sink_commit H io fs sink outer = (fs1, sink1, q)" for outer fs1 sink1 q
    using sink_commit_gone [OF that rm _ u] temp_name_not_blob [OF H] unfolding t by blast
  show ?thesis
    using p sink_drop_gone [of io sink, OF rm u] gone
    by (auto simp: publish_store_def Let_def split: sum.splits option.splits prod.splits)
qed

lemma publish_stream_gone:
  fixes H :: "'h hash_api" and B :: "'s aead_api" and Z :: "'z zstd_api"
  assumes H: "hash_api_ok H" and p: "publish_stream H B Z A io body (fs, ix) = ((fs', ix'), r)"
    and t: "t = temp_name (fs_pid fs) (temp_seq fs)"
    and fresh: "fs_files fs t = None" and rm: "\<not> io (RemoveFile t)"
  shows "fs_files fs' t = None"
proof -
  have gone: "fs_files (sink_drop io fs2 sink) t = None"
    if "blobs_begin io fs = (fs1, Inr sink)" for fs1 sink fs2
    using blobs_begin_ok(1) [OF that] sink_drop_gone [of io sink fs2] rm t by simp
  have store: "fs_files f t = None"
    if "blobs_begin io fs = (fs1, Inr sink)" and "publish_store H A io sink fs3 ix ps = ((f, i), q)"
    for fs1 sink fs3 f i q and ps :: "('h, 's, 'z) publish_state"
    using blobs_begin_ok(1) [OF that(1)] publish_store_gone [OF H that(2), of "fs_pid fs" "temp_seq fs"] rm t
    by simp
  have err: "fs_files f t = None" if "blobs_begin io fs = (f, Inl e)" for f e
    using blobs_begin_err [OF that] fresh by simp
  show ?thesis
    using p fresh gone store err
    by (auto simp: publish_stream_def Let_def split: sum.splits prod.splits)
qed

section \<open>The contract of the artifact index\<close>

text \<open>What \<open>publish_stream\<close> and the release handlers rely on: a successful \<open>get\<close> reports the
  recorded entry, a successful \<open>put\<close> records an entry under an inner hash that has none, and
  the first entry under an inner hash stays.\<close>

definition entry_ok :: "ArtifactEntry \<Rightarrow> bool" where
  "entry_ok e \<longleftrightarrow> ch_ok (ae_inner e) \<and> ch_ok (ae_outer e) \<and>
     length (ae_cek e) = CEK_LEN \<and> length (ae_nonce e) = NONCE_LEN"

text \<open>\<open>content_ok\<close>: every blob is filed under its own address and every indexed artifact has
  its blob.\<close>

definition content_ok ::
    "'h hash_api \<Rightarrow> (ContentHash \<Rightarrow> ArtifactEntry option) \<Rightarrow> blob_fs \<Rightarrow> bool" where
  "content_ok H look fs \<longleftrightarrow>
     (\<forall>h b. fs_files fs (blob_path H h) = Some b \<longrightarrow> ContentHash_of H b = h) \<and>
     (\<forall>k e. look k = Some e \<longrightarrow> ae_inner e = k \<and> fs_files fs (blob_path H (ae_outer e)) \<noteq> None)"

locale hash_crate =
  fixes H :: "'h hash_api"
  assumes ok: "hash_api_ok H"

locale artifact_index = hash_crate H for H :: "'h hash_api" +
  fixes A :: "'i index_api"
    and look :: "'i \<Rightarrow> ContentHash \<Rightarrow> ArtifactEntry option"
    and invar :: "'i \<Rightarrow> bool"
  assumes get_law: "invar ix \<Longrightarrow> index_get A ix k = Inr x \<Longrightarrow> x = look ix k"
    and put_law: "invar ix \<Longrightarrow> entry_ok e \<Longrightarrow> index_put A ix e = Inr ix' \<Longrightarrow>
      invar ix' \<and> look ix' =
        (case look ix (ae_inner e) of Some _ \<Rightarrow> look ix | None \<Rightarrow> (look ix)(ae_inner e \<mapsto> e))"
begin

lemma first_put_wins:
  "invar ix \<Longrightarrow> entry_ok e \<Longrightarrow> index_put A ix e = Inr ix' \<Longrightarrow> look ix k = Some x \<Longrightarrow> look ix' k = Some x"
  using put_law [of ix e ix'] by (auto split: option.splits)

lemma blob_kept:
  assumes "blob_stored H io t ct fs fs'" and "t = temp_name p s"
    and "fs_files fs (blob_path H h) = Some b" and "\<not> io (TryExists (blob_path H h))"
  shows "fs_files fs' (blob_path H h) = Some b"
  using assms temp_name_not_blob [OF ok, of h p s]
  by (cases "blob_path H h = blob_path H (ContentHash_of H ct)")
    (auto simp: blob_stored_def Let_def)

lemma blob_still_there:
  assumes "blob_stored H io t ct fs fs'" and "t = temp_name p s"
    and "fs_files fs (blob_path H h) \<noteq> None"
  shows "fs_files fs' (blob_path H h) \<noteq> None"
  using assms temp_name_not_blob [OF ok, of h p s]
  by (cases "blob_path H h = blob_path H (ContentHash_of H ct)")
    (auto simp: blob_stored_def Let_def)

lemma content_ok_only_at:
  "only_at (temp_name p s) fs fs' \<Longrightarrow> content_ok H l fs \<Longrightarrow> content_ok H l fs'"
  using temp_name_not_blob [OF ok] by (simp add: content_ok_def only_at_def)

lemma content_ok_stored:
  assumes st: "blob_stored H io (temp_name p s) ct fs fs'" and c: "content_ok H l fs"
  shows "content_ok H l fs'"
proof -
  have "ContentHash_of H b = h" if f: "fs_files fs' (blob_path H h) = Some b" for h b
  proof (cases "h = ContentHash_of H ct")
    case False
    then have "fs_files fs' (blob_path H h) = fs_files fs (blob_path H h)"
      using st temp_name_not_blob [OF ok] blob_path_inj [OF ok]
      by (auto simp: blob_stored_def Let_def)
    with f c show ?thesis by (simp add: content_ok_def)
  next
    case True
    with st f c show ?thesis by (auto simp: blob_stored_def content_ok_def Let_def)
  qed
  with c show ?thesis
    using blob_still_there [OF st refl] unfolding content_ok_def by blast
qed

text \<open>Every publish, successful or not, keeps the store and the index consistent.\<close>

lemma publish_content_ok:
  assumes p: "publish_stream H B Z A io body (fs, ix) = ((fs', ix'), r)"
    and laws: "aead_ok B" "zstd_ok Z" and inv: "invar ix" and c: "content_ok H (look ix) fs"
  shows "invar ix' \<and> content_ok H (look ix') fs'"
  using publish_stream_spec [OF ok p]
proof cases
  case aborted
  with inv c content_ok_only_at show ?thesis by blast
next
  case known
  with inv c content_ok_only_at show ?thesis by blast
next
  case unindexed
  with inv c content_ok_stored show ?thesis by blast
next
  case (indexed ct cs cek nonce)
  let ?e = "\<lparr>ae_inner = ContentHash_of H (concat cs), ae_outer = ContentHash_of H ct, ae_cek = cek,
     ae_nonce = nonce, ae_size = word_of_nat (length (concat cs))\<rparr>"
  have e: "entry_ok ?e"
    using indexed(5) laws ContentHash_of_ok [OF ok] by (simp add: entry_ok_def)
  have blob: "fs_files fs' (blob_path H (ContentHash_of H ct)) \<noteq> None"
    using indexed(3) by (auto simp: blob_stored_def Let_def)
  from put_law [OF inv e indexed(6)] show ?thesis
    using content_ok_stored [OF indexed(3) c] blob
    by (auto simp: content_ok_def split: option.splits)
qed

text \<open>A second publish of the same bytes, however they are cut into chunks, returns the first
  reference and stores nothing.\<close>

lemma publish_again:
  assumes p: "publish_stream H B Z A io body (fs, ix) = ((fs', ix'), Inr r)"
    and q: "publish_stream H B2 Z2 A io2 (map Inr cs2) (gs, ix') = ((gs', ix''), Inr r2)"
    and same: "body = map Inr cs" "concat cs2 = concat cs"
    and laws: "aead_ok B" "zstd_ok Z" and inv: "invar ix" and c: "content_ok H (look ix) fs"
  shows "r2 = r \<and> ix'' = ix' \<and> only_at (temp_name (fs_pid gs) (temp_seq gs)) gs gs'"
proof -
  have inv': "invar ix'" and c': "content_ok H (look ix') fs'"
    using publish_content_ok [OF p laws inv c] by simp_all
  have inj: "map Inr xs = (map Inr ys :: (string + bytes) list) \<longleftrightarrow> xs = ys" for xs ys
    using inj_map_eq_map [of "Inr :: bytes \<Rightarrow> string + bytes"] by simp
  have "\<exists>e. look ix' (ContentHash_of H (concat cs)) = Some e \<and>
      r = \<lparr>ar_inner = ae_inner e, ar_outer = ae_outer e, ar_size = ae_size e\<rparr>"
    using publish_stream_spec [OF ok p]
  proof cases
    case (known cs1 x)
    then have "cs1 = cs" using same inj by metis
    with known get_law [OF inv] show ?thesis by fastforce
  next
    case (indexed ct cs1 cek nonce)
    then have cs1: "cs1 = cs" using same inj by metis
    let ?e = "\<lparr>ae_inner = ContentHash_of H (concat cs), ae_outer = ContentHash_of H ct, ae_cek = cek,
      ae_nonce = nonce, ae_size = word_of_nat (length (concat cs))\<rparr>"
    have e: "entry_ok ?e"
      using indexed laws ContentHash_of_ok [OF ok] by (simp add: entry_ok_def)
    have "look ix (ContentHash_of H (concat cs)) = None"
      using get_law [OF inv] indexed cs1 by metis
    with put_law [OF inv e] indexed cs1 show ?thesis by auto
  qed
  then obtain e where look: "look ix' (ContentHash_of H (concat cs)) = Some e"
    and r: "r = \<lparr>ar_inner = ae_inner e, ar_outer = ae_outer e, ar_size = ae_size e\<rparr>"
    by blast
  show ?thesis
    using publish_stream_spec [OF ok q]
  proof cases
    case (known cs1 x)
    then have "cs1 = cs2" using inj by metis
    with known get_law [OF inv'] look same r show ?thesis by fastforce
  next
    case (indexed ct cs1 cek nonce)
    then have "cs1 = cs2" using inj by metis
    with indexed get_law [OF inv'] look same show ?thesis by fastforce
  qed
qed

end

section \<open>Both backends meet the contract\<close>

definition pg_entry :: "'h hash_api \<Rightarrow> ContentHash \<Rightarrow> pg_artifact \<Rightarrow> ArtifactEntry option" where
  "pg_entry H k row =
     (case ch_from_str H (row_outer_hash row) of
        Inl _ \<Rightarrow> None
      | Inr outer \<Rightarrow> Some \<lparr>ae_inner = k, ae_outer = outer, ae_cek = row_cek row,
          ae_nonce = row_nonce row, ae_size = word_of_int (row_size row)\<rparr>)"

definition pg_look :: "'h hash_api \<Rightarrow> PgIndex \<Rightarrow> ContentHash \<Rightarrow> ArtifactEntry option" where
  "pg_look H ix k = Option.bind (pg_rows ix (to_prefixed H k)) (pg_entry H k)"

definition pg_row_ok :: "'h hash_api \<Rightarrow> pg_artifact \<Rightarrow> bool" where
  "pg_row_ok H row \<longleftrightarrow> (\<exists>outer. ch_from_str H (row_outer_hash row) = Inr outer) \<and>
     length (row_cek row) = CEK_LEN \<and> length (row_nonce row) = NONCE_LEN"

definition pg_wf :: "'h hash_api \<Rightarrow> PgIndex \<Rightarrow> bool" where
  "pg_wf H ix \<longleftrightarrow> (\<forall>row \<in> ran (pg_rows ix). pg_row_ok H row)"

lemma pg_wf_row: "pg_wf H ix \<Longrightarrow> pg_rows ix k = Some row \<Longrightarrow> pg_row_ok H row"
  by (auto simp: pg_wf_def ranI)

lemma pg_get_look:
  assumes "pg_wf H ix"
  shows "pg_get H ix k = (if pg_down ix then Inl ''database error'' else Inr (pg_look H ix k))"
proof (cases "pg_rows ix (to_prefixed H k)")
  case (Some row)
  with pg_wf_row [OF assms this] show ?thesis
    by (auto simp: pg_get_def pg_look_def pg_entry_def pg_row_ok_def)
qed (simp add: pg_get_def pg_look_def)

definition pg_row :: "'h hash_api \<Rightarrow> ArtifactEntry \<Rightarrow> pg_artifact" where
  "pg_row H e = \<lparr>row_outer_hash = to_prefixed H (ae_outer e), row_cek = ae_cek e,
     row_nonce = ae_nonce e, row_size = sint (ae_size e)\<rparr>"

lemma pg_entry_row:
  "hash_api_ok H \<Longrightarrow> entry_ok e \<Longrightarrow> pg_entry H (ae_inner e) (pg_row H e) = Some e"
  by (simp add: pg_entry_def pg_row_def entry_ok_def ch_from_str_prefixed)

lemma pg_put_look:
  assumes H: "hash_api_ok H" and wf: "pg_wf H ix" and e: "entry_ok e"
    and p: "pg_put H ix e = Inr ix'"
  shows "pg_wf H ix' \<and> pg_look H ix' =
    (case pg_look H ix (ae_inner e) of Some _ \<Rightarrow> pg_look H ix | None \<Rightarrow> (pg_look H ix)(ae_inner e \<mapsto> e))"
proof (cases "pg_rows ix (to_prefixed H (ae_inner e))")
  case None
  with p have ix': "ix' = ix\<lparr>pg_rows := (pg_rows ix)(to_prefixed H (ae_inner e) \<mapsto> pg_row H e)\<rparr>"
    by (auto simp: pg_put_def pg_row_def split: if_splits)
  have "pg_row_ok H (pg_row H e)"
    using H e by (auto simp: pg_row_ok_def pg_row_def entry_ok_def ch_from_str_prefixed)
  then have "pg_wf H ix'"
    using wf by (auto simp: ix' pg_wf_def ran_def)
  moreover have "pg_look H ix' = (pg_look H ix)(ae_inner e \<mapsto> e)"
    using pg_entry_row [OF H e] by (auto simp: ix' pg_look_def fun_eq_iff to_prefixed_inj [OF H])
  ultimately show ?thesis
    using None by (simp add: pg_look_def)
next
  case (Some row)
  with pg_wf_row [OF wf this] obtain x where "pg_look H ix (ae_inner e) = Some x"
    by (auto simp: pg_look_def pg_entry_def pg_row_ok_def)
  with p Some wf show ?thesis
    by (auto simp: pg_put_def split: if_splits)
qed

sublocale hash_crate \<subseteq> pg: artifact_index H "pg_index_api H" "pg_look H" "pg_wf H"
proof unfold_locales
  show "pg_wf H ix \<Longrightarrow> index_get (pg_index_api H) ix k = Inr x \<Longrightarrow> x = pg_look H ix k" for ix k x
    by (simp add: pg_index_api_def pg_get_look split: if_splits)
  show "pg_wf H ix' \<and> pg_look H ix' =
      (case pg_look H ix (ae_inner e) of Some _ \<Rightarrow> pg_look H ix | None \<Rightarrow> (pg_look H ix)(ae_inner e \<mapsto> e))"
    if "pg_wf H ix" "entry_ok e" "index_put (pg_index_api H) ix e = Inr ix'" for ix e ix'
    using pg_put_look [OF ok that(1,2)] that(3) by (simp add: pg_index_api_def)
qed

sublocale hash_crate \<subseteq> mem: artifact_index H mem_index_api "\<lambda>m. m" "\<lambda>_. True"
  by unfold_locales (auto simp: mem_index_api_def mem_get_def mem_put_def split: option.splits)

context hash_crate
begin

lemmas pg_publish_content_ok = pg.publish_content_ok

lemmas pg_publish_again = pg.publish_again

lemmas pg_first_put_wins = pg.first_put_wins

lemmas pg_blob_kept = pg.blob_kept

lemmas mem_publish_content_ok = mem.publish_content_ok

end

interpretation ref_crate: hash_crate ref_hash
  by unfold_locales (rule ref_hash_ok)

section \<open>A publish without faults succeeds\<close>

definition no_crate_error :: "'s aead_api \<Rightarrow> 'z zstd_api \<Rightarrow> bool" where
  "no_crate_error B Z \<longleftrightarrow>
     (\<exists>k. random_cek B = Inr k) \<and> (\<exists>n. random_nonce B = Inr n) \<and>
     (\<forall>k n. \<exists>s. aes_gcm_encrypt_stream B k n = Inr s) \<and>
     (\<forall>s p. \<exists>s' c. aead_update B s p = Inr (s', c)) \<and> (\<forall>s. \<exists>t. aead_finalize B s = Inr t) \<and>
     (\<exists>z. zstd_new Z = Inr z) \<and> (\<forall>z c. \<exists>z' out. zstd_write Z z c = Inr (z', out)) \<and>
     (\<forall>z. \<exists>t. zstd_finish Z z = Inr t)"

lemma sink_write_all_succeeds:
  "sink_file_open sink \<Longrightarrow>
   \<exists>fs'. sink_write_all (\<lambda>_. False) fs sink b = (fs', Inr ()) \<and> fs_files fs' (sink_tmp sink) \<noteq> None"
  by (simp add: sink_write_all_def)

lemma write_ciphertext_succeeds:
  assumes "no_crate_error B Z" and "sink_file_open sink"
  shows "\<exists>fs' ps'. write_ciphertext H B (\<lambda>_. False) sink c st = (fs', Inr ps')"
proof -
  obtain s' ct where "aead_update B (enc_inner (ps_enc (snd st))) c = Inr (s', ct)"
    using assms(1) unfolding no_crate_error_def by blast
  then show ?thesis
    using sink_write_all_succeeds [OF assms(2), of "fst st" ct]
    by (auto simp: write_ciphertext_def Let_def enc_update_def)
qed

lemma publish_chunks_succeeds:
  assumes ne: "no_crate_error B Z" and op: "sink_file_open sink"
  shows "\<exists>fs' ps'. publish_chunks H B Z (\<lambda>_. False) sink (map Inr cs) st = (fs', Inr ps')"
proof (induction cs arbitrary: st)
  case (Cons c cs)
  let ?ps = "(snd st)\<lparr>ps_inner_h := hasher_update H (ps_inner_h (snd st)) c,
      ps_size := ps_size (snd st) + word_of_nat (length c)\<rparr>"
  obtain z out where z: "zstd_write Z (ps_zenc (snd st)) c = Inr (z, out)"
    using ne unfolding no_crate_error_def by blast
  obtain fs1 ps1 where "write_ciphertext H B (\<lambda>_. False) sink out (fst st, ?ps\<lparr>ps_zenc := z\<rparr>) = (fs1, Inr ps1)"
    using write_ciphertext_succeeds [OF ne op] by blast
  with z Cons [of "(fs1, ps1)"] show ?case by simp
qed simp

lemma publish_finish_succeeds:
  assumes ne: "no_crate_error B Z" and op: "sink_file_open sink"
  shows "\<exists>fs' ps'. publish_finish H B Z (\<lambda>_. False) sink st = (fs', Inr ps') \<and> fs_files fs' (sink_tmp sink) \<noteq> None"
proof -
  obtain tail where t: "zstd_finish Z (ps_zenc (snd st)) = Inr tail"
    using ne unfolding no_crate_error_def by blast
  obtain fs1 ps1 where w: "write_ciphertext H B (\<lambda>_. False) sink tail st = (fs1, Inr ps1)"
    using write_ciphertext_succeeds [OF ne op] by blast
  obtain tag where "aead_finalize B (enc_inner (ps_enc ps1)) = Inr tag"
    using ne unfolding no_crate_error_def by blast
  then show ?thesis
    using t w sink_write_all_succeeds [OF op, of fs1 tag]
    by (auto simp: publish_finish_def enc_finish_def)
qed

lemma publish_store_succeeds:
  assumes "\<And>k. \<exists>x. index_get A ix k = Inr x" and "\<And>e. \<exists>ix'. index_put A ix e = Inr ix'"
    and "fs_files fs (sink_tmp sink) \<noteq> None"
  shows "\<exists>st r. publish_store H A (\<lambda>_. False) sink fs ix ps = (st, Inr r)"
proof -
  obtain x where x: "index_get A ix (hasher_finalize H (ps_inner_h ps)) = Inr x"
    using assms(1) by blast
  obtain fs1 sink1 where "sink_commit H (\<lambda>_. False) fs sink (hasher_finalize H (ps_outer_h ps)) = (fs1, sink1, Inr ())"
    by (cases "fs_files fs (blob_path H (hasher_finalize H (ps_outer_h ps)))")
      (use assms(3) in \<open>auto simp: sink_commit_defs Let_def\<close>)
  moreover obtain ix' where "index_put A ix \<lparr>ae_inner = hasher_finalize H (ps_inner_h ps),
      ae_outer = hasher_finalize H (ps_outer_h ps), ae_cek = enc_cek (ps_enc ps),
      ae_nonce = enc_nonce (ps_enc ps), ae_size = ps_size ps\<rparr> = Inr ix'"
    using assms(2) by blast
  ultimately show ?thesis
    using x by (cases x) (auto simp: publish_store_def)
qed

lemma publish_stream_succeeds:
  assumes ne: "no_crate_error B Z"
    and "\<And>k. \<exists>x. index_get A ix k = Inr x" and "\<And>e. \<exists>ix'. index_put A ix e = Inr ix'"
  shows "\<exists>st r. publish_stream H B Z A (\<lambda>_. False) (map Inr cs) (fs, ix) = (st, Inr r)"
proof -
  obtain enc where enc: "StreamEncryptor_new B = Inr enc"
  proof -
    obtain k n where "random_cek B = Inr k" and "random_nonce B = Inr n"
      using ne unfolding no_crate_error_def by blast
    moreover obtain s where "aes_gcm_encrypt_stream B k n = Inr s"
      using ne unfolding no_crate_error_def by blast
    ultimately show ?thesis
      using that by (simp add: StreamEncryptor_new_def)
  qed
  obtain z where z: "zstd_new Z = Inr z"
    using ne unfolding no_crate_error_def by blast
  obtain fs1 sink where b: "blobs_begin (\<lambda>_. False) fs = (fs1, Inr sink)" and op: "sink_file_open sink"
    by (auto simp: blobs_begin_def Let_def)
  let ?ps = "\<lparr>ps_enc = enc, ps_zenc = z, ps_inner_h = hasher H, ps_outer_h = hasher H, ps_size = 0\<rparr>"
  obtain fs2 ps2 where c: "publish_chunks H B Z (\<lambda>_. False) sink (map Inr cs) (fs1, ?ps) = (fs2, Inr ps2)"
    using publish_chunks_succeeds [OF ne op] by blast
  obtain fs3 ps3 where f: "publish_finish H B Z (\<lambda>_. False) sink (fs2, ps2) = (fs3, Inr ps3)"
    and tmpf: "fs_files fs3 (sink_tmp sink) \<noteq> None"
    using publish_finish_succeeds [OF ne op] by blast
  show ?thesis
    using enc z b c f publish_store_succeeds [OF assms(2,3) tmpf] by (simp add: publish_stream_def)
qed

section \<open>Reference instances\<close>

text \<open>Stand-ins for the compressor (it frames its input behind the zstd magic) and for the AEAD
  backend (it adds the first key byte to every byte and appends a zero tag): they satisfy
  the laws and are what the witnesses run on.\<close>

definition ref_zstd :: "bytes zstd_api" where
  "ref_zstd = \<lparr>zstd_new = Inr [], zstd_write = (\<lambda>z c. Inr (z @ c, [])),
     zstd_finish = (\<lambda>z. Inr ([0x28, 0xB5, 0x2F, 0xFD] @ z)), zstd_decode = (\<lambda>b. Some (drop 4 b))\<rparr>"

definition ref_aead :: "u8 aead_api" where
  "ref_aead = \<lparr>random_cek = Inr (replicate 16 7), random_nonce = Inr (replicate 12 9),
     aes_gcm_encrypt_stream = (\<lambda>k n. Inr (hd k)), aead_update = (\<lambda>s p. Inr (s, map (\<lambda>b. b + s) p)),
     aead_finalize = (\<lambda>s. Inr (replicate 16 0)),
     aead_decrypt = (\<lambda>k n c. Some (map (\<lambda>b. b - hd k) (take (length c - 16) c)))\<rparr>"

lemma ref_zstd_run: "zstd_run ref_zstd z cs = Inr (z @ concat cs, [])"
  by (induction cs arbitrary: z) (auto simp: ref_zstd_def)

lemma ref_zstd_ok: "zstd_ok ref_zstd"
  using ref_zstd_run by (auto simp: zstd_ok_def) (auto simp: ref_zstd_def)

lemma ref_aead_run: "aead_run ref_aead s ps = Inr (s, map (map (\<lambda>b. b + s)) ps)"
  by (induction ps) (auto simp: ref_aead_def)

lemma ref_aead_decrypt:
  "aead_decrypt ref_aead k n (concat (map (map (\<lambda>b. b + hd k)) ps) @ replicate 16 0) = Some (concat ps)"
  by (simp add: ref_aead_def map_concat comp_def)

lemma ref_aead_ok: "aead_ok ref_aead"
  using ref_aead_decrypt ref_aead_run
  by (auto simp: aead_ok_def) (auto simp: ref_aead_def CEK_LEN_def NONCE_LEN_def)

lemma ref_no_crate_error: "no_crate_error ref_aead ref_zstd"
  by (simp add: no_crate_error_def ref_aead_def ref_zstd_def)

definition ex_fs :: blob_fs where
  "ex_fs = \<lparr>fs_files = (\<lambda>_. None), fs_pid = 42, temp_seq = 0\<rparr>"

definition ex_pg :: PgIndex where
  "ex_pg = \<lparr>pg_rows = (\<lambda>_. None), pg_down = False\<rparr>"

lemma ex_store_ok [simp]:
  "pg_wf H ex_pg" "content_ok H (pg_look H ex_pg) ex_fs" "\<not> pg_down ex_pg"
  "pg_look H ex_pg k = None" "fs_files ex_fs n = None"
  by (simp_all add: pg_wf_def content_ok_def pg_look_def ex_pg_def ex_fs_def)

section \<open>Properties\<close>

lemma map_Inr_eq [simp]: "map Inr xs = map Inr ys \<longleftrightarrow> xs = ys"
  using inj_map_eq_map [of Inr] by (simp add: inj_def)

lemma get_blob_ok:
  "hash_api_ok H \<Longrightarrow> ch_ok h \<Longrightarrow> fs_files fs (blob_path H h) = Some b \<Longrightarrow>
   get_blob H (\<lambda>_. False) fs (to_prefixed H h) =
     Inr \<lparr>br_content_type = ''application/octet-stream'',
          br_content_length = nat_to_string (unat (word_of_nat (length b) :: u64)),
          br_cache_control = ''public, immutable, max-age=31536000'', br_body = b\<rparr>"
  by (simp add: get_blob_def blobs_open_def ch_from_str_prefixed)



text \<open>Whatever fails on the way (the upload, the crates, any file operation, the database),
  a publish keeps the tower's content consistent: every blob is filed under its own address
  and every indexed artifact has its blob.\<close>

theorem publish_consistent:
  assumes "hash_api_ok H" and "aead_ok B" and "zstd_ok Z" and "pg_wf H ix"
    and "content_ok H (pg_look H ix) fs"
    and "publish H B Z (pg_index_api H) io body (fs, ix) = ((fs', ix'), r)"
  shows "pg_wf H ix' \<and> content_ok H (pg_look H ix') fs'"
  using hash_crate.pg_publish_content_ok [OF hash_crate.intro [OF assms(1)] assms(6) [unfolded publish_def]]
    assms by blast

theorem publish_consistent_witness:
  "pg_wf ref_hash (snd (fst (publish ref_hash ref_aead ref_zstd (pg_index_api ref_hash)
      (\<lambda>op. op = FlushSync ''.tmp.42.0'') [Inr [5], Inl ''reset''] (ex_fs, ex_pg))))"
proof -
  obtain fs' ix' r where "publish ref_hash ref_aead ref_zstd (pg_index_api ref_hash)
      (\<lambda>op. op = FlushSync ''.tmp.42.0'') [Inr [5], Inl ''reset''] (ex_fs, ex_pg) = ((fs', ix'), r)"
    by (metis surj_pair)
  with publish_consistent [OF ref_hash_ok ref_aead_ok ref_zstd_ok _ _ this] show ?thesis
    by simp
qed

text \<open>An upload of bytes that were published before, however it is cut into chunks and
  whatever key is drawn, returns the first reference, leaves the index as it is and touches
  no file but its own temporary.\<close>

theorem publish_idempotent:
  assumes "hash_api_ok H" and "aead_ok B" and "zstd_ok Z" and "pg_wf H ix"
    and "content_ok H (pg_look H ix) fs"
    and "publish H B Z (pg_index_api H) io (map Inr cs) (fs, ix) = ((fs', ix'), Inr r)"
    and "concat cs2 = concat cs"
    and "publish H B2 Z2 (pg_index_api H) io2 (map Inr cs2) (gs, ix') = ((gs', ix''), Inr r2)"
  shows "r2 = r \<and> ix'' = ix' \<and> only_at (temp_name (fs_pid gs) (temp_seq gs)) gs gs'"
  using hash_crate.pg_publish_again [OF hash_crate.intro [OF assms(1)] assms(6,8) [unfolded publish_def]]
    assms by blast

theorem publish_idempotent_witness:
  "\<exists>fs' ix' r. publish ref_hash ref_aead ref_zstd (pg_index_api ref_hash) (\<lambda>_. False)
       (map Inr [[1, 2], [3]]) (ex_fs, ex_pg) = ((fs', ix'), Inr r) \<and>
     (\<exists>gs'. publish ref_hash ref_aead ref_zstd (pg_index_api ref_hash) (\<lambda>_. False)
       (map Inr [[1], [2, 3]]) (fs', ix') = ((gs', ix'), Inr r))"
proof -
  have total: "\<exists>x. index_get (pg_index_api ref_hash) ix k = Inr x"
    "\<exists>ix'. index_put (pg_index_api ref_hash) ix e = Inr ix'"
    if "pg_wf ref_hash ix" "\<not> pg_down ix" for ix k e
    using that by (simp_all add: pg_index_api_def pg_get_look pg_put_def)
  obtain fs' ix' r where p: "publish ref_hash ref_aead ref_zstd (pg_index_api ref_hash) (\<lambda>_. False)
       (map Inr [[1, 2], [3]]) (ex_fs, ex_pg) = ((fs', ix'), Inr r)"
    using publish_stream_succeeds [OF ref_no_crate_error total [OF ex_store_ok(1,3)]]
    unfolding publish_def by (metis surj_pair)
  have "pg_wf ref_hash ix'"
    using hash_crate.pg_publish_content_ok [OF ref_crate.hash_crate_axioms p [unfolded publish_def]
        ref_aead_ok ref_zstd_ok] by simp
  moreover have "\<not> pg_down ix'"
    using publish_stream_spec [OF ref_hash_ok p [unfolded publish_def]]
    by cases (auto simp: pg_index_api_def pg_put_def ex_pg_def split: option.splits if_splits)
  ultimately obtain gs' ix'' r2 where q: "publish ref_hash ref_aead ref_zstd (pg_index_api ref_hash) (\<lambda>_. False)
       (map Inr [[1], [2, 3]]) (fs', ix') = ((gs', ix''), Inr r2)"
    using publish_stream_succeeds [OF ref_no_crate_error total]
    unfolding publish_def by (metis surj_pair)
  from publish_idempotent [OF ref_hash_ok ref_aead_ok ref_zstd_ok ex_store_ok(1,2) p _ q] q
  have "r2 = r \<and> ix'' = ix'" by simp
  with p q show ?thesis by blast
qed

text \<open>C18. A publish that fails leaves the index as it was; no existing blob is altered or lost
  by any publish as long as the existence check of the commit works, and when the temporary
  can be removed nothing of it is left.\<close>

theorem publish_failure_safe:
  assumes "hash_api_ok H"
    and "publish H B Z A io body (fs, ix) = ((fs', ix'), r)"
  shows "(\<forall>e. r = Inl e \<longrightarrow> ix' = ix) \<and>
     (\<forall>h b. fs_files fs (blob_path H h) = Some b \<and> \<not> io (TryExists (blob_path H h)) \<longrightarrow>
        fs_files fs' (blob_path H h) = Some b) \<and>
     (let t = temp_name (fs_pid fs) (temp_seq fs) in
      fs_files fs t = None \<and> \<not> io (RemoveFile t) \<longrightarrow> fs_files fs' t = None)"
proof -
  note p = assms(2) [unfolded publish_def]
  have tmp: "blob_path H h \<noteq> temp_name (fs_pid fs) (temp_seq fs)" for h
    by (rule temp_name_not_blob [OF assms(1)])
  have "\<forall>e. r = Inl e \<longrightarrow> ix' = ix"
    using publish_stream_spec [OF assms(1) p] by cases auto
  moreover have "fs_files fs' (blob_path H h) = Some b"
    if "fs_files fs (blob_path H h) = Some b" and "\<not> io (TryExists (blob_path H h))" for h b
    using publish_stream_spec [OF assms(1) p]
      hash_crate.pg_blob_kept [OF hash_crate.intro [OF assms(1)], of io _ _ fs fs', OF _ refl that]
      only_at_files [OF _ tmp] that
    by cases auto
  ultimately show ?thesis
    using publish_stream_gone [OF assms(1) p refl] by (simp add: Let_def)
qed

theorem publish_failure_safe_witness:
  "snd (fst (publish ref_hash ref_aead ref_zstd (pg_index_api ref_hash) (\<lambda>_. False)
      [Inr [5], Inl ''reset''] (ex_fs, ex_pg))) = ex_pg"
proof -
  obtain fs' ix' r where p: "publish ref_hash ref_aead ref_zstd (pg_index_api ref_hash) (\<lambda>_. False)
      [Inr [5], Inl ''reset''] (ex_fs, ex_pg) = ((fs', ix'), r)"
    by (metis surj_pair)
  have "r = Inl (BadRequest ''upload aborted: reset'')"
    using arg_cong [OF p, of snd]
    by (simp add: publish_def publish_stream_def StreamEncryptor_new_def ref_aead_def ref_zstd_def
        blobs_begin_def write_ciphertext_def Let_def)
  with publish_failure_safe [OF ref_hash_ok p] p show ?thesis by simp
qed

text \<open>C27. The Postgres index and the in-memory index the tests use agree: over the entries it
  holds, every \<open>put\<close> and \<open>get\<close> of the database does what the map does, the size going
  through a signed column and back for every 64-bit value.\<close>

theorem pg_index_refines_mem:
  assumes "hash_api_ok H" and "pg_wf H ix" and "\<not> pg_down ix" and "entry_ok e"
  shows "\<exists>ix'. pg_put H ix e = Inr ix' \<and> pg_wf H ix' \<and>
       mem_put (pg_look H ix) e = Inr (pg_look H ix') \<and>
       pg_get H ix' k = mem_get (pg_look H ix') k"
proof -
  obtain ix' where p: "pg_put H ix e = Inr ix'" and "\<not> pg_down ix'"
    using assms(3) by (auto simp: pg_put_def split: option.splits)
  with pg_put_look [OF assms(1,2,4) p] show ?thesis
    by (intro exI [of _ ix']) (simp add: mem_put_def mem_get_def pg_get_look)
qed

theorem pg_index_refines_mem_witness:
  "\<exists>ix'. pg_put ref_hash ex_pg
      \<lparr>ae_inner = ContentHash (replicate 32 1), ae_outer = ContentHash (replicate 32 2),
       ae_cek = replicate 16 3, ae_nonce = replicate 12 4, ae_size = - 1\<rparr> = Inr ix' \<and>
     pg_get ref_hash ix' (ContentHash (replicate 32 1)) =
      mem_get (pg_look ref_hash ix') (ContentHash (replicate 32 1))"
  using pg_index_refines_mem [OF ref_hash_ok ex_store_ok(1,3), of
      "\<lparr>ae_inner = ContentHash (replicate 32 1), ae_outer = ContentHash (replicate 32 2),
       ae_cek = replicate 16 3, ae_nonce = replicate 12 4, ae_size = - 1\<rparr>"]
  by (auto simp: entry_ok_def ch_ok_def CEK_LEN_def NONCE_LEN_def)

end
