(* ===== verification/L1_Props.thy ===== *)
theory L1_Props
  imports L1 Release_Props Wire_Props Content_Props
begin

text \<open>
  Correctness of the L1 assembly: which components of the target go into the campaign, what
  exactly is handed to the signer for each of them, and how the answer is bound to the
  release the caller planned against.
\<close>

section \<open>The partition in closed form\<close>

text \<open>The tower ships a disable exactly to a component that reports itself enabled, and an image
  to an enabled component that has parts, unless the report shows every content there.\<close>

definition carried :: "Tree option \<Rightarrow> string \<Rightarrow> Entity \<Rightarrow> bool" where
  "carried reported path e \<longleftrightarrow>
     l1_observed_admin reported path \<noteq> Some True \<and>
     (\<exists>rep. reported = Some rep \<and> entity_agreed rep path e)"

definition l1_included :: "Tree option \<Rightarrow> string \<times> Entity \<Rightarrow> bool" where
  "l1_included reported pe \<longleftrightarrow>
     \<not> e_disabled (snd pe) \<and> e_parts (snd pe) \<noteq> [] \<and> \<not> carried reported (fst pe) (snd pe)"

definition l1_disabled :: "Tree option \<Rightarrow> string \<times> Entity \<Rightarrow> bool" where
  "l1_disabled reported pe \<longleftrightarrow>
     e_disabled (snd pe) \<and> l1_observed_admin reported (fst pe) = Some False"

definition l1_skipped :: "Tree option \<Rightarrow> string \<times> Entity \<Rightarrow> bool" where
  "l1_skipped reported pe \<longleftrightarrow>
     (if e_disabled (snd pe) then l1_observed_admin reported (fst pe) \<noteq> Some False
      else e_parts (snd pe) \<noteq> [] \<and> carried reported (fst pe) (snd pe))"

lemma partition_step_closed:
  "partition_step reported pe (a, b, c) =
     (a @ (if l1_included reported pe then [pe] else []),
      b @ (if l1_disabled reported pe then [pe] else []),
      c @ (if l1_skipped reported pe then [fst pe] else []))"
  by (cases pe; cases reported)
    (auto simp: partition_step_def l1_included_def l1_disabled_def l1_skipped_def carried_def Let_def)

lemma partition_fold:
  "fold (partition_step reported) pes (a, b, c) =
     (a @ filter (l1_included reported) pes, b @ filter (l1_disabled reported) pes,
      c @ map fst (filter (l1_skipped reported) pes))"
  by (induction pes arbitrary: a b c) (simp_all add: partition_step_closed)

lemma partition_closed:
  "partition_l1_components tree reported =
     (filter (l1_included reported) (entities tree), filter (l1_disabled reported) (entities tree),
      map fst (filter (l1_skipped reported) (entities tree)))"
  by (simp add: partition_l1_components_def partition_fold)

lemma entity_agreed_iff:
  "entity_agreed rep path e \<longleftrightarrow>
     (\<exists>re. bt_get (entities rep) path = Some re \<and>
        (\<forall>p \<in> set (e_parts e). p_content p \<in> p_content ` set (e_parts re)))"
proof -
  have "list_ex (\<lambda>rp. p_content rp = c) ps \<longleftrightarrow> c \<in> p_content ` set ps" for c and ps :: "Part list"
    by (auto simp: list_ex_iff)
  then show ?thesis
    by (simp add: entity_agreed_def list_all_iff split: option.split)
qed

section \<open>What is signed\<close>

text \<open>The component a part of the target becomes in the signed manifest: named by the component
  and the part, with the plaintext digest and size the device verifies, fetched from the blob
  store by its ciphertext address, its key wrapped for the device.\<close>

definition signed_part ::
    "'h hash_api \<Rightarrow> 'k offboard_api \<Rightarrow> 'i index_api \<Rightarrow> 'i \<Rightarrow> 'k Recipient \<Rightarrow> string \<Rightarrow> Part \<Rightarrow> ComponentSpec \<Rightarrow> bool" where
  "signed_part H Off A ix dev path p sp \<longleftrightarrow>
     (\<exists>entry wrapped. index_get A ix (p_content p) = Inr (Some entry) \<and>
        rewrap_cek_ecdh Off (ae_cek entry) (ae_nonce entry) dev = Inr wrapped \<and>
        sp = \<lparr>cs_id = [path, p_id p], cs_digest = ch_bytes (p_content p), cs_size = ae_size entry,
              cs_uri = to_prefixed H (ae_outer entry), cs_encryption_info = Some wrapped\<rparr>)"

definition signed_l2 ::
    "'h hash_api \<Rightarrow> 'k offboard_api \<Rightarrow> 'i index_api \<Rightarrow> i64 \<Rightarrow> 'k Signer \<Rightarrow> 'i \<Rightarrow> bytes \<Rightarrow> L1Request
      \<Rightarrow> ComponentEntry \<Rightarrow> string \<times> bytes \<Rightarrow> bool" where
  "signed_l2 H Off A clock s ix device_pubkey req pe l2 \<longleftrightarrow>
     fst l2 = fst pe \<and>
     (if e_disabled (snd pe)
      then disable_build Off (signing_now clock) (l1_seq req) [fst pe] (signer_key s) = Inr (snd l2)
      else \<exists>pk specs. from_cose_key_bytes Off device_pubkey = Inr pk \<and>
        list_all2 (signed_part H Off A ix \<lparr>rc_public_key = pk, rc_kid = as_bytes (l1_device_id req)\<rparr> (fst pe))
          (e_parts (snd pe)) specs \<and>
        multi_build Off (signing_now clock) (l1_seq req) specs (signer_key s) = Inr (snd l2))"

lemma envelope_part_ok:
  "envelope_part A ix True pid c = Inr ep \<longleftrightarrow>
     (\<exists>entry. index_get A ix c = Inr (Some entry) \<and>
        ep = \<lparr>ep_id = pid, ep_inner = ch_bytes c, ep_size = ae_size entry, ep_cek = ae_cek entry,
              ep_iv = ae_nonce entry, ep_outer = Some (ae_outer entry)\<rparr>)"
  by (auto simp: envelope_part_def res_simps)

lemma component_spec_ok:
  assumes "envelope_part A ix True (p_id p) (p_content p) = Inr ep"
    and "component_spec H Off dev path ep = Inr sp"
  shows "signed_part H Off A ix dev path p sp"
  using assms
  by (auto simp: envelope_part_ok component_spec_def res_simps signed_part_def envelope_uri_def)

lemma list_all2_compose:
  assumes "list_all2 P xs ys" and "list_all2 Q ys zs" and "\<And>x y z. P x y \<Longrightarrow> Q y z \<Longrightarrow> R x z"
  shows "list_all2 R xs zs"
  using assms(1,2) by (rule list_all2_trans [rotated]) (rule assms(3))

lemma l1_l2_signed:
  assumes "l1_l2 H Off A clock s ix device_pubkey req pe = Inr l2"
  shows "signed_l2 H Off A clock s ix device_pubkey req pe l2"
proof (cases pe)
  case (Pair path e)
  show ?thesis
  proof (cases "e_disabled e")
    case True
    with assms Pair show ?thesis
      by (auto simp: l1_l2_def signed_l2_def build_disable_envelope_def res_simps)
  next
    case False
    with assms Pair obtain eps pk specs b where
      eps: "list_all2 (\<lambda>p ep. envelope_part A ix True (p_id p) (p_content p) = Inr ep) (e_parts e) eps"
      and pk: "from_cose_key_bytes Off device_pubkey = Inr pk"
      and specs: "list_all2 (\<lambda>ep sp. component_spec H Off
            \<lparr>rc_public_key = pk, rc_kid = as_bytes (l1_device_id req)\<rparr> path ep = Inr sp) eps specs"
      and b: "multi_build Off (signing_now clock) (l1_seq req) specs (signer_key s) = Inr b"
      and l2: "l2 = (path, b)"
      by (auto simp: l1_l2_def build_envelope_def res_simps traverse_Inr_iff)
    have "list_all2 (signed_part H Off A ix \<lparr>rc_public_key = pk, rc_kid = as_bytes (l1_device_id req)\<rparr> path)
        (e_parts e) specs"
      by (rule list_all2_compose [OF eps specs]) (rule component_spec_ok)
    with pk b l2 False Pair show ?thesis
      by (auto simp: signed_l2_def)
  qed
qed

section \<open>Properties\<close>

text \<open>C20. The tower's split of a target against the vehicle's report, component by component: a
  disabled component is sent a disable exactly when the vehicle reports it enabled and is
  skipped otherwise; an enabled component with parts is built unless the vehicle reports it,
  not as disabled, with every desired content among its parts; one without parts is left
  out. The lists keep the order of the tree and no component is in two of them.\<close>

theorem partition_exact:
  assumes "bt_wf (entities tree)" and "partition_l1_components tree reported = (inc, dis, skip)"
    and "(path, e) \<in> set (entities tree)"
  shows "((path, e) \<in> set dis \<longleftrightarrow> e_disabled e \<and> l1_observed_admin reported path = Some False) \<and>
     ((path, e) \<in> set inc \<longleftrightarrow> \<not> e_disabled e \<and> e_parts e \<noteq> [] \<and>
        (l1_observed_admin reported path = Some True \<or>
         (\<forall>rep re. reported = Some rep \<longrightarrow> bt_get (entities rep) path = Some re \<longrightarrow>
            (\<exists>p \<in> set (e_parts e). p_content p \<notin> p_content ` set (e_parts re))))) \<and>
     (path \<in> set skip \<longleftrightarrow> (path, e) \<notin> set dis \<and> (path, e) \<notin> set inc \<and> (e_disabled e \<or> e_parts e \<noteq> [])) \<and>
     sorted_wrt (<) (map fst inc) \<and> sorted_wrt (<) (map fst dis) \<and> sorted_wrt (<) skip"
proof -
  have eqs: "inc = filter (l1_included reported) (entities tree)"
      "dis = filter (l1_disabled reported) (entities tree)"
      "skip = map fst (filter (l1_skipped reported) (entities tree))"
    using assms(2) by (simp_all add: partition_closed)
  have uniq: "e' = e" if "(path, e') \<in> set (entities tree)" for e'
    using that assms(1,3) btm.get_entries by (metis option.inject)
  have carried: "carried reported path e \<longleftrightarrow> l1_observed_admin reported path \<noteq> Some True \<and>
      (\<exists>rep re. reported = Some rep \<and> bt_get (entities rep) path = Some re \<and>
        (\<forall>p \<in> set (e_parts e). p_content p \<in> p_content ` set (e_parts re)))"
    by (simp add: carried_def entity_agreed_iff)
  have dis: "(path, e) \<in> set dis \<longleftrightarrow> e_disabled e \<and> l1_observed_admin reported path = Some False"
    using assms(3) by (simp add: eqs l1_disabled_def)
  have inc: "(path, e) \<in> set inc \<longleftrightarrow> \<not> e_disabled e \<and> e_parts e \<noteq> [] \<and> \<not> carried reported path e"
    using assms(3) by (simp add: eqs l1_included_def)
  have "path \<in> set skip \<longleftrightarrow> l1_skipped reported (path, e)"
  proof
    assume "path \<in> set skip"
    then obtain e' where "(path, e') \<in> set (entities tree)" and "l1_skipped reported (path, e')"
      unfolding eqs by auto
    with uniq show "l1_skipped reported (path, e)" by metis
  next
    assume "l1_skipped reported (path, e)"
    with assms(3) have "(path, e) \<in> set (filter (l1_skipped reported) (entities tree))" by simp
    then show "path \<in> set skip" unfolding eqs set_map by (rule rev_image_eqI) simp
  qed
  then have skip: "path \<in> set skip \<longleftrightarrow> (path, e) \<notin> set dis \<and> (path, e) \<notin> set inc \<and> (e_disabled e \<or> e_parts e \<noteq> [])"
    unfolding dis inc by (cases "e_disabled e") (auto simp: l1_skipped_def)
  have sorted: "sorted_wrt (<) (map fst inc)" "sorted_wrt (<) (map fst dis)" "sorted_wrt (<) skip"
    using assms(1) unfolding eqs bt_wf_def by (simp_all add: sorted_wrt_map sorted_wrt_filter)
  have "\<not> carried reported path e \<longleftrightarrow> (l1_observed_admin reported path = Some True \<or>
         (\<forall>rep re. reported = Some rep \<longrightarrow> bt_get (entities rep) path = Some re \<longrightarrow>
            (\<exists>p \<in> set (e_parts e). p_content p \<notin> p_content ` set (e_parts re))))"
    unfolding carried by blast
  with dis inc skip sorted show ?thesis by simp
qed

theorem partition_exact_witness:
  "(''vm1'', ex_entity [ex_part ''kernel'' 3, ex_part ''rootfs'' 2, ex_part ''policy'' 4])
     \<in> set (fst (partition_l1_components ex_desired (Some ex_observed)))"
proof -
  obtain inc dis skip where p: "partition_l1_components ex_desired (Some ex_observed) = (inc, dis, skip)"
    by (metis prod_cases3)
  have "(''vm1'', ex_entity [ex_part ''kernel'' 3, ex_part ''rootfs'' 2, ex_part ''policy'' 4]) \<in> set (entities ex_desired)"
    by (simp add: ex_desired_def)
  from partition_exact [OF tree_ok_wf [OF ex_trees_ok(2)] p this] p show ?thesis
    by (simp add: ex_tree_simps)
qed

lemma resolve_members_wf: "resolve_members_to_tree H d vid = Inr t \<Longrightarrow> bt_wf (entities t)"
  by (auto simp: resolve_members_to_tree_def res_simps)

lemma resolve_target_ok:
  assumes "resolve_target H d sel = Inr (Some tree)"
  shows "bt_wf (entities tree)"
    and "ts_tree_hash sel = Some th \<Longrightarrow> tree_hash H tree = th"
    and "ts_vehicle_release_id sel = Some vid \<Longrightarrow> resolve_members_to_tree H d vid = Inr tree"
proof -
  from assms obtain x where pre: "(case ts_vehicle_release_id sel of
          Some vid \<Rightarrow>
            if vid \<notin> vr_id ` set (db_vehicles d) then Inr None
            else try_bind (map_err db (resolve_members_to_tree H d vid)) (\<lambda>t. Inr (Some t))
        | None \<Rightarrow>
            (case ts_channel sel of
               Some channel \<Rightarrow>
                 map_err db (resolve_channel_target H d channel (ts_device sel) (ts_architecture sel))
             | None \<Rightarrow> Inl (BadRequest ''channel or vehicle_release_id is required''))) = Inr x"
    and post: "(case (ts_tree_hash sel, x) of
          (Some expected, Some t) \<Rightarrow>
            if tree_hash H t \<noteq> expected then Inl (BadRequest ''tree_hash does not match release'')
            else Inr x
        | _ \<Rightarrow> Inr x) = Inr (Some tree)"
    unfolding resolve_target_def try_bind_Inr_iff by blast
  have x: "x = Some tree" and th: "ts_tree_hash sel = Some th \<Longrightarrow> tree_hash H tree = th" for th
    using post by (cases "ts_tree_hash sel"; cases x; simp split: if_splits)+
  show "bt_wf (entities tree)"
    using pre unfolding x
    by (auto simp: resolve_channel_target_def res_simps split: option.splits if_splits
        dest: resolve_members_wf)
  show "ts_tree_hash sel = Some th \<Longrightarrow> tree_hash H tree = th"
    by (rule th)
  show "ts_vehicle_release_id sel = Some vid \<Longrightarrow> resolve_members_to_tree H d vid = Inr tree"
    using pre unfolding x by (auto simp: res_simps split: if_splits)
qed

lemma l1_assemble_ok:
  assumes "bt_wf (entities tree)"
    and "l1_assemble H Off A clock s ix device_pubkey req tree reported = Inr resp"
    and "partition_l1_components tree reported = (inc, dis, skip)"
  shows "case resp of
      NoContent \<Rightarrow> inc = [] \<and> dis = [] \<and> skip \<noteq> []
    | L1Body b \<Rightarrow> \<exists>l2s. l2s \<noteq> [] \<and> distinct (map fst l2s) \<and>
        list_all2 (signed_l2 H Off A clock s ix device_pubkey req) (inc @ dis) l2s \<and>
        campaign_build Off (signing_now clock) (l1_seq req) l2s (signer_key s) = Inr b"
proof -
  from assms(2,3) obtain l2s where l2s: "list_all2 (\<lambda>pe l2. l1_l2 H Off A clock s ix device_pubkey req pe = Inr l2) (inc @ dis) l2s"
    and r: "(if l2s = [] then (if skip \<noteq> [] then Inr NoContent else Inl NotFound)
            else try_bind (map_err (\<lambda>e. Internal (''L1 build failed: '' @ e))
                   (build_campaign Off clock s l2s (l1_seq req))) (\<lambda>l1. Inr (L1Body l1))) = Inr resp"
    by (auto simp: l1_assemble_def res_simps traverse_Inr_iff)
  have signed: "list_all2 (signed_l2 H Off A clock s ix device_pubkey req) (inc @ dis) l2s"
    using l2s by (rule list_all2_mono) (rule l1_l2_signed)
  have names: "map fst l2s = map fst (inc @ dis)"
    using signed by (induction rule: list_all2_induct) (auto simp: signed_l2_def)
  have inj: "inj_on fst (set (entities tree))" and d: "distinct (entities tree)"
    using bt_wf_distinct [OF assms(1)] by (auto simp: distinct_map)
  have "inc = filter (l1_included reported) (entities tree)" "dis = filter (l1_disabled reported) (entities tree)"
    using assms(3) by (simp_all add: partition_closed)
  then have "distinct (inc @ dis)" and "set (inc @ dis) \<subseteq> set (entities tree)"
    using d by (auto simp: l1_included_def l1_disabled_def)
  then have "distinct (map fst l2s)"
    unfolding names distinct_map using inj_on_subset [OF inj] by blast
  with signed r show ?thesis
    by (cases "l2s = []") (auto simp: build_campaign_def res_simps split: if_splits)
qed

text \<open>C9. What \<open>POST /channel-targets/l1\<close> answers is bound to the release the caller planned
  against and to what is signed: the tree is the one the selector resolves to, with the
  expected tree hash and, by release id, of a release for this device and architecture; a
  campaign embeds one L2 per component to build or disable, each once, whose signed parts
  are exactly the desired parts with the stored digest, size and blob address and the key
  wrapped for the requesting device; no content means there is nothing to ship and something
  was skipped.\<close>

theorem l1_campaign_exact:
  assumes "channel_target_l1 H Off A from_value clock s p ix req = Inr resp"
  shows "\<exists>d tree device_pubkey inc dis skip. p = Some d \<and>
     resolve_target H d (l1_selector_of req) = Inr (Some tree) \<and>
     hex_decode H (trim (l1_device_pubkey req)) = Some device_pubkey \<and>
     (\<forall>th. l1_tree_hash req = Some th \<longrightarrow> tree_hash H tree = th) \<and>
     (\<forall>vid. l1_vehicle_release_id req = Some vid \<longrightarrow>
        release_matches_target d vid (l1_device req) (l1_architecture req) \<and>
        resolve_members_to_tree H d vid = Inr tree) \<and>
     partition_l1_components tree (Option.bind (l1_current_state req) from_value) = (inc, dis, skip) \<and>
     (case resp of
        NoContent \<Rightarrow> inc = [] \<and> dis = [] \<and> skip \<noteq> []
      | L1Body b \<Rightarrow> \<exists>l2s. l2s \<noteq> [] \<and> distinct (map fst l2s) \<and>
          list_all2 (signed_l2 H Off A clock s ix device_pubkey req) (inc @ dis) l2s \<and>
          campaign_build Off (signing_now clock) (l1_seq req) l2s (signer_key s) = Inr b)"
proof -
  from assms obtain pk d tree where pk: "parse_device_pubkey H Off (l1_device_pubkey req) = Inr pk"
    and chk: "l1_check_target p req = Inr ()" and p: "p = Some d"
    and tree: "resolve_target H d (l1_selector_of req) = Inr (Some tree)"
    and asm: "l1_assemble H Off A clock s ix pk req tree (Option.bind (l1_current_state req) from_value) = Inr resp"
    by (auto simp: channel_target_l1_def Let_def res_simps pool_def)
  have hexpk: "hex_decode H (trim (l1_device_pubkey req)) = Some pk"
    using pk by (auto simp: parse_device_pubkey_def res_simps)
  obtain inc dis skip where part: "partition_l1_components tree (Option.bind (l1_current_state req) from_value) = (inc, dis, skip)"
    by (metis prod_cases3)
  have "\<forall>vid. l1_vehicle_release_id req = Some vid \<longrightarrow>
        release_matches_target d vid (l1_device req) (l1_architecture req) \<and>
        resolve_members_to_tree H d vid = Inr tree"
    using chk resolve_target_ok(3) [OF tree] p
    by (auto simp: l1_check_target_def l1_selector_of_def pool_def split: if_splits)
  moreover have "\<forall>th. l1_tree_hash req = Some th \<longrightarrow> tree_hash H tree = th"
    using resolve_target_ok(2) [OF tree] by (simp add: l1_selector_of_def)
  ultimately show ?thesis
    using p tree hexpk part l1_assemble_ok [OF resolve_target_ok(1) [OF tree] asm part] by blast
qed

section \<open>An example request\<close>

text \<open>A stand-in for \<open>sumo-offboard\<close> whose envelopes spell out what they were built from.\<close>

definition ref_offboard :: "bytes offboard_api" where
  "ref_offboard = \<lparr>generate_signing_key = Inr [1], from_cose_key_bytes = (\<lambda>b. if b = [] then Inl ''empty'' else Inr b),
     to_cose_key_bytes = (\<lambda>k. k), public_key_bytes = (\<lambda>k. k),
     rewrap_cek_ecdh = (\<lambda>cek iv rc. Inr (cek @ iv @ rc_public_key rc @ rc_kid rc)),
     multi_build = (\<lambda>t q specs k. Inr (concat (map cs_digest specs) @ k)),
     campaign_build = (\<lambda>t q l2s k. if l2s = [] then Inl ''no dependencies'' else Inr (concat (map snd l2s) @ k)),
     disable_build = (\<lambda>t q ids k. Inr (as_bytes (concat ids) @ k))\<rparr>"

definition ex_l1_db :: database where
  "ex_l1_db = ex_db\<lparr>
     db_components := [\<lparr>cr_id = 1, cr_entity_path = ''vm1'', cr_entity_kind = ''vm'', cr_version = ''1'',
       cr_identity_hash = Some ''c'', cr_created_at = 1\<rparr>],
     db_parts := [\<lparr>pr_release_id = 1, pr_part_id = ''kernel'', pr_part_kind = ''file'',
       pr_content_hash = to_prefixed ref_hash (ex_hash 1)\<rparr>],
     db_vehicles := [\<lparr>vr_id = 5, vr_tag = ''car'', vr_version = ''1'', vr_identity_hash = Some ''v'',
       vr_created_at = 1, vr_config_snapshot = None\<rparr>],
     db_members := [\<lparr>mr_vehicle_release_id = 5, mr_component_release_id = 1, mr_disabled = False\<rparr>],
     db_targets := [\<lparr>tr_vehicle_release_id = 5, tr_device = ''cvc'', tr_architecture = ''arm64''\<rparr>]\<rparr>"

definition ex_l1_index :: MemIndex where
  "ex_l1_index = [ex_hash 1 \<mapsto> \<lparr>ae_inner = ex_hash 1, ae_outer = ex_hash 9, ae_cek = replicate 16 3,
     ae_nonce = replicate 12 4, ae_size = 7\<rparr>]"

definition ex_l1_req :: L1Request where
  "ex_l1_req = \<lparr>l1_channel = None, l1_vehicle_release_id = Some 5, l1_tree_hash = None,
     l1_device = ''cvc'', l1_architecture = ''arm64'', l1_device_pubkey = ''0a'', l1_device_id = ''d1'',
     l1_current_state = None, l1_seq = 1\<rparr>"

lemma ex_hash_ok: "ch_ok (ex_hash n)"
  by (simp add: ex_hash_def ch_ok_def)

lemma ex_l1_tree:
  "resolve_members_to_tree ref_hash ex_l1_db 5 = Inr \<lparr>entities = [(''vm1'',
     \<lparr>e_kind = ''vm'', e_version = Some ''1'', e_update_mode = None, e_parts = [ex_part ''kernel'' 1],
      e_disabled = False, e_admin_disabled = None\<rparr>)]\<rparr>"
  using ex_hash_ok
  by (simp add: resolve_members_to_tree_def resolve_member_def resolve_part_def parse_stored_hash_def
      ex_l1_db_def ch_from_str_prefixed ref_hash_ok bt_collect_def ex_part_def Let_def)

lemma ex_l1_pubkey: "parse_device_pubkey ref_hash ref_offboard ''0a'' = Inr [10]"
  by code_simp

lemma ex_l1_answer:
  "channel_target_l1 ref_hash ref_offboard mem_index_api (\<lambda>_. None) 9 \<lparr>signer_key = [77]\<rparr> (Some ex_l1_db)
     ex_l1_index ex_l1_req = Inr (L1Body (replicate 32 1 @ [77, 77]))"
proof -
  have sel: "resolve_target ref_hash ex_l1_db (l1_selector_of ex_l1_req) = Inr (Some \<lparr>entities = [(''vm1'',
     \<lparr>e_kind = ''vm'', e_version = Some ''1'', e_update_mode = None, e_parts = [ex_part ''kernel'' 1],
      e_disabled = False, e_admin_disabled = None\<rparr>)]\<rparr>)"
    using ex_l1_tree by (simp add: resolve_target_def l1_selector_of_def ex_l1_req_def) (simp add: ex_l1_db_def)
  have chk: "l1_check_target (Some ex_l1_db) ex_l1_req = Inr ()"
    by (simp add: l1_check_target_def ex_l1_req_def pool_def release_matches_target_def ex_l1_db_def)
  have pk: "parse_device_pubkey ref_hash ref_offboard (l1_device_pubkey ex_l1_req) = Inr [10]"
    by (simp add: ex_l1_req_def ex_l1_pubkey)
  show ?thesis
    unfolding channel_target_l1_def pk Let_def chk pool_def ok_or_simps try_bind_simps sel
    by (simp add: l1_assemble_def partition_l1_components_def partition_step_def l1_l2_def
        envelope_part_def mem_index_api_def mem_get_def ex_l1_index_def build_envelope_def component_spec_def
        build_campaign_def ref_offboard_def ex_part_def ex_hash_def ex_l1_req_def)
qed

theorem l1_campaign_exact_witness:
  "\<exists>tree l2s. resolve_members_to_tree ref_hash ex_l1_db 5 = Inr tree \<and> map fst l2s = [''vm1''] \<and>
     list_all2 (signed_l2 ref_hash ref_offboard mem_index_api 9 \<lparr>signer_key = [77]\<rparr> ex_l1_index [10] ex_l1_req)
       (entities tree) l2s"
proof -
  from l1_campaign_exact [OF ex_l1_answer] ex_l1_tree
  obtain d tree pk inc dis skip l2s where "Some ex_l1_db = Some d"
    and pk: "hex_decode ref_hash (trim (l1_device_pubkey ex_l1_req)) = Some pk"
    and t: "resolve_members_to_tree ref_hash d 5 = Inr tree"
    and part: "partition_l1_components tree None = (inc, dis, skip)"
    and l2s: "list_all2 (signed_l2 ref_hash ref_offboard mem_index_api 9 \<lparr>signer_key = [77]\<rparr> ex_l1_index pk ex_l1_req)
       (inc @ dis) l2s"
    by (fastforce simp: ex_l1_req_def)
  then have d: "resolve_members_to_tree ref_hash ex_l1_db 5 = Inr tree" by simp
  have "inc @ dis = entities tree"
    using part d unfolding ex_l1_tree
    by (auto simp: partition_closed l1_included_def l1_disabled_def carried_def l1_observed_admin_def ex_part_def)
  moreover have "pk = [10]"
    using pk ex_l1_pubkey by (auto simp: ex_l1_req_def parse_device_pubkey_def res_simps)
  moreover have "map fst l2s = map fst (inc @ dis)"
    using l2s by (induction rule: list_all2_induct) (auto simp: signed_l2_def)
  ultimately show ?thesis
    using d l2s unfolding ex_l1_tree by auto
qed

end
