(* ===== verification/Tower_Props.thy ===== *)
theory Tower_Props
  imports Towers L1_Props
begin

text \<open>
  The software tower as a running service: its state invariant over any history of requests,
  faults, outages and restarts, and its bootstrap.
\<close>

section \<open>Keys and contents\<close>

text \<open>\<open>indexed_sound\<close>: the key and nonce of an indexed artifact decrypt a ciphertext with the indexed
  address to bytes with the artifact's address.\<close>

definition indexed_sound ::
    "'h hash_api \<Rightarrow> 's aead_api \<Rightarrow> 'z zstd_api \<Rightarrow> (ContentHash \<Rightarrow> ArtifactEntry option) \<Rightarrow> bool" where
  "indexed_sound H B Z look \<longleftrightarrow>
     (\<forall>k e. look k = Some e \<longrightarrow>
        (\<exists>ct p. ContentHash_of H ct = ae_outer e \<and> decrypts_to B Z (ae_cek e) (ae_nonce e) ct p \<and>
           ContentHash_of H p = k))"

context artifact_index
begin

lemma publish_index_grows:
  assumes p: "publish_stream H B Z A io body (fs, ix) = ((fs', ix'), r)"
    and laws: "aead_ok B" "zstd_ok Z" and inv: "invar ix"
  shows "look ix \<subseteq>\<^sub>m look ix'" "indexed_sound H B Z (look ix) \<Longrightarrow> indexed_sound H B Z (look ix')"
proof -
  have "look ix \<subseteq>\<^sub>m look ix' \<and> (indexed_sound H B Z (look ix) \<longrightarrow> indexed_sound H B Z (look ix'))"
    using publish_stream_spec [OF ok p]
  proof cases
    case (indexed ct cs cek nonce)
    let ?e = "\<lparr>ae_inner = ContentHash_of H (concat cs), ae_outer = ContentHash_of H ct, ae_cek = cek,
       ae_nonce = nonce, ae_size = word_of_nat (length (concat cs))\<rparr>"
    have e: "entry_ok ?e"
      using indexed(5) laws ContentHash_of_ok [OF ok] by (simp add: entry_ok_def)
    have new: "look ix (ContentHash_of H (concat cs)) = None"
      using get_law [OF inv indexed(4)] by simp
    with put_law [OF inv e indexed(6)] have look': "look ix' = (look ix)(ContentHash_of H (concat cs) \<mapsto> ?e)"
      by simp
    have dec: "decrypts_to B Z cek nonce ct (concat cs)"
      using indexed(5) laws by simp
    have "indexed_sound H B Z (look ix')" if "indexed_sound H B Z (look ix)"
      unfolding indexed_sound_def
    proof (intro allI impI)
      fix k e'
      assume k: "look ix' k = Some e'"
      show "\<exists>ct p. ContentHash_of H ct = ae_outer e' \<and> decrypts_to B Z (ae_cek e') (ae_nonce e') ct p \<and>
          ContentHash_of H p = k"
      proof (cases "k = ContentHash_of H (concat cs)")
        case True
        with k look' have "e' = ?e"
          by simp
        with True dec show ?thesis
          by (intro exI [of _ ct] exI [of _ "concat cs"]) simp
      next
        case False
        with k look' that show ?thesis by (simp add: indexed_sound_def)
      qed
    qed
    then show ?thesis
      using new look' by (auto simp: map_le_def)
  qed simp_all
  then show "look ix \<subseteq>\<^sub>m look ix'" "indexed_sound H B Z (look ix) \<Longrightarrow> indexed_sound H B Z (look ix')"
    by simp_all
qed

end

context hash_crate
begin

lemmas pg_publish_index_grows = pg.publish_index_grows

end

section \<open>The state invariant\<close>

definition tower_ok :: "('h, 's, 'z, 'k) hub_crates \<Rightarrow> 'k hub_state \<Rightarrow> bool" where
  "tower_ok C st \<longleftrightarrow>
     pg_wf (hx_hash C) (hs_index st) \<and>
     content_ok (hx_hash C) (pg_look (hx_hash C) (hs_index st)) (hs_blobs st) \<and>
     indexed_sound (hx_hash C) (hx_aead C) (hx_zstd C) (pg_look (hx_hash C) (hs_index st)) \<and>
     (\<forall>d. hs_pool st = Some d \<longrightarrow> db_wf d)"

text \<open>What a request, an outage or a restart may change: artifacts are added and never re-keyed,
  releases are added and never change what they resolve to, the signer stays.\<close>

definition tower_grows :: "('h, 's, 'z, 'k) hub_crates \<Rightarrow> 'k hub_state \<Rightarrow> 'k hub_state \<Rightarrow> bool" where
  "tower_grows C st st' \<longleftrightarrow>
     hs_signer st' = hs_signer st \<and>
     pg_look (hx_hash C) (hs_index st) \<subseteq>\<^sub>m pg_look (hx_hash C) (hs_index st') \<and>
     (case (hs_pool st, hs_pool st') of
        (Some d, Some d') \<Rightarrow> (release_step (hx_hash C))\<^sup>*\<^sup>* d d'
      | (None, None) \<Rightarrow> True
      | _ \<Rightarrow> False)"

definition redraw :: "string + bytes \<Rightarrow> string + bytes \<Rightarrow> ('h, 's, 'z, 'k) hub_crates \<Rightarrow> ('h, 's, 'z, 'k) hub_crates" where
  "redraw k n C = C\<lparr>hx_aead := (hx_aead C)\<lparr>random_cek := k, random_nonce := n\<rparr>\<rparr>"

text \<open>A history of the tower: requests with any faults and any key drawn, time passing, the index
  database going down and coming back, the process restarting (a new process id, the counter of
  temporary names back at zero).\<close>

inductive hub_step :: "('h, 's, 'z, 'k) hub_crates \<Rightarrow> 'k hub_state \<Rightarrow> 'k hub_state \<Rightarrow> bool" for C where
  request: "hub_handle (redraw k n C) io clock st rq = (st', r) \<Longrightarrow> aead_ok (hx_aead (redraw k n C)) \<Longrightarrow>
     hub_step C st st'"
| tick: "hs_pool st = Some d \<Longrightarrow> db_now d \<le> t \<Longrightarrow> hub_step C st (st\<lparr>hs_pool := Some (d\<lparr>db_now := t\<rparr>)\<rparr>)"
| outage: "hub_step C st (st\<lparr>hs_index := (hs_index st)\<lparr>pg_down := b\<rparr>\<rparr>)"
| restart: "hub_step C st (st\<lparr>hs_blobs := (hs_blobs st)\<lparr>fs_pid := pid, temp_seq := 0\<rparr>\<rparr>)"

lemma redraw_simps [simp]:
  "hx_hash (redraw k n C) = hx_hash C" "hx_zstd (redraw k n C) = hx_zstd C"
  "aead_decrypt (hx_aead (redraw k n C)) = aead_decrypt (hx_aead C)"
  by (simp_all add: redraw_def)

lemma indexed_sound_redraw [simp]:
  "indexed_sound H (hx_aead (redraw k n C)) Z look = indexed_sound H (hx_aead C) Z look"
  by (simp add: indexed_sound_def decrypts_to_def)

lemma tower_ok_redraw [simp]: "tower_ok (redraw k n C) st = tower_ok C st"
  by (simp add: tower_ok_def)

lemma tower_grows_redraw [simp]: "tower_grows (redraw k n C) st st' = tower_grows C st st'"
  unfolding tower_grows_def redraw_simps ..

lemma tower_grows_refl: "tower_grows C st st"
  by (auto simp: tower_grows_def split: option.splits)

lemma tower_grows_trans: "tower_grows C a b \<Longrightarrow> tower_grows C b c \<Longrightarrow> tower_grows C a c"
  by (auto simp: tower_grows_def intro: map_le_trans rtranclp_trans split: option.splits)

lemma hub_write_step:
  assumes w: "hub_write st f = (st', r)" and step: "\<And>d d' x. f d = (d', x) \<Longrightarrow> release_step (hx_hash C) d d'"
    and ok: "tower_ok C st"
  shows "tower_ok C st' \<and> tower_grows C st st'"
proof (cases "hs_pool st")
  case None
  then show ?thesis
    using w ok tower_grows_refl by (auto simp: hub_write_def pool_def ok_or_def)
next
  case (Some d)
  obtain d' x where f: "f d = (d', x)"
    by (cases "f d")
  have st': "st' = st\<lparr>hs_pool := Some d'\<rparr>"
    using w Some f by (simp add: hub_write_def pool_def ok_or_def)
  have steps: "(release_step (hx_hash C))\<^sup>*\<^sup>* d d'"
    using step [OF f] by (rule r_into_rtranclp)
  have "db_wf d'"
    using release_run.history [OF steps] ok Some by (simp add: tower_ok_def)
  then show ?thesis
    using ok Some steps by (auto simp: st' tower_ok_def tower_grows_def)
qed

lemma hub_publish_step:
  assumes H: "hash_api_ok (hx_hash C)" and laws: "aead_ok (hx_aead C)" "zstd_ok (hx_zstd C)"
    and h: "hub_handle C io clock st (HubPublish body) = (st', r)" and ok: "tower_ok C st"
  shows "tower_ok C st' \<and> tower_grows C st st'"
proof -
  let ?H = "hx_hash C"
  obtain fs ix x where p: "publish_stream ?H (hx_aead C) (hx_zstd C) (pg_index_api ?H) io body (hs_blobs st, hs_index st) =
      ((fs, ix), x)"
    by (metis surj_pair)
  have st': "st' = st\<lparr>hs_blobs := fs, hs_index := ix\<rparr>"
    using h p by (simp add: hub_handle_def publish_def Let_def)
  have inv: "pg_wf ?H (hs_index st)" and c: "content_ok ?H (pg_look ?H (hs_index st)) (hs_blobs st)"
    and snd: "indexed_sound ?H (hx_aead C) (hx_zstd C) (pg_look ?H (hs_index st))"
    using ok by (simp_all add: tower_ok_def)
  note hc = hash_crate.intro [OF H]
  show ?thesis
    using hash_crate.pg_publish_content_ok [OF hc p laws inv c]
      hash_crate.pg_publish_index_grows [OF hc p laws inv] snd ok
    by (auto simp: tower_ok_def tower_grows_def st' split: option.splits)
qed

lemma hub_request_step:
  assumes H: "hash_api_ok (hx_hash C)" and laws: "aead_ok (hx_aead C)" "zstd_ok (hx_zstd C)"
    and h: "hub_handle C io clock st rq = (st', r)" and ok: "tower_ok C st"
  shows "tower_ok C st' \<and> tower_grows C st st'"
proof -
  have same: "tower_ok C st \<and> tower_grows C st st"
    using ok tower_grows_refl by blast
  show ?thesis
  proof (cases rq)
    case (HubPublish body)
    with h show ?thesis
      using hub_publish_step [OF H laws _ ok] by blast
  next
    case (HubCreateComponent q)
    then have "hub_write st (\<lambda>d. case create_component_release (hx_hash C) d q of (d', x) \<Rightarrow> (d', map_ok AnsRelease x)) = (st', r)"
      using h by (simp add: hub_handle_def Let_def)
    then show ?thesis
      by (rule hub_write_step [OF _ _ ok]) (auto split: prod.splits intro: release_step.component)
  next
    case (HubCreateVehicle q)
    then have "hub_write st (\<lambda>d. case create_vehicle_release (hx_hash C) d q of (d', x) \<Rightarrow> (d', map_ok AnsRelease x)) = (st', r)"
      using h by (simp add: hub_handle_def Let_def)
    then show ?thesis
      by (rule hub_write_step [OF _ _ ok]) (auto split: prod.splits intro: release_step.vehicle)
  next
    case (HubSetChannelTarget q)
    then have "hub_write st (\<lambda>d. case set_channel_target (hx_hash C) d q of (d', x) \<Rightarrow> (d', map_ok AnsChannelRef x)) = (st', r)"
      using h by (simp add: hub_handle_def Let_def)
    then show ?thesis
      by (rule hub_write_step [OF _ _ ok]) (auto split: prod.splits intro: release_step.channel)
  qed (use h same in \<open>auto simp: hub_handle_def Let_def\<close>)
qed

lemma pg_down_irrelevant [simp]:
  "pg_wf H (ix\<lparr>pg_down := b\<rparr>) = pg_wf H ix" "pg_look H (ix\<lparr>pg_down := b\<rparr>) = pg_look H ix"
  by (simp_all add: pg_wf_def pg_look_def fun_eq_iff)

lemma db_wf_now [simp]: "db_wf (d\<lparr>db_now := t\<rparr>) = db_wf d"
  by (simp add: db_wf_def table_wf_defs)

lemma hub_step_ok:
  assumes "hash_api_ok (hx_hash C)" "zstd_ok (hx_zstd C)" "hub_step C st st'" "tower_ok C st"
  shows "tower_ok C st' \<and> tower_grows C st st'"
  using assms(3)
proof cases
  case (request k n io clock rq r)
  have "tower_ok (redraw k n C) st' \<and> tower_grows (redraw k n C) st st'"
    by (rule hub_request_step [OF _ request(2) _ request(1)]) (simp_all add: assms)
  then show ?thesis
    by simp
next
  case (tick d t)
  then have "(release_step (hx_hash C))\<^sup>*\<^sup>* d (d\<lparr>db_now := t\<rparr>)"
    by (intro r_into_rtranclp release_step.tick)
  with tick assms(4) show ?thesis
    by (simp add: tower_ok_def tower_grows_def)
next
  case (outage b)
  with assms(4) show ?thesis
    by (auto simp: tower_ok_def tower_grows_def split: option.splits)
next
  case (restart pid)
  with assms(4) show ?thesis
    by (auto simp: tower_ok_def tower_grows_def content_ok_def split: option.splits)
qed

interpretation tower_run: growing_system "hub_step C"
  "\<lambda>st. hash_api_ok (hx_hash C) \<and> zstd_ok (hx_zstd C) \<and> tower_ok C st" "tower_grows C" for C
proof unfold_locales
  show "tower_grows C s s" if "hash_api_ok (hx_hash C) \<and> zstd_ok (hx_zstd C) \<and> tower_ok C s" for s
    by (rule tower_grows_refl)
  show "tower_grows C s u" if "tower_grows C s t" "tower_grows C t u" for s t u
    using that by (rule tower_grows_trans)
qed (blast dest: hub_step_ok)

text \<open>C4. The software tower stays consistent over its whole life: over any history of requests to all
  its routes, with any file, crate and database faults and any keys drawn, outages and restarts
  included, every blob stays filed under its own address and every indexed artifact keeps its
  blob and one key, which decrypts the ciphertext with that address to bytes with the artifact's
  address; the release tables keep their integrity, every release resolves to the tree it resolved
  to before, and the signing key does not change.\<close>

theorem tower_invariant:
  assumes "hash_api_ok (hx_hash C)" and "zstd_ok (hx_zstd C)" and "tower_ok C st" and "(hub_step C)\<^sup>*\<^sup>* st st'"
  shows "tower_ok C st' \<and> hs_signer st' = hs_signer st \<and>
    (\<forall>k e. pg_look (hx_hash C) (hs_index st) k = Some e \<longrightarrow> pg_look (hx_hash C) (hs_index st') k = Some e) \<and>
    (\<forall>d vid. hs_pool st = Some d \<and> vid \<in> vr_id ` set (db_vehicles d) \<longrightarrow>
       (\<exists>d'. hs_pool st' = Some d' \<and>
          resolve_members_to_tree (hx_hash C) d' vid = resolve_members_to_tree (hx_hash C) d vid))"
proof -
  have ok: "tower_ok C st'" and g: "tower_grows C st st'"
    using tower_run.history [OF assms(4)] assms(1-3) by simp_all
  have keep: "pg_look (hx_hash C) (hs_index st') k = Some e" if "pg_look (hx_hash C) (hs_index st) k = Some e" for k e
    using g that by (auto simp: tower_grows_def map_le_def dom_def)
  have rel: "\<exists>d'. hs_pool st' = Some d' \<and>
      resolve_members_to_tree (hx_hash C) d' vid = resolve_members_to_tree (hx_hash C) d vid"
    if d: "hs_pool st = Some d" and vid: "vid \<in> vr_id ` set (db_vehicles d)" for d vid
  proof -
    obtain d' where d': "hs_pool st' = Some d'" and steps: "(release_step (hx_hash C))\<^sup>*\<^sup>* d d'"
      using g d by (auto simp: tower_grows_def split: option.splits)
    have wf: "db_wf d"
      using assms(3) d by (simp add: tower_ok_def)
    show ?thesis
      using d' resolve_extends [OF wf _ vid] release_run.history [OF steps wf] by blast
  qed
  show ?thesis
    using ok g keep rel by (auto simp: tower_grows_def)
qed

definition ex_hub :: "(bytes, u8, bytes, bytes) hub_crates" where
  "ex_hub = \<lparr>hx_hash = ref_hash, hx_aead = ref_aead, hx_zstd = ref_zstd, hx_off = ref_offboard,
     hx_from_value = (\<lambda>_. None), hx_chunks = (\<lambda>b. [Inr b]), hx_body = (\<lambda>_. []), hx_de_component = (\<lambda>_. None),
     hx_de_vehicle = (\<lambda>_. None), hx_de_target = (\<lambda>_. None), hx_de_l1 = (\<lambda>_. None), hx_de_envelope = (\<lambda>_. None),
     hx_version = ''0.1.0''\<rparr>"

definition ex_hub_state :: "bytes hub_state" where
  "ex_hub_state = \<lparr>hs_blobs = ex_fs, hs_index = ex_pg, hs_pool = Some ex_db_v, hs_signer = \<lparr>signer_key = [77]\<rparr>\<rparr>"

lemma ex_hub_ok: "hash_api_ok (hx_hash ex_hub)" "zstd_ok (hx_zstd ex_hub)" "aead_ok (hx_aead ex_hub)"
  "tower_ok ex_hub ex_hub_state"
proof -
  have "indexed_sound H B Z (pg_look H ex_pg)" for H :: "'x hash_api" and B :: "'y aead_api" and Z :: "'w zstd_api"
    by (simp add: indexed_sound_def pg_look_def ex_pg_def)
  then show "hash_api_ok (hx_hash ex_hub)" "zstd_ok (hx_zstd ex_hub)" "aead_ok (hx_aead ex_hub)"
      "tower_ok ex_hub ex_hub_state"
    using ref_hash_ok ref_zstd_ok ref_aead_ok ex_store_ok ex_db_v_wf
    by (simp_all add: ex_hub_def tower_ok_def ex_hub_state_def)
qed

lemma redraw_same: "redraw (random_cek (hx_aead C)) (random_nonce (hx_aead C)) C = C"
  by (simp add: redraw_def)

theorem tower_invariant_witness:
  "\<exists>st'. hub_step ex_hub ex_hub_state st' \<and> tower_ok ex_hub st' \<and>
     st' = fst (hub_handle ex_hub (\<lambda>op. op = FlushSync ''x'') 9 ex_hub_state (HubPublish [Inr [1], Inr [2]]))"
proof -
  obtain st' r where h: "hub_handle ex_hub (\<lambda>op. op = FlushSync ''x'') 9 ex_hub_state (HubPublish [Inr [1], Inr [2]]) = (st', r)"
    by (rule prod.exhaust)
  have step: "hub_step ex_hub ex_hub_state st'"
    by (rule hub_step.request [of "random_cek (hx_aead ex_hub)" "random_nonce (hx_aead ex_hub)"])
      (use h ex_hub_ok(3) in \<open>simp_all only: redraw_same\<close>)
  then have "(hub_step ex_hub)\<^sup>*\<^sup>* ex_hub_state st'"
    by (rule r_into_rtranclp)
  from tower_invariant [OF ex_hub_ok(1,2,4) this] step h show ?thesis
    by auto
qed

section \<open>Bootstrap\<close>

lemma connect_attempts_fail:
  "\<forall>i \<in> set xs. isl (connect i) \<Longrightarrow>
   connect_attempts connect xs le slept =
     (Inl (if xs = [] then le else Some (projl (connect (last xs)))), slept + length xs)"
  by (induction xs arbitrary: le slept) (auto simp: isl_def)

lemma connect_attempts_first:
  "\<forall>i \<in> set xs. isl (connect i) \<Longrightarrow> connect i = Inr p \<Longrightarrow>
   connect_attempts connect (xs @ i # ys) le slept = (Inr p, slept + length xs)"
  by (induction xs arbitrary: le slept) (auto simp: isl_def)

text \<open>C37. Starting a tower always ends: the database is tried at most fifteen times, with at most fifteen
  seconds of sleep, and the start never panics on its own bookkeeping. It gets the connection of
  the first attempt that succeeds, when one of the fifteen does, and otherwise reports the
  error of the last attempt.\<close>

theorem connect_with_retry_bounded:
  "snd (connect_with_retry connect url) \<le> 15 \<and>
   (case fst (connect_with_retry connect url) of
      Inr p \<Rightarrow> \<exists>i. 1 \<le> i \<and> i \<le> 15 \<and> connect i = Inr p \<and> snd (connect_with_retry connect url) = i - 1 \<and>
        (\<forall>j. 1 \<le> j \<and> j < i \<longrightarrow> (\<exists>e. connect j = Inl e))
    | Inl f \<Rightarrow> (\<forall>j. 1 \<le> j \<and> j \<le> 15 \<longrightarrow> (\<exists>e. connect j = Inl e)) \<and>
        (\<exists>e. connect 15 = Inl e \<and> f = StartError (''could not connect to postgres at '' @ url @ '': '' @ e)))"
proof (cases "\<exists>i. 1 \<le> i \<and> i \<le> 15 \<and> \<not> isl (connect i)")
  case False
  then have all: "\<And>j. 1 \<le> j \<Longrightarrow> j \<le> 15 \<Longrightarrow> isl (connect j)"
    by blast
  then have none: "\<forall>i \<in> set [1..<16]. isl (connect i)"
    by simp
  have "last [1..<16] = (15 :: nat)"
    by simp
  moreover obtain e where e: "connect 15 = Inl e"
    using all [of 15] by (auto simp: isl_def)
  ultimately have "connect_with_retry connect url =
      (Inl (StartError (''could not connect to postgres at '' @ url @ '': '' @ e)), 15)"
    unfolding connect_with_retry_def connect_attempts_fail [OF none] by simp
  then show ?thesis
    using all e by (auto simp: isl_def)
next
  case True
  define i where "i = (LEAST i. 1 \<le> i \<and> i \<le> 15 \<and> \<not> isl (connect i))"
  have i: "1 \<le> i" "i \<le> 15" "\<not> isl (connect i)"
    using LeastI_ex [OF True] by (simp_all add: i_def)
  have before: "isl (connect j)" if "1 \<le> j" "j < i" for j
    using not_less_Least [of j "\<lambda>i. 1 \<le> i \<and> i \<le> 15 \<and> \<not> isl (connect i)"] that i(2) by (auto simp: i_def)
  have upt: "[1..<16] = [1..<i] @ i # [Suc i..<16]"
    using i upt_add_eq_append [of 1 i "16 - i"] upt_conv_Cons [of i 16] by simp
  have pre: "\<forall>j \<in> set [1..<i]. isl (connect j)"
    using before by auto
  obtain p where p: "connect i = Inr p"
    using i(3) by (cases "connect i") simp_all
  have "connect_with_retry connect url = (Inr p, i - 1)"
    unfolding connect_with_retry_def upt connect_attempts_first [OF pre p] by simp
  then show ?thesis
    using i p before by (auto simp: isl_def)
qed

theorem connect_with_retry_bounded_witness:
  "fst (connect_with_retry (\<lambda>i. if i = 3 then Inr () else Inl ''e'') ''u'') = Inr () \<and>
   snd (connect_with_retry (\<lambda>i. if i = 3 then Inr () else Inl ''e'') ''u'') \<le> 15"
  using connect_with_retry_bounded [of "\<lambda>i. if i = 3 then Inr () else Inl ''e''" "''u''"]
  by (cases "fst (connect_with_retry (\<lambda>i. if i = 3 then Inr () else Inl ''e'') ''u'')") (auto dest!: spec [of _ 3])

text \<open>The signing key of a start that succeeded is in its file.\<close>

lemma signer_persisted:
  assumes codec: "\<forall>k. from_cose_key_bytes Off (to_cose_key_bytes Off k) = Inr k"
    and l: "load_or_generate_signer Off fault fs path = (fs', Inr s)"
  shows "\<exists>b m. fs' path = Some (b, m) \<and> Signer_from_cbor Off b = Inr s \<and> (fs path = None \<longrightarrow> m = 384)"
proof (cases "fs path")
  case (Some bm)
  with l show ?thesis
    by (cases bm) (auto simp: load_or_generate_signer_def ca_fs_read_def res_simps split: option.splits)
next
  case None
  obtain k where s: "s = \<lparr>signer_key = k\<rparr>"
    by (cases s) auto
  have "fs' path = Some (to_cose_key_bytes Off k, 384)"
    using l None s
    by (auto simp: load_or_generate_signer_def ca_fs_write_def ca_fs_set_mode_def Signer_to_cbor_def Let_def
        split: sum.splits option.splits prod.splits if_splits)
  then show ?thesis
    using codec by (simp add: Signer_from_cbor_def s)
qed

lemma signer_reload:
  assumes "fs path = Some (b, m)" "Signer_from_cbor Off b = Inr s" "fault (CaRead path) = None"
  shows "load_or_generate_signer (Off\<lparr>generate_signing_key := g\<rparr>) fault fs path = (fs, Inr s)"
  using assms by (simp add: load_or_generate_signer_def ca_fs_read_def Signer_from_cbor_def map_err_def)

lemma connect_with_retry_succeeds:
  assumes "1 \<le> i" "i \<le> 15" "connect i = Inr p"
  shows "\<exists>q. fst (connect_with_retry connect url) = Inr q"
proof (cases "fst (connect_with_retry connect url)")
  case (Inl f)
  have "\<forall>xs le slept. (\<exists>j \<in> set xs. \<not> isl (connect j)) \<longrightarrow> (\<exists>q. fst (connect_attempts connect xs le slept) = Inr q)"
  proof
    fix xs
    show "\<forall>le slept. (\<exists>j \<in> set xs. \<not> isl (connect j)) \<longrightarrow> (\<exists>q. fst (connect_attempts connect xs le slept) = Inr q)"
      by (induction xs) (auto split: sum.splits)
  qed
  moreover have "\<exists>j \<in> set [1..<16]. \<not> isl (connect j)"
    using assms by (intro bexI [of _ i]) auto
  ultimately obtain q where "fst (connect_attempts connect [1..<16] None 0) = Inr q"
    by blast
  then show ?thesis
    by (cases "connect_attempts connect [1..<16] None 0") (simp add: connect_with_retry_def)
qed blast

text \<open>C32. A restarted tower comes back as the same authority: once a start succeeded, a later start over
  the files it left, with the database up within fifteen attempts and migrating and the key file
  readable, does succeed, and signs with the same key, whatever key a generation would draw now; a
  generated key file is readable by its owner alone.\<close>

theorem hub_restart_same_signer:
  assumes "\<forall>k. from_cose_key_bytes Off (to_cose_key_bytes Off k) = Inr k"
    and "hub_main Off fault connect migrate url path blobs fs = (fs', Inr st)"
    and "1 \<le> i" and "i \<le> 15" and "connect2 i = Inr p" and "\<forall>q. \<exists>x. migrate2 q = Inr x"
    and "fault2 (CaRead path) = None"
  shows "(\<exists>st2. hub_main (Off\<lparr>generate_signing_key := g\<rparr>) fault2 connect2 migrate2 url2 path blobs2 fs' = (fs', Inr st2) \<and>
      hs_signer st2 = hs_signer st) \<and>
    (fs path = None \<longrightarrow> (\<exists>b. fs' path = Some (b, 384)))"
proof -
  have "load_or_generate_signer Off fault fs path = (fs', Inr (hs_signer st))"
    using assms(2) by (auto simp: hub_main_def split: sum.splits prod.splits)
  from signer_persisted [OF assms(1) this] obtain b m where
    b: "fs' path = Some (b, m)" "Signer_from_cbor Off b = Inr (hs_signer st)" "fs path = None \<longrightarrow> m = 384"
    by (elim exE conjE) (rule that)
  obtain q where q: "fst (connect_with_retry connect2 url2) = Inr q"
    using connect_with_retry_succeeds [where connect = connect2, OF assms(3,4,5)] by blast
  obtain ix d where m2: "migrate2 q = Inr (ix, d)"
    using assms(6) by (metis surj_pair)
  have "hub_main (Off\<lparr>generate_signing_key := g\<rparr>) fault2 connect2 migrate2 url2 path blobs2 fs' =
      (fs', Inr \<lparr>hs_blobs = blobs2, hs_index = ix, hs_pool = Some d, hs_signer = hs_signer st\<rparr>)"
    using q m2 signer_reload [of fs' path b m Off "hs_signer st" fault2 g] b(1,2) assms(7) by (simp add: hub_main_def)
  then show ?thesis
    using b by auto
qed

definition ex_raw_keys :: "bytes offboard_api" where
  "ex_raw_keys = ref_offboard\<lparr>from_cose_key_bytes := Inr\<rparr>"

lemma ex_hub_start:
  "hub_main ex_raw_keys (\<lambda>_. None) (\<lambda>i. if i = 2 then Inr () else Inl ''down'') (\<lambda>_. Inr (ex_pg, ex_db)) ''u'' ''key'' ex_fs
     (\<lambda>_. None) = ((\<lambda>_. None)(''key'' \<mapsto> ([1], 384)),
       Inr \<lparr>hs_blobs = ex_fs, hs_index = ex_pg, hs_pool = Some ex_db, hs_signer = \<lparr>signer_key = [1]\<rparr>\<rparr>)"
proof -
  have "connect_attempts (\<lambda>i. if i = 2 then Inr () else Inl ''down'') [1..<16] None 0 = (Inr (), 1)"
    by (simp add: upt_rec)
  then have "fst (connect_with_retry (\<lambda>i. if i = 2 then Inr () else Inl ''down'') ''u'') = Inr ()"
    by (simp add: connect_with_retry_def)
  then show ?thesis
    by (simp add: hub_main_def load_or_generate_signer_def ex_raw_keys_def ref_offboard_def Signer_generate_def
        Signer_to_cbor_def ca_fs_write_def ca_fs_set_mode_def map_err_def DEFAULT_MODE_def)
qed

theorem hub_restart_same_signer_witness:
  "\<exists>st2. hub_main (ex_raw_keys\<lparr>generate_signing_key := Inr [2]\<rparr>) (\<lambda>_. None) (\<lambda>_. Inr ()) (\<lambda>_. Inr (ex_pg, ex_db))
      ''u'' ''key'' ex_fs ((\<lambda>_. None)(''key'' \<mapsto> ([1], 384))) = ((\<lambda>_. None)(''key'' \<mapsto> ([1], 384)), Inr st2) \<and>
    hs_signer st2 = \<lparr>signer_key = [1]\<rparr>"
  using hub_restart_same_signer [OF _ ex_hub_start, of 1 "\<lambda>_. Inr ()" "()" "\<lambda>_. Inr (ex_pg, ex_db)" "\<lambda>_. None" "Inr [2]" "''u''" ex_fs]
  by (simp add: ex_raw_keys_def ref_offboard_def)

end
