(* ===== verification/Orchestrator.thy ===== *)
theory Orchestrator
  imports Client
begin

text \<open>
  \<open>crates/orchestrator/src/lib.rs\<close>: reading a rig, planning, the fan-out of the signed L1, the
  flash jobs and campaign steps, the boot-bound token, and the verdict verbs.

  Outside the repository, and so arguments: the rig as it answers over SOVD and HTTP
  (\<open>rig_api\<close>, with the decoders of its JSON), the SUIT decoder (\<open>suit_api\<close>), the flash engine
  (\<open>engine_api\<close>, a transformer of a world \<open>'w\<close>) and the transport to the towers.
\<close>

section \<open>The rig\<close>

datatype SovdClientError = ServerError nat string | SovdTransport string

record sovd_component =
  sovc_id :: string
  sovc_type :: "string option"

datatype json_value = JStr string | JNotStr

record InstalledFile =
  if_path :: string
  if_sha256 :: string

record InstalledManifest =
  im_name :: string
  im_version :: string
  im_files :: "InstalledFile list"

record NodeUpdateState =
  nus_phase :: string
  nus_components :: "string list"
  nus_node_boot_id :: "string option"

record rig_api =
  http_client_build :: "bool \<Rightarrow> bytes option \<Rightarrow> string + unit"
  device_get :: "bool \<Rightarrow> bytes option \<Rightarrow> string \<Rightarrow> string + http_response"
  resp_text :: "bytes \<Rightarrow> string + string"
  de_node_state :: "bytes \<Rightarrow> string + NodeUpdateState"
  sovd_new :: "string \<Rightarrow> bool \<Rightarrow> bytes option \<Rightarrow> SovdClientError + unit"
  sovd_list_components :: "string \<Rightarrow> SovdClientError + sovd_component list"
  sovd_read_data :: "string \<Rightarrow> string \<Rightarrow> string \<Rightarrow> SovdClientError + string"
  sovd_admin_state :: "string \<Rightarrow> string \<Rightarrow> SovdClientError + json_value option"
  de_installed :: "string \<Rightarrow> string + InstalledManifest"
  de_update_mode :: "string \<Rightarrow> UpdateMode option"
  tree_to_value :: "Tree \<Rightarrow> string + string"

datatype EngineError = EngineInternal string | EngineOther string

datatype Error =
    SovdE SovdClientError
  | ClientE ClientError
  | EngineE EngineError
  | PayloadMissing string
  | ChannelNotFound string
  | OnlyMatchedNothing string
  | DeviceNotFound string
  | DeviceNoPubkey string
  | MixedUpdateModes "string list" "string list"
  | ManifestE string string
  | NodeState string
  | DecodeL1 string
  | BadL2 string string
  | L1NeedsSelector string
  | StateEncode string

definition INSTALLED_MANIFEST :: string where "INSTALLED_MANIFEST = ''x-ota-installed-manifest''"
definition UPDATE_MODE :: string where "UPDATE_MODE = ''x-ota-update-mode''"

definition is_unresolved :: "NodeUpdateState \<Rightarrow> bool" where
  "is_unresolved s \<longleftrightarrow> nus_phase s = ''RebootPending'' \<or> nus_phase s = ''Trial''"

text \<open>One GET against the device: building the client may fail as well.\<close>

definition device_http_get :: "rig_api \<Rightarrow> bool \<Rightarrow> bytes option \<Rightarrow> string \<Rightarrow> string + http_response" where
  "device_http_get R insecure ca url = try_bind (http_client_build R insecure ca) (\<lambda>_. device_get R insecure ca url)"

definition node_update_state :: "rig_api \<Rightarrow> string \<Rightarrow> bool \<Rightarrow> bytes option \<Rightarrow> Error + NodeUpdateState" where
  "node_update_state R rig_url insecure ca =
     (let base = trim_end_matches (CHR ''/'') rig_url in
      map_err NodeState (
      try_bind (device_http_get R insecure ca (base @ ''/vehicle/v1/data/x-update-state'')) (\<lambda>resp1.
      try_bind (if rs_status resp1 = 404
                then device_http_get R insecure ca (base @ ''/vehicle/v1/data/x-ota-update-state'')
                else Inr resp1) (\<lambda>resp.
        if rs_status resp = 404
        then Inr \<lparr>nus_phase = ''Idle'', nus_components = [], nus_node_boot_id = None\<rparr>
        else if 400 \<le> rs_status resp \<and> rs_status resp < 600 then Inl (nat_to_string (rs_status resp))
        else de_node_state R (rs_body resp)))))"

text \<open>The scheme probe of \<open>connect_sovd\<close>.\<close>

definition sovd_candidates :: "string \<Rightarrow> string list" where
  "sovd_candidates sovd_url =
     (let base = trim_end_matches (CHR ''/'') sovd_url in
      case split_once ''://'' base of
        Some (scheme, rest) \<Rightarrow>
          if scheme = ''https'' then [base, ''http://'' @ rest]
          else if scheme = ''http'' then [base, ''https://'' @ rest]
          else [base]
      | None \<Rightarrow> [base])"

fun connect_loop ::
    "rig_api \<Rightarrow> bool \<Rightarrow> bytes option \<Rightarrow> string \<Rightarrow> string list \<Rightarrow> SovdClientError option
      \<Rightarrow> Error + string \<times> sovd_component list" where
  "connect_loop R insecure ca sovd_url [] last_err =
     (case last_err of
        Some e \<Rightarrow> Inl (SovdE e)
      | None \<Rightarrow> Inl (NodeState (''no reachable SOVD scheme for '' @ sovd_url)))"
| "connect_loop R insecure ca sovd_url (url # urls) last_err =
     (case sovd_new R url insecure ca of
        Inl e \<Rightarrow> Inl (SovdE e)
      | Inr _ \<Rightarrow>
          (case sovd_list_components R url of
             Inr components \<Rightarrow> Inr (url, components)
           | Inl (ServerError st m) \<Rightarrow> Inl (SovdE (ServerError st m))
           | Inl e \<Rightarrow> connect_loop R insecure ca sovd_url urls (Some e)))"

definition connect_sovd ::
    "rig_api \<Rightarrow> string \<Rightarrow> bool \<Rightarrow> bytes option \<Rightarrow> Error + string \<times> sovd_component list" where
  "connect_sovd R sovd_url insecure ca = connect_loop R insecure ca sovd_url (sovd_candidates sovd_url) None"

definition parse_admin_disabled :: "json_value option \<Rightarrow> Error + bool option" where
  "parse_admin_disabled value =
     (case value of
        None \<Rightarrow> Inr None
      | Some (JStr s) \<Rightarrow>
          if s = ''enabled'' then Inr (Some False)
          else if s = ''disabled'' then Inr (Some True)
          else Inl (NodeState (''unknown x-runtime.admin_state '' @ [CHR 0x27] @ s @ [CHR 0x27]))
      | Some JNotStr \<Rightarrow> Inl (NodeState ''x-runtime.admin_state must be a string''))"

definition read_admin_disabled :: "rig_api \<Rightarrow> string \<Rightarrow> string \<Rightarrow> Error + bool option" where
  "read_admin_disabled R client component =
     try_bind (map_err SovdE (sovd_admin_state R client component)) parse_admin_disabled"

definition installed_files_to_parts :: "'h hash_api \<Rightarrow> InstalledFile list \<Rightarrow> Part list" where
  "installed_files_to_parts H files =
     fold (\<lambda>f parts. case ch_from_str H (if_sha256 f) of
         Inr content \<Rightarrow> parts @ [\<lparr>p_kind = ''file'', p_id = if_path f, p_content = content\<rparr>]
       | Inl _ \<Rightarrow> parts) files []"

definition read_update_mode :: "rig_api \<Rightarrow> string \<Rightarrow> string \<Rightarrow> Error + UpdateMode option" where
  "read_update_mode R client component =
     (case sovd_read_data R client component UPDATE_MODE of
        Inr value \<Rightarrow> Inr (de_update_mode R value)
      | Inl (ServerError st m) \<Rightarrow>
          if st = 404 \<or> st = 501 then Inr None else Inl (SovdE (ServerError st m))
      | Inl e \<Rightarrow> Inl (SovdE e))"

definition read_installed :: "rig_api \<Rightarrow> string \<Rightarrow> string \<Rightarrow> Error + InstalledManifest option" where
  "read_installed R client component =
     (case sovd_read_data R client component INSTALLED_MANIFEST of
        Inr value \<Rightarrow> try_bind (map_err (ManifestE component) (de_installed R value)) (\<lambda>m. Inr (Some m))
      | Inl (ServerError st m) \<Rightarrow>
          if st = 404 \<or> st = 501 then Inr None else Inl (SovdE (ServerError st m))
      | Inl e \<Rightarrow> Inl (SovdE e))"

definition read_component ::
    "'h hash_api \<Rightarrow> rig_api \<Rightarrow> string \<Rightarrow> sovd_component \<Rightarrow> Error + string \<times> Entity" where
  "read_component H R client c =
     (let entity = Entity_default\<lparr>e_kind := (case sovc_type c of Some t \<Rightarrow> t | None \<Rightarrow> [])\<rparr> in
      try_bind (read_installed R client (sovc_id c)) (\<lambda>m.
      let entity1 = (case m of
            Some im \<Rightarrow> entity\<lparr>e_version := Some (trim (im_name im @ '' '' @ im_version im)),
                               e_parts := installed_files_to_parts H (im_files im)\<rparr>
          | None \<Rightarrow> entity) in
      try_bind (read_update_mode R client (sovc_id c)) (\<lambda>um.
      try_bind (read_admin_disabled R client (sovc_id c)) (\<lambda>admin.
        Inr (sovc_id c, entity1\<lparr>e_update_mode := um, e_admin_disabled := admin\<rparr>)))))"

definition read_rig_state :: "'h hash_api \<Rightarrow> rig_api \<Rightarrow> string \<Rightarrow> bool \<Rightarrow> bytes option \<Rightarrow> Error + Tree" where
  "read_rig_state H R sovd_url insecure ca =
     try_bind (connect_sovd R sovd_url insecure ca) (\<lambda>(client, components).
     try_bind (traverse (read_component H R client) components) (\<lambda>kvs.
       Inr \<lparr>entities = bt_collect kvs\<rparr>))"

section \<open>The apply plan\<close>

record BlobRef =
  bref_outer :: ContentHash
  bref_size :: u64

record ShipPart =
  sp_part :: string
  sp_kind :: string
  sp_content :: ContentHash
  sp_blob :: "BlobRef option"

record ComponentApply =
  ca_entity :: string
  ca_version :: "string option"
  ca_ship :: "ShipPart list"
  ca_reuse :: nat
  ca_supports_rollback :: "bool option"

record ApplyPlan =
  ap_channel :: string
  ap_components :: "ComponentApply list"
  ap_assessment :: ConvergenceAssessment

definition component_ship_bytes :: "ComponentApply \<Rightarrow> u64" where
  "component_ship_bytes c = sum_list (map bref_size (List.map_filter sp_blob (ca_ship c)))"

definition plan_ship_bytes :: "ApplyPlan \<Rightarrow> u64" where
  "plan_ship_bytes p = sum_list (map bref_size (List.map_filter sp_blob (concat (map ca_ship (ap_components p)))))"

definition plan_missing :: "ApplyPlan \<Rightarrow> (string \<times> string) list" where
  "plan_missing p =
     concat (map (\<lambda>c. map (\<lambda>s. (ca_entity c, sp_part s)) (filter (\<lambda>s. sp_blob s = None) (ca_ship c)))
       (ap_components p))"

definition plan_is_noop :: "ApplyPlan \<Rightarrow> bool" where
  "plan_is_noop p = list_all (\<lambda>c. ca_ship c = []) (ap_components p)"

record ChannelTarget =
  tgt_channel :: string
  tgt_device :: "string option"
  tgt_architecture :: "string option"
  tgt_vehicle_release_id :: "i64 option"
  tgt_tree_hash :: "string option"

definition ChannelTarget_channel :: "string \<Rightarrow> ChannelTarget" where
  "ChannelTarget_channel c = \<lparr>tgt_channel = c, tgt_device = None, tgt_architecture = None,
     tgt_vehicle_release_id = None, tgt_tree_hash = None\<rparr>"

definition ChannelTarget_pinned :: "i64 \<Rightarrow> string option \<Rightarrow> string \<Rightarrow> string \<Rightarrow> ChannelTarget" where
  "ChannelTarget_pinned vid th device architecture =
     \<lparr>tgt_channel = ''vehicle-release:'' @ i64_to_string vid, tgt_device = Some device,
      tgt_architecture = Some architecture, tgt_vehicle_release_id = Some vid, tgt_tree_hash = th\<rparr>"

definition target_text :: "ChannelTarget \<Rightarrow> string" where
  "target_text t =
     (case tgt_vehicle_release_id t of
        Some i \<Rightarrow> ''vehicle release '' @ i64_to_string i
      | None \<Rightarrow>
          (if tgt_device t = None \<and> tgt_architecture t = None then tgt_channel t
           else tgt_channel t @ '' (device='' @ (case tgt_device t of Some d \<Rightarrow> d | None \<Rightarrow> ''*'') @
             '', architecture='' @ (case tgt_architecture t of Some a \<Rightarrow> a | None \<Rightarrow> ''*'') @ '')''))"

definition resolve_ship ::
    "'h hash_api \<Rightarrow> transport \<Rightarrow> json_api \<Rightarrow> string \<Rightarrow> PlannedPart \<Rightarrow> Error + ShipPart" where
  "resolve_ship H T J hub p =
     try_bind (map_err ClientE (sc_artifact_exists H T J hub (pp_content p))) (\<lambda>found.
       Inr \<lparr>sp_part = pp_part p, sp_kind = pp_kind p, sp_content = pp_content p,
            sp_blob = map_option (\<lambda>a. \<lparr>bref_outer = ar_outer a, bref_size = ar_size a\<rparr>) found\<rparr>)"

definition observed_rollback :: "Tree \<Rightarrow> string \<Rightarrow> bool option" where
  "observed_rollback observed path =
     map_option um_supports_rollback (Option.bind (bt_get (entities observed) path) e_update_mode)"

definition plan_component ::
    "'h hash_api \<Rightarrow> transport \<Rightarrow> json_api \<Rightarrow> string \<Rightarrow> Tree \<Rightarrow> FlashPlan \<Rightarrow> string \<times> Entity
      \<Rightarrow> Error + ComponentApply" where
  "plan_component H T J hub observed pl pe =
     (let mine = filter (\<lambda>p. pp_entity p = fst pe) (fp_parts pl) in
      try_bind (traverse (resolve_ship H T J hub) (filter (\<lambda>p. pp_plan p = Ship) mine)) (\<lambda>ship.
        Inr \<lparr>ca_entity = fst pe, ca_version = e_version (snd pe), ca_ship = ship,
             ca_reuse = length (filter (\<lambda>p. pp_plan p = Reuse) mine),
             ca_supports_rollback = observed_rollback observed (fst pe)\<rparr>))"

definition hub_desired_tree ::
    "transport \<Rightarrow> json_api \<Rightarrow> string \<Rightarrow> ChannelTarget \<Rightarrow> Error + Tree" where
  "hub_desired_tree T J hub target =
     try_bind (map_err ClientE
       (case tgt_vehicle_release_id target of
          Some i \<Rightarrow> sc_vehicle_release_tree T J hub i (tgt_tree_hash target)
        | None \<Rightarrow> sc_channel_target_tree T J hub (tgt_channel target) (tgt_device target) (tgt_architecture target)))
       (\<lambda>found. ok_or (ChannelNotFound (target_text target)) found)"

definition apply_plan ::
    "'h hash_api \<Rightarrow> rig_api \<Rightarrow> transport \<Rightarrow> json_api \<Rightarrow> string \<Rightarrow> string \<Rightarrow> ChannelTarget \<Rightarrow> string list option
      \<Rightarrow> bool \<Rightarrow> bytes option \<Rightarrow> Error + ApplyPlan" where
  "apply_plan H R T J rig_url hub_url target allow insecure ca =
     try_bind (read_rig_state H R rig_url insecure ca) (\<lambda>observed.
     let hub = TowerClient_new hub_url in
     try_bind (hub_desired_tree T J hub target) (\<lambda>desired.
     let pl = Wire.flash_plan observed desired; assessment = assess_tree observed desired in
     try_bind (traverse (plan_component H T J hub observed pl)
         (filter (\<lambda>pe. case allow of Some a \<Rightarrow> fst pe \<in> set a | None \<Rightarrow> True) (entities desired))) (\<lambda>cs.
       Inr \<lparr>ap_channel = tgt_channel target,
            ap_components = filter (\<lambda>c. ca_ship c \<noteq> [] \<or> ca_reuse c > 0) cs,
            ap_assessment = assessment\<rparr>)))"

section \<open>The flash bundle\<close>

record PayloadRef =
  plr_uri :: string
  plr_outer :: ContentHash
  plr_size :: u64

record ComponentFlash =
  cf_entity :: string
  cf_envelope_bytes :: nat
  cf_payloads :: "PayloadRef list"

record FlashBundle =
  fb_channel :: string
  fb_device :: string
  fb_components :: "ComponentFlash list"

definition device_pubkey :: "transport \<Rightarrow> json_api \<Rightarrow> string \<Rightarrow> string \<Rightarrow> Error + string" where
  "device_pubkey T J ca_url device_id =
     try_bind (map_err ClientE (ic_get_device T J (TowerClient_new ca_url) device_id)) (\<lambda>found.
     try_bind (ok_or (DeviceNotFound device_id) found) (\<lambda>device.
       ok_or (DeviceNoPubkey device_id) (d_pubkey device)))"

definition bundle_component ::
    "transport \<Rightarrow> string \<Rightarrow> string \<Rightarrow> string \<Rightarrow> ComponentApply \<Rightarrow> Error + ComponentFlash" where
  "bundle_component T hub pubkey device_id c =
     try_bind (map_err ClientE (sc_build_envelope T hub pubkey device_id (ca_entity c)
         (map (\<lambda>s. (sp_part s, sp_content s)) (ca_ship c)) 1)) (\<lambda>envelope.
       Inr \<lparr>cf_entity = ca_entity c, cf_envelope_bytes = length envelope,
            cf_payloads = List.map_filter (\<lambda>s. map_option (\<lambda>b. \<lparr>plr_uri = ''#'' @ sp_part s,
                plr_outer = bref_outer b, plr_size = bref_size b\<rparr>) (sp_blob s)) (ca_ship c)\<rparr>)"

definition flash_bundle ::
    "'h hash_api \<Rightarrow> rig_api \<Rightarrow> transport \<Rightarrow> json_api \<Rightarrow> string \<Rightarrow> string \<Rightarrow> string \<Rightarrow> ChannelTarget \<Rightarrow> string
      \<Rightarrow> string list option \<Rightarrow> bool \<Rightarrow> bytes option \<Rightarrow> Error + FlashBundle" where
  "flash_bundle H R T J rig_url hub_url ca_url target device_id allow insecure ca =
     try_bind (apply_plan H R T J rig_url hub_url target allow insecure ca) (\<lambda>plan.
     try_bind (device_pubkey T J ca_url device_id) (\<lambda>pubkey.
     try_bind (traverse (bundle_component T (TowerClient_new hub_url) pubkey device_id)
         (filter (\<lambda>c. ca_ship c \<noteq> []) (ap_components plan))) (\<lambda>cs.
       Inr \<lparr>fb_channel = tgt_channel target, fb_device = device_id, fb_components = cs\<rparr>)))"

section \<open>The boot-bound token\<close>

record mint_source =
  ms_minter :: MinterClient
  ms_rig_url :: string
  ms_ttl_secs :: "u64 option"
  ms_insecure :: bool
  ms_ca_cert_pem :: "bytes option"
  ms_cached :: "(string \<times> string) option"

datatype RigToken = StaticToken string | MintToken mint_source

definition RigToken_fixed :: "string \<Rightarrow> RigToken" where
  "RigToken_fixed jwt = StaticToken jwt"

definition RigToken_minting ::
    "string \<Rightarrow> string \<Rightarrow> string \<Rightarrow> u64 option \<Rightarrow> bool \<Rightarrow> bytes option \<Rightarrow> RigToken" where
  "RigToken_minting minter_url operator_token rig_url ttl insecure ca =
     MintToken \<lparr>ms_minter = MinterClient_new minter_url operator_token, ms_rig_url = rig_url,
       ms_ttl_secs = ttl, ms_insecure = insecure, ms_ca_cert_pem = ca, ms_cached = None\<rparr>"

definition fetch_rig_id ::
    "rig_api \<Rightarrow> string \<Rightarrow> string \<Rightarrow> string \<Rightarrow> bool \<Rightarrow> bytes option \<Rightarrow> EngineError + string" where
  "fetch_rig_id R rig_url path what insecure ca =
     (let url = trim_end_matches (CHR ''/'') rig_url @ path in
      try_bind (map_err (\<lambda>e. EngineInternal (''build http client: '' @ e)) (http_client_build R insecure ca)) (\<lambda>_.
      try_bind (map_err (\<lambda>e. EngineInternal (''read '' @ what @ '' from '' @ url @ '': '' @ e))
          (device_get R insecure ca url)) (\<lambda>resp.
      if \<not> (200 \<le> rs_status resp \<and> rs_status resp < 300)
      then Inl (EngineInternal (''read '' @ what @ '': '' @ url @ '' returned HTTP '' @ nat_to_string (rs_status resp)))
      else
        try_bind (map_err (\<lambda>e. EngineInternal (''read '' @ what @ '' body: '' @ e)) (resp_text R (rs_body resp))) (\<lambda>text.
        let rid = trim_matches DQ (trim text) in
        if rid = [] then Inl (EngineInternal (url @ '' returned an empty '' @ what)) else Inr rid))))"

definition fetch_rig_ecu_id :: "rig_api \<Rightarrow> string \<Rightarrow> bool \<Rightarrow> bytes option \<Rightarrow> EngineError + string" where
  "fetch_rig_ecu_id R rig_url insecure ca =
     fetch_rig_id R rig_url ''/vehicle/v1/components/hsm/x-ecu-id'' ''ecu id'' insecure ca"

definition fetch_rig_boot_id :: "rig_api \<Rightarrow> string \<Rightarrow> bool \<Rightarrow> bytes option \<Rightarrow> EngineError + string" where
  "fetch_rig_boot_id R rig_url insecure ca =
     fetch_rig_id R rig_url ''/vehicle/v1/status/x-boot-id'' ''boot id'' insecure ca"

text \<open>The tail of \<open>token\<close> when no cached token is usable.\<close>

definition mint_now ::
    "rig_api \<Rightarrow> transport \<Rightarrow> json_api \<Rightarrow> mint_source \<Rightarrow> string \<Rightarrow> RigToken \<times> (EngineError + string)" where
  "mint_now R T J ms boot_id =
     (case fetch_rig_ecu_id R (ms_rig_url ms) (ms_insecure ms) (ms_ca_cert_pem ms) of
        Inl e \<Rightarrow> (MintToken ms, Inl e)
      | Inr ecu_id \<Rightarrow>
          (case mint T J (ms_minter ms) ecu_id [''*''] (Some boot_id) (ms_ttl_secs ms) of
             Inl (Http e) \<Rightarrow> (MintToken ms, Inl (EngineInternal (''mint token: '' @ e)))
           | Inr minted \<Rightarrow>
               (MintToken (ms\<lparr>ms_cached := Some (boot_id, mt_token minted)\<rparr>), Inr (mt_token minted))))"

definition token ::
    "rig_api \<Rightarrow> transport \<Rightarrow> json_api \<Rightarrow> RigToken \<Rightarrow> string \<Rightarrow> RigToken \<times> (EngineError + string)" where
  "token R T J tk component_id =
     (case tk of
        StaticToken jwt \<Rightarrow> (tk, Inr jwt)
      | MintToken ms \<Rightarrow>
          (case fetch_rig_boot_id R (ms_rig_url ms) (ms_insecure ms) (ms_ca_cert_pem ms) of
             Inl e \<Rightarrow> (tk, Inl e)
           | Inr boot_id \<Rightarrow>
               (case ms_cached ms of
                  Some (cached_boot, tok) \<Rightarrow>
                    if cached_boot = boot_id then (tk, Inr tok)
                    else mint_now R T J ms boot_id
                | None \<Rightarrow> mint_now R T J ms boot_id)))"

end
