(* ===== verification/Campaign.thy ===== *)
theory Campaign
  imports Orchestrator
begin

text \<open>
  \<open>crates/orchestrator/src/lib.rs\<close>, the push: the fan-out of the signed L1 campaign, the flash
  jobs with the copy-forward decision, the ordered campaign steps, and the verbs that drive
  the flash engine.
\<close>

section \<open>The SUIT decoder and the flash engine\<close>

record suit_component =
  su_id :: "bytes list option"
  su_uri :: "string option"
  su_digest :: "bytes option"

record suit_envelope =
  su_payloads :: "(string, bytes) btree_map"
  su_disable_target :: "nat option"
  su_has_firmware :: bool
  su_components :: "suit_component list"

record suit_api =
  decode_envelope :: "bytes \<Rightarrow> string + suit_envelope"
  from_utf8_lossy :: "bytes \<Rightarrow> string"

record Payload =
  pl_uri :: string
  pl_bytes :: bytes

record FlashJob =
  job_component_id :: string
  job_gateway_id :: "string option"
  job_envelope :: bytes
  job_payloads :: "Payload list"

record CampaignStep =
  step_jobs :: "FlashJob list"
  step_force_ecu_reset :: bool

datatype EcuState = Staged | Activated | OtherEcuState string

datatype UpdateType = Firmware | OtherUpdateType string

record EcuStatus =
  ecu_component_id :: string
  ecu_gateway_id :: "string option"
  ecu_state :: EcuState
  ecu_update_type :: UpdateType
  ecu_active_version :: "string option"
  ecu_previous_version :: "string option"
  ecu_error :: "string option"
  ecu_update_id :: "string option"

record FlashEngine =
  fe_rig_url :: string
  fe_token :: RigToken
  fe_trust_anchor :: bytes
  fe_insecure :: bool
  fe_ca :: "bytes option"
  fe_force_ecu_reset :: bool

record 'w engine_api =
  eng_guard :: "FlashEngine \<Rightarrow> FlashJob list \<Rightarrow> 'w \<Rightarrow> 'w \<times> (EngineError + unit)"
  eng_stage_all :: "FlashEngine \<Rightarrow> FlashJob list \<Rightarrow> 'w \<Rightarrow> 'w \<times> (EngineError + EcuStatus list)"
  eng_reset_all :: "FlashEngine \<Rightarrow> EcuStatus list \<Rightarrow> 'w \<Rightarrow> 'w \<times> (EngineError + EcuStatus list)"
  eng_run_campaign :: "FlashEngine \<Rightarrow> CampaignStep list \<Rightarrow> bool \<Rightarrow> 'w \<Rightarrow> 'w \<times> (EngineError + EcuStatus list)"
  eng_commit_all :: "FlashEngine \<Rightarrow> EcuStatus list \<Rightarrow> 'w \<Rightarrow> 'w \<times> (EngineError + EcuStatus list)"
  eng_rollback_all :: "FlashEngine \<Rightarrow> EcuStatus list \<Rightarrow> 'w \<Rightarrow> 'w \<times> (EngineError + EcuStatus list)"
  eng_commit_node_trials :: "FlashEngine \<Rightarrow> 'w \<Rightarrow> 'w \<times> (EngineError + unit)"
  eng_rollback_node_trials :: "FlashEngine \<Rightarrow> 'w \<Rightarrow> 'w \<times> (EngineError + unit)"
  ecu_state_text :: "EcuState \<Rightarrow> string"

section \<open>The fan-out\<close>

record L1Part =
  l1p_part :: string
  l1p_outer :: ContentHash
  l1p_inner :: "ContentHash option"

record L1Component =
  l1c_component :: string
  l1c_envelope :: bytes
  l1c_parts :: "L1Part list"

definition fanout_part ::
    "'h hash_api \<Rightarrow> suit_api \<Rightarrow> string \<Rightarrow> nat \<times> suit_component \<Rightarrow> Error + L1Part" where
  "fanout_part H S component ic =
     (let i = fst ic; c = snd ic in
      try_bind (ok_or (BadL2 component (''component '' @ nat_to_string i @ '' has no part-id segment''))
          (case su_id c of
             Some (a # b # rest) \<Rightarrow> Some (from_utf8_lossy S b)
           | _ \<Rightarrow> None)) (\<lambda>part.
      try_bind (ok_or (BadL2 component (''part '' @ [CHR 0x27] @ part @ [CHR 0x27] @ '' has no payload uri''))
          (su_uri c)) (\<lambda>uri.
      try_bind (map_err (\<lambda>_. BadL2 component (''part '' @ [CHR 0x27] @ part @ [CHR 0x27] @ '' uri '' @
            [CHR 0x27] @ uri @ [CHR 0x27] @ '' is not a content address''))
          (ch_from_str H uri)) (\<lambda>outer.
        Inr \<lparr>l1p_part = part, l1p_outer = outer,
             l1p_inner = (case su_digest c of
                Some d \<Rightarrow> if length d = 32 then Some (ch_from_bytes d) else None
              | None \<Rightarrow> None)\<rparr>))))"

definition fanout_component ::
    "'h hash_api \<Rightarrow> suit_api \<Rightarrow> string \<times> bytes \<Rightarrow> Error + L1Component" where
  "fanout_component H S kl =
     (let key = fst kl; l2 = snd kl;
          component = (case strip_prefix ''#'' key of Some k \<Rightarrow> k | None \<Rightarrow> key) in
      try_bind (map_err (\<lambda>e. BadL2 component (''L2 envelope did not decode: '' @ e)) (decode_envelope S l2)) (\<lambda>manifest.
      let part_count = (if su_disable_target manifest \<noteq> None \<and> \<not> su_has_firmware manifest then 0
                        else length (su_components manifest)) in
      try_bind (traverse (fanout_part H S component)
          (take part_count (enumerate 0 (su_components manifest)))) (\<lambda>parts.
        Inr \<lparr>l1c_component = component, l1c_envelope = l2, l1c_parts = parts\<rparr>)))"

definition fanout_l1 :: "'h hash_api \<Rightarrow> suit_api \<Rightarrow> bytes \<Rightarrow> Error + L1Component list" where
  "fanout_l1 H S l1 =
     try_bind (map_err DecodeL1 (decode_envelope S l1)) (\<lambda>campaign.
       traverse (fanout_component H S) (su_payloads campaign))"

section \<open>The jobs\<close>

text \<open>\<open>BlobSource for SoftwareClient\<close>.\<close>

definition fetch_ciphertext ::
    "'h hash_api \<Rightarrow> transport \<Rightarrow> string \<Rightarrow> ContentHash \<Rightarrow> Error + bytes" where
  "fetch_ciphertext H T hub outer =
     try_bind (map_err ClientE (sc_get_blob H T hub outer)) (\<lambda>found.
       ok_or (PayloadMissing (to_prefixed H outer)) found)"

definition component_unchanged :: "L1Component \<Rightarrow> Tree \<Rightarrow> bool" where
  "component_unchanged c observed =
     (case bt_get (entities observed) (l1c_component c) of
        None \<Rightarrow> False
      | Some entity \<Rightarrow>
          l1c_parts c \<noteq> [] \<and>
          list_all (\<lambda>p. case l1p_inner p of
              Some inner \<Rightarrow> list_ex (\<lambda>op. p_content op = inner) (e_parts entity)
            | None \<Rightarrow> False) (l1c_parts c))"

definition l1_payload ::
    "(ContentHash \<Rightarrow> Error + bytes) \<Rightarrow> L1Part \<Rightarrow> Error + Payload" where
  "l1_payload blobs p =
     try_bind (blobs (l1p_outer p)) (\<lambda>b. Inr \<lparr>pl_uri = ''#'' @ l1p_part p, pl_bytes = b\<rparr>)"

definition l1_job ::
    "(ContentHash \<Rightarrow> Error + bytes) \<Rightarrow> Tree \<Rightarrow> L1Component \<Rightarrow> Error + FlashJob" where
  "l1_job blobs observed c =
     try_bind (if component_unchanged c observed then Inr [] else traverse (l1_payload blobs) (l1c_parts c)) (\<lambda>payloads.
       Inr \<lparr>job_component_id = l1c_component c, job_gateway_id = None, job_envelope = l1c_envelope c,
            job_payloads = payloads\<rparr>)"

fun l1_jobs ::
    "(ContentHash \<Rightarrow> Error + bytes) \<Rightarrow> L1Component list \<Rightarrow> Tree \<Rightarrow> string list option
      \<Rightarrow> FlashJob list \<Rightarrow> Error + FlashJob list" where
  "l1_jobs blobs [] observed allow jobs = Inr jobs"
| "l1_jobs blobs (c # cs) observed allow jobs =
     (if (case allow of Some a \<Rightarrow> l1c_component c \<notin> set a | None \<Rightarrow> False)
      then l1_jobs blobs cs observed allow jobs
      else if \<not> bt_contains_key (entities observed) (l1c_component c)
      then l1_jobs blobs cs observed allow jobs
      else try_bind (l1_job blobs observed c) (\<lambda>job. l1_jobs blobs cs observed allow (jobs @ [job])))"

definition l1_selector :: "ChannelTarget \<Rightarrow> Error + string \<times> string" where
  "l1_selector target =
     (case (tgt_device target, tgt_architecture target) of
        (Some device, Some architecture) \<Rightarrow> Inr (device, architecture)
      | _ \<Rightarrow> Inl (L1NeedsSelector (tgt_channel target)))"

definition hub_l1 ::
    "transport \<Rightarrow> string \<Rightarrow> ChannelTarget \<Rightarrow> string \<Rightarrow> string \<Rightarrow> string \<Rightarrow> string \<Rightarrow> string \<Rightarrow> Error + bytes" where
  "hub_l1 T hub target device architecture pubkey device_id current_state =
     map_err ClientE
       (case tgt_vehicle_release_id target of
          Some i \<Rightarrow> sc_vehicle_release_l1 T hub i (tgt_tree_hash target) device architecture pubkey device_id
                     (Some current_state) 1
        | None \<Rightarrow> sc_channel_target_l1 T hub (tgt_channel target) device architecture pubkey device_id
                     (Some current_state) 1)"

definition l1_flash_plan ::
    "'h hash_api \<Rightarrow> rig_api \<Rightarrow> suit_api \<Rightarrow> transport \<Rightarrow> json_api \<Rightarrow> string \<Rightarrow> string \<Rightarrow> string \<Rightarrow> ChannelTarget
      \<Rightarrow> string \<Rightarrow> string list option \<Rightarrow> bool \<Rightarrow> bytes option \<Rightarrow> Error + FlashJob list \<times> bytes \<times> Tree" where
  "l1_flash_plan H R S T J rig_url hub_url ca_url target device_id allow insecure ca =
     try_bind (read_rig_state H R rig_url insecure ca) (\<lambda>observed.
     try_bind (map_err StateEncode (tree_to_value R observed)) (\<lambda>current_state.
     try_bind (device_pubkey T J ca_url device_id) (\<lambda>pubkey.
     try_bind (l1_selector target) (\<lambda>(device, architecture).
     let hub = TowerClient_new hub_url in
     try_bind (hub_l1 T hub target device architecture pubkey device_id current_state) (\<lambda>l1.
     if l1 = [] then Inr ([], [], observed)
     else
       try_bind (fanout_l1 H S l1) (\<lambda>components.
       try_bind (l1_jobs (fetch_ciphertext H T hub) components observed allow []) (\<lambda>jobs.
       try_bind (map_err ClientE (sc_signer_pubkey T hub)) (\<lambda>trust_anchor.
         Inr (jobs, trust_anchor, observed)))))))))"

section \<open>Driving the engine\<close>

record ComponentFlashResult =
  cfr_entity :: string
  cfr_update_id :: "string option"
  cfr_state :: string

record FlashResult =
  fr_channel :: string
  fr_device :: string
  fr_components :: "ComponentFlashResult list"

definition component_result :: "'w engine_api \<Rightarrow> EcuStatus \<Rightarrow> ComponentFlashResult" where
  "component_result E s = \<lparr>cfr_entity = ecu_component_id s, cfr_update_id = ecu_update_id s,
     cfr_state = ecu_state_text E (ecu_state s)\<rparr>"

definition FlashEngine_new ::
    "string \<Rightarrow> RigToken \<Rightarrow> bytes \<Rightarrow> bool \<Rightarrow> bytes option \<Rightarrow> FlashEngine" where
  "FlashEngine_new rig_url tok anchor insecure ca =
     \<lparr>fe_rig_url = rig_url, fe_token = tok, fe_trust_anchor = anchor, fe_insecure = insecure,
      fe_ca = ca, fe_force_ecu_reset = False\<rparr>"

definition build_flash_plan ::
    "'h hash_api \<Rightarrow> rig_api \<Rightarrow> suit_api \<Rightarrow> transport \<Rightarrow> json_api \<Rightarrow> string \<Rightarrow> string \<Rightarrow> string \<Rightarrow> ChannelTarget
      \<Rightarrow> string \<Rightarrow> string list option \<Rightarrow> bool \<Rightarrow> bytes option \<Rightarrow> Error + FlashJob list \<times> bytes" where
  "build_flash_plan H R S T J rig_url hub_url ca_url target device_id allow insecure ca =
     try_bind (l1_flash_plan H R S T J rig_url hub_url ca_url target device_id allow insecure ca)
       (\<lambda>(jobs, anchor, observed). Inr (jobs, anchor))"

definition flash_execute ::
    "'h hash_api \<Rightarrow> rig_api \<Rightarrow> suit_api \<Rightarrow> transport \<Rightarrow> json_api \<Rightarrow> 'w engine_api \<Rightarrow> string \<Rightarrow> string \<Rightarrow> string
      \<Rightarrow> ChannelTarget \<Rightarrow> string \<Rightarrow> string list option \<Rightarrow> bool \<Rightarrow> RigToken \<Rightarrow> bool \<Rightarrow> bytes option \<Rightarrow> 'w
      \<Rightarrow> 'w \<times> (Error + FlashResult)" where
  "flash_execute H R S T J E rig_url hub_url ca_url target device_id allow reboot tok insecure ca w =
     (case build_flash_plan H R S T J rig_url hub_url ca_url target device_id allow insecure ca of
        Inl e \<Rightarrow> (w, Inl e)
      | Inr (jobs, anchor) \<Rightarrow>
          if jobs = []
          then (w, Inr \<lparr>fr_channel = tgt_channel target, fr_device = device_id, fr_components = []\<rparr>)
          else
            (let engine = (FlashEngine_new rig_url tok anchor insecure ca)\<lparr>fe_force_ecu_reset := reboot\<rparr> in
             case eng_guard E engine jobs w of
               (w1, Inl e) \<Rightarrow> (w1, Inl (EngineE e))
             | (w1, Inr _) \<Rightarrow>
                 (case eng_stage_all E engine jobs w1 of
                    (w2, Inl e) \<Rightarrow> (w2, Inl (EngineE e))
                  | (w2, Inr ecus) \<Rightarrow>
                      (case eng_reset_all E engine ecus w2 of
                         (w3, Inl e) \<Rightarrow> (w3, Inl (EngineE e))
                       | (w3, Inr ecus') \<Rightarrow>
                           (w3, Inr \<lparr>fr_channel = tgt_channel target, fr_device = device_id,
                                     fr_components = map (component_result E) ecus'\<rparr>)))))"

definition is_singleshot :: "Tree \<Rightarrow> string \<Rightarrow> bool" where
  "is_singleshot observed component \<longleftrightarrow> observed_rollback observed component = Some False"

definition campaign_steps :: "Tree \<Rightarrow> FlashJob list \<Rightarrow> CampaignStep list" where
  "campaign_steps observed jobs =
     (let singleshot = filter (\<lambda>j. is_singleshot observed (job_component_id j)) jobs;
          banked = filter (\<lambda>j. \<not> is_singleshot observed (job_component_id j)) jobs
      in map (\<lambda>j. \<lparr>step_jobs = [j], step_force_ecu_reset = False\<rparr>) singleshot @
         (if banked \<noteq> [] then [\<lparr>step_jobs = banked, step_force_ecu_reset = True\<rparr>] else []))"

definition campaign_execute ::
    "'h hash_api \<Rightarrow> rig_api \<Rightarrow> suit_api \<Rightarrow> transport \<Rightarrow> json_api \<Rightarrow> 'w engine_api \<Rightarrow> string \<Rightarrow> string \<Rightarrow> string
      \<Rightarrow> ChannelTarget \<Rightarrow> string \<Rightarrow> bool \<Rightarrow> RigToken \<Rightarrow> bool \<Rightarrow> bytes option \<Rightarrow> string list option \<Rightarrow> 'w
      \<Rightarrow> 'w \<times> (Error + ComponentFlashResult list)" where
  "campaign_execute H R S T J E rig_url hub_url ca_url target device_id no_commit tok insecure ca allow w =
     (case l1_flash_plan H R S T J rig_url hub_url ca_url target device_id allow insecure ca of
        Inl e \<Rightarrow> (w, Inl e)
      | Inr (jobs, anchor, observed) \<Rightarrow>
          if jobs = []
          then (case allow of
                  Some a \<Rightarrow> (w, Inl (OnlyMatchedNothing (join '', '' a)))
                | None \<Rightarrow> (w, Inr []))
          else
            (case eng_run_campaign E (FlashEngine_new rig_url tok anchor insecure ca)
                    (campaign_steps observed jobs) no_commit w of
               (w1, Inl e) \<Rightarrow> (w1, Inl (EngineE e))
             | (w1, Inr ecus) \<Rightarrow> (w1, Inr (map (component_result E) ecus))))"

definition flash_keystore ::
    "'w engine_api \<Rightarrow> string \<Rightarrow> bytes \<Rightarrow> bytes \<Rightarrow> RigToken \<Rightarrow> bool \<Rightarrow> bytes option \<Rightarrow> 'w
      \<Rightarrow> 'w \<times> (Error + FlashResult)" where
  "flash_keystore E rig_url hsm_suit anchor tok insecure ca w =
     (case eng_stage_all E (FlashEngine_new rig_url tok anchor insecure ca)
             [\<lparr>job_component_id = ''hsm'', job_gateway_id = None, job_envelope = hsm_suit, job_payloads = []\<rparr>] w of
        (w1, Inl e) \<Rightarrow> (w1, Inl (EngineE e))
      | (w1, Inr ecus) \<Rightarrow>
          (w1, Inr \<lparr>fr_channel = ''(keystore)'', fr_device = [], fr_components = map (component_result E) ecus\<rparr>))"

section \<open>Verdicts\<close>

definition verdict_engine :: "string \<Rightarrow> RigToken \<Rightarrow> bool \<Rightarrow> bool \<Rightarrow> bytes option \<Rightarrow> FlashEngine" where
  "verdict_engine rig_url tok force insecure ca =
     (FlashEngine_new rig_url tok [] insecure ca)\<lparr>fe_force_ecu_reset := force\<rparr>"

definition ecu_status :: "string \<Rightarrow> string \<Rightarrow> EcuState \<Rightarrow> EcuStatus" where
  "ecu_status component update_id st =
     \<lparr>ecu_component_id = component, ecu_gateway_id = None, ecu_state = st, ecu_update_type = Firmware,
      ecu_active_version = None, ecu_previous_version = None, ecu_error = None,
      ecu_update_id = Some update_id\<rparr>"

text \<open>The shape the verdict verbs share: one engine call over reconstructed statuses. Indexing
  \<open>ecus[0]\<close> is safe because the array has one element.\<close>

definition verdict_one ::
    "(EcuStatus list \<Rightarrow> 'w \<Rightarrow> 'w \<times> (EngineError + EcuStatus list)) \<Rightarrow> 'w engine_api \<Rightarrow> EcuStatus \<Rightarrow> 'w
      \<Rightarrow> 'w \<times> (Error + string)" where
  "verdict_one act E s w =
     (case act [s] w of
        (w1, Inl e) \<Rightarrow> (w1, Inl (EngineE e))
      | (w1, Inr ecus) \<Rightarrow> (w1, Inr (ecu_state_text E (ecu_state (case ecus of [] \<Rightarrow> s | x # _ \<Rightarrow> x)))))"

definition verdict_set ::
    "(EcuStatus list \<Rightarrow> 'w \<Rightarrow> 'w \<times> (EngineError + EcuStatus list)) \<Rightarrow> 'w engine_api \<Rightarrow> (string \<times> string) list \<Rightarrow> 'w
      \<Rightarrow> 'w \<times> (Error + (string \<times> string) list)" where
  "verdict_set act E updates w =
     (case act (map (\<lambda>(c, i). ecu_status c i Activated) updates) w of
        (w1, Inl e) \<Rightarrow> (w1, Inl (EngineE e))
      | (w1, Inr ecus) \<Rightarrow> (w1, Inr (map (\<lambda>e. (ecu_component_id e, ecu_state_text E (ecu_state e))) ecus)))"

definition flash_reset ::
    "'w engine_api \<Rightarrow> string \<Rightarrow> string \<Rightarrow> string \<Rightarrow> RigToken \<Rightarrow> bool \<Rightarrow> bytes option \<Rightarrow> 'w \<Rightarrow> 'w \<times> (Error + string)" where
  "flash_reset E rig_url component update_id tok insecure ca w =
     verdict_one (eng_reset_all E (verdict_engine rig_url tok False insecure ca)) E
       (ecu_status component update_id Staged) w"

definition flash_commit ::
    "'w engine_api \<Rightarrow> string \<Rightarrow> string \<Rightarrow> string \<Rightarrow> RigToken \<Rightarrow> bool \<Rightarrow> bytes option \<Rightarrow> 'w \<Rightarrow> 'w \<times> (Error + string)" where
  "flash_commit E rig_url component update_id tok insecure ca w =
     verdict_one (eng_commit_all E (verdict_engine rig_url tok False insecure ca)) E
       (ecu_status component update_id Activated) w"

definition flash_rollback ::
    "'w engine_api \<Rightarrow> string \<Rightarrow> string \<Rightarrow> string \<Rightarrow> RigToken \<Rightarrow> bool \<Rightarrow> bytes option \<Rightarrow> 'w \<Rightarrow> 'w \<times> (Error + string)" where
  "flash_rollback E rig_url component update_id tok insecure ca w =
     verdict_one (eng_rollback_all E (verdict_engine rig_url tok False insecure ca)) E
       (ecu_status component update_id Activated) w"

definition flash_commit_all ::
    "'w engine_api \<Rightarrow> string \<Rightarrow> (string \<times> string) list \<Rightarrow> RigToken \<Rightarrow> bool \<Rightarrow> bytes option \<Rightarrow> 'w
      \<Rightarrow> 'w \<times> (Error + (string \<times> string) list)" where
  "flash_commit_all E rig_url updates tok insecure ca w =
     verdict_set (eng_commit_all E (verdict_engine rig_url tok True insecure ca)) E updates w"

definition flash_rollback_all ::
    "'w engine_api \<Rightarrow> string \<Rightarrow> (string \<times> string) list \<Rightarrow> RigToken \<Rightarrow> bool \<Rightarrow> bytes option \<Rightarrow> 'w
      \<Rightarrow> 'w \<times> (Error + (string \<times> string) list)" where
  "flash_rollback_all E rig_url updates tok insecure ca w =
     verdict_set (eng_rollback_all E (verdict_engine rig_url tok True insecure ca)) E updates w"

definition flash_commit_trials ::
    "'w engine_api \<Rightarrow> string \<Rightarrow> RigToken \<Rightarrow> bool \<Rightarrow> bytes option \<Rightarrow> 'w \<Rightarrow> 'w \<times> (Error + unit)" where
  "flash_commit_trials E rig_url tok insecure ca w =
     (case eng_commit_node_trials E (verdict_engine rig_url tok True insecure ca) w of
        (w1, r) \<Rightarrow> (w1, map_err EngineE r))"

definition flash_rollback_trials ::
    "'w engine_api \<Rightarrow> string \<Rightarrow> RigToken \<Rightarrow> bool \<Rightarrow> bytes option \<Rightarrow> 'w \<Rightarrow> 'w \<times> (Error + unit)" where
  "flash_rollback_trials E rig_url tok insecure ca w =
     (case eng_rollback_node_trials E (verdict_engine rig_url tok True insecure ca) w of
        (w1, r) \<Rightarrow> (w1, map_err EngineE r))"

end
