(* ===== verification/Campaign_Props.thy ===== *)
theory Campaign_Props
  imports Campaign Wire_Props "HOL-Library.Multiset"
begin

text \<open>
  Correctness of the push: what the engine is given for a decoded campaign, how the jobs are
  grouped into steps, the life of the boot-bound token, and the reading of the rig.
\<close>

section \<open>Jobs\<close>

definition job_selected :: "Tree \<Rightarrow> string list option \<Rightarrow> L1Component \<Rightarrow> bool" where
  "job_selected observed allow c \<longleftrightarrow>
     (\<forall>a. allow = Some a \<longrightarrow> l1c_component c \<in> set a) \<and>
     bt_get (entities observed) (l1c_component c) \<noteq> None"

lemma l1_jobs_closed:
  "l1_jobs blobs cs observed allow acc =
     try_bind (traverse (l1_job blobs observed) (filter (job_selected observed allow) cs)) (\<lambda>js. Inr (acc @ js))"
proof (induction cs arbitrary: acc)
  case (Cons c cs)
  have skip: "\<not> job_selected observed allow c \<longleftrightarrow>
      (case allow of Some a \<Rightarrow> l1c_component c \<notin> set a | None \<Rightarrow> False) \<or>
      \<not> bt_contains_key (entities observed) (l1c_component c)"
    by (cases allow) (auto simp: job_selected_def bt_contains_key_def)
  show ?case
  proof (cases "job_selected observed allow c")
    case True
    show ?thesis
      using True skip Cons
      by (cases "l1_job blobs observed c"; cases "traverse (l1_job blobs observed) (filter (job_selected observed allow) cs)")
        auto
  next
    case False
    with skip Cons show ?thesis by auto
  qed
qed simp

definition carries_all :: "Tree \<Rightarrow> L1Component \<Rightarrow> bool" where
  "carries_all observed c \<longleftrightarrow>
     (\<exists>e. bt_get (entities observed) (l1c_component c) = Some e \<and> l1c_parts c \<noteq> [] \<and>
        (\<forall>p \<in> set (l1c_parts c). \<exists>h. l1p_inner p = Some h \<and> h \<in> p_content ` set (e_parts e)))"

lemma component_unchanged_iff: "component_unchanged c observed \<longleftrightarrow> carries_all observed c"
proof -
  have ex: "list_ex (\<lambda>op. p_content op = h) ps \<longleftrightarrow> h \<in> p_content ` set ps" for h and ps :: "Part list"
    by (auto simp: list_ex_iff)
  have part: "(case l1p_inner p of Some h \<Rightarrow> list_ex (\<lambda>op. p_content op = h) ps | None \<Rightarrow> False) \<longleftrightarrow>
      (\<exists>h. l1p_inner p = Some h \<and> h \<in> p_content ` set ps)" for p and ps :: "Part list"
    by (simp add: ex split: option.split)
  show ?thesis
    unfolding component_unchanged_def carries_all_def list_all_iff part by (simp split: option.split)
qed

definition pushes :: "(ContentHash \<Rightarrow> Error + bytes) \<Rightarrow> L1Part \<Rightarrow> Payload \<Rightarrow> bool" where
  "pushes blobs p pl \<longleftrightarrow> pl_uri pl = ''#'' @ l1p_part p \<and> blobs (l1p_outer p) = Inr (pl_bytes pl)"

lemma l1_payload_iff: "l1_payload blobs p = Inr pl \<longleftrightarrow> pushes blobs p pl"
  by (cases pl) (auto simp: l1_payload_def pushes_def res_simps)

definition job_of :: "(ContentHash \<Rightarrow> Error + bytes) \<Rightarrow> Tree \<Rightarrow> L1Component \<Rightarrow> FlashJob \<Rightarrow> bool" where
  "job_of blobs observed c j \<longleftrightarrow>
     job_component_id j = l1c_component c \<and> job_envelope j = l1c_envelope c \<and>
     (if carries_all observed c then job_payloads j = []
      else list_all2 (pushes blobs) (l1c_parts c) (job_payloads j))"

lemma l1_job_ok: "l1_job blobs observed c = Inr j \<Longrightarrow> job_of blobs observed c j"
  by (auto simp: l1_job_def job_of_def component_unchanged_iff res_simps traverse_Inr_iff l1_payload_iff
      split: if_splits)

section \<open>Steps\<close>

lemma campaign_steps_jobs:
  "concat (map step_jobs (campaign_steps observed jobs)) =
     filter (\<lambda>j. is_singleshot observed (job_component_id j)) jobs @
     filter (\<lambda>j. \<not> is_singleshot observed (job_component_id j)) jobs"
  by (simp add: campaign_steps_def Let_def comp_def)

section \<open>Properties\<close>

text \<open>C19. The push sends, for each component of the signed campaign that is selected and that the
  rig advertises, in campaign order, exactly its signed manifest: alone when the rig already
  holds every declared content of that component (it copies forward), and otherwise with the
  ciphertext of every part, in manifest order (the device pairs them by position).\<close>

theorem l1_jobs_exact:
  assumes "l1_jobs blobs cs observed allow [] = Inr jobs"
  shows "list_all2 (job_of blobs observed) (filter (job_selected observed allow) cs) jobs"
proof -
  have "traverse (l1_job blobs observed) (filter (job_selected observed allow) cs) = Inr jobs"
    using assms by (auto simp: l1_jobs_closed res_simps)
  then have "list_all2 (\<lambda>c j. l1_job blobs observed c = Inr j) (filter (job_selected observed allow) cs) jobs"
    by (simp add: traverse_Inr_iff)
  then show ?thesis
    by (rule list_all2_mono) (rule l1_job_ok)
qed

definition ex_l1c :: L1Component where
  "ex_l1c = \<lparr>l1c_component = ''vm1'', l1c_envelope = [9],
     l1c_parts = [\<lparr>l1p_part = ''kernel'', l1p_outer = ex_hash 8, l1p_inner = Some (ex_hash 3)\<rparr>]\<rparr>"

lemma ex_l1_jobs:
  "l1_jobs (\<lambda>_. Inr [1, 2]) [ex_l1c] ex_observed None [] = Inr [\<lparr>job_component_id = ''vm1'',
     job_gateway_id = None, job_envelope = [9], job_payloads = [\<lparr>pl_uri = ''#kernel'', pl_bytes = [1, 2]\<rparr>]\<rparr>]"
  by (simp add: ex_l1c_def ex_tree_simps l1_job_def component_unchanged_def l1_payload_def bt_contains_key_def)

theorem l1_jobs_exact_witness:
  "\<exists>jobs. l1_jobs (\<lambda>_. Inr [1, 2]) [ex_l1c] ex_observed None [] = Inr jobs \<and>
     list_all2 (job_of (\<lambda>_. Inr [1, 2]) ex_observed) [ex_l1c] jobs"
  using l1_jobs_exact [OF ex_l1_jobs] ex_l1_jobs
  by (simp add: job_selected_def ex_l1c_def ex_tree_simps)

text \<open>C14. The no-mix discipline of a campaign: every job of the plan is in exactly one step; each
  irreversible (singleshot) component is a step of its own, without a forced reboot, and all of
  them come first; the reversible ones share the one last step, which is the only one to force
  the node reboot, and no step mixes the two kinds.\<close>

theorem campaign_steps_no_mix:
  "mset (concat (map step_jobs (campaign_steps observed jobs))) = mset jobs \<and>
   (\<forall>s \<in> set (campaign_steps observed jobs).
      if step_force_ecu_reset s
      then step_jobs s = filter (\<lambda>j. \<not> is_singleshot observed (job_component_id j)) jobs \<and> step_jobs s \<noteq> []
      else \<exists>j. step_jobs s = [j] \<and> is_singleshot observed (job_component_id j)) \<and>
   sorted (map step_force_ecu_reset (campaign_steps observed jobs)) \<and>
   length (filter step_force_ecu_reset (campaign_steps observed jobs)) \<le> 1"
proof -
  have "mset (concat (map step_jobs (campaign_steps observed jobs))) = mset jobs"
    unfolding campaign_steps_jobs by simp
  moreover have "\<forall>s \<in> set (campaign_steps observed jobs).
      if step_force_ecu_reset s
      then step_jobs s = filter (\<lambda>j. \<not> is_singleshot observed (job_component_id j)) jobs \<and> step_jobs s \<noteq> []
      else \<exists>j. step_jobs s = [j] \<and> is_singleshot observed (job_component_id j)"
    by (auto simp: campaign_steps_def Let_def)
  moreover have "sorted (map step_force_ecu_reset (campaign_steps observed jobs))"
    by (auto simp: campaign_steps_def Let_def sorted_append sorted_wrt_map sorted_wrt_true comp_def)
  moreover have "filter step_force_ecu_reset (map (\<lambda>j. \<lparr>step_jobs = [j], step_force_ecu_reset = False\<rparr>) js) = []" for js
    by (induction js) auto
  then have "length (filter step_force_ecu_reset (campaign_steps observed jobs)) \<le> 1"
    by (auto simp: campaign_steps_def Let_def)
  ultimately show ?thesis by blast
qed

definition ex_mode :: "bool \<Rightarrow> UpdateMode" where
  "ex_mode rollback = \<lparr>um_mode = ''m'', um_supports_rollback = rollback, um_dual_bank = rollback, um_reset_kind = ''r''\<rparr>"

definition ex_rig :: Tree where
  "ex_rig = \<lparr>entities = [(''rt'', Entity_default\<lparr>e_update_mode := Some (ex_mode False)\<rparr>),
     (''vm1'', Entity_default\<lparr>e_update_mode := Some (ex_mode True)\<rparr>)]\<rparr>"

definition ex_job :: "string \<Rightarrow> FlashJob" where
  "ex_job c = \<lparr>job_component_id = c, job_gateway_id = None, job_envelope = [], job_payloads = []\<rparr>"

theorem campaign_steps_no_mix_witness:
  "campaign_steps ex_rig [ex_job ''vm1'', ex_job ''rt'', ex_job ''new''] =
     [\<lparr>step_jobs = [ex_job ''rt''], step_force_ecu_reset = False\<rparr>,
      \<lparr>step_jobs = [ex_job ''vm1'', ex_job ''new''], step_force_ecu_reset = True\<rparr>] \<and>
   sorted (map step_force_ecu_reset (campaign_steps ex_rig [ex_job ''vm1'', ex_job ''rt'', ex_job ''new'']))"
  using campaign_steps_no_mix [of ex_rig "[ex_job ''vm1'', ex_job ''rt'', ex_job ''new'']"]
  by (simp add: campaign_steps_def is_singleshot_def observed_rollback_def ex_rig_def ex_job_def ex_mode_def
      Entity_default_def)

section \<open>The boot-bound token\<close>

text \<open>A campaign asks one \<open>RigToken\<close> for a token before every call, while the rig reboots in
  between. \<open>token_history J tk log\<close>: from a fresh minting token, the calls of \<open>log\<close> (latest
  first), each against the rig and the minter as they were then, have led to \<open>tk\<close>.\<close>

inductive token_history ::
    "json_api \<Rightarrow> mint_source \<Rightarrow> mint_source \<Rightarrow> (rig_api \<times> transport \<times> (EngineError + string)) list \<Rightarrow> bool"
  for J ms0 where
  start: "ms_cached ms0 = None \<Longrightarrow> token_history J ms0 ms0 []"
| call: "token_history J ms0 ms log \<Longrightarrow> token R T J (MintToken ms) c = (MintToken ms', r) \<Longrightarrow>
     token_history J ms0 ms' ((R, T, r) # log)"

definition live_boot :: "mint_source \<Rightarrow> rig_api \<Rightarrow> EngineError + string" where
  "live_boot ms R = fetch_rig_boot_id R (ms_rig_url ms) (ms_insecure ms) (ms_ca_cert_pem ms)"

definition minted_for :: "json_api \<Rightarrow> mint_source \<Rightarrow> rig_api \<Rightarrow> transport \<Rightarrow> string \<Rightarrow> string \<Rightarrow> bool" where
  "minted_for J ms R T boot tok \<longleftrightarrow>
     live_boot ms R = Inr boot \<and>
     (\<exists>ecu m. fetch_rig_ecu_id R (ms_rig_url ms) (ms_insecure ms) (ms_ca_cert_pem ms) = Inr ecu \<and>
        mint T J (ms_minter ms) ecu [''*''] (Some boot) (ms_ttl_secs ms) = Inr m \<and> tok = mt_token m)"

definition same_source :: "mint_source \<Rightarrow> mint_source \<Rightarrow> bool" where
  "same_source a b \<longleftrightarrow> a\<lparr>ms_cached := None\<rparr> = b\<lparr>ms_cached := None\<rparr>"

lemma same_source_fields:
  "same_source a b \<Longrightarrow> ms_minter a = ms_minter b \<and> ms_rig_url a = ms_rig_url b \<and> ms_ttl_secs a = ms_ttl_secs b \<and>
     ms_insecure a = ms_insecure b \<and> ms_ca_cert_pem a = ms_ca_cert_pem b"
  by (cases a; cases b) (simp add: same_source_def)

lemma same_source_refl [simp]: "same_source a a"
  by (simp add: same_source_def)

lemma token_call_cases:
  assumes "token R T J (MintToken ms) c = (tk', r)"
  shows "(\<exists>e. tk' = MintToken ms \<and> r = Inl e) \<or>
    (\<exists>boot tok. live_boot ms R = Inr boot \<and> ms_cached ms = Some (boot, tok) \<and> tk' = MintToken ms \<and> r = Inr tok) \<or>
    (\<exists>boot tok. minted_for J ms R T boot tok \<and> tk' = MintToken (ms\<lparr>ms_cached := Some (boot, tok)\<rparr>) \<and> r = Inr tok)"
proof (cases "live_boot ms R")
  case (Inl e)
  then have "token R T J (MintToken ms) c = (MintToken ms, Inl e)" by (simp add: token_def live_boot_def)
  with assms show ?thesis by auto
next
  case (Inr boot)
  have "(\<exists>e. tk' = MintToken ms \<and> r = Inl e) \<or>
      (\<exists>boot tok. minted_for J ms R T boot tok \<and> tk' = MintToken (ms\<lparr>ms_cached := Some (boot, tok)\<rparr>) \<and> r = Inr tok)"
    if m: "mint_now R T J ms boot = (tk', r)"
  proof (cases "fetch_rig_ecu_id R (ms_rig_url ms) (ms_insecure ms) (ms_ca_cert_pem ms)")
    case (Inl e)
    then have "mint_now R T J ms boot = (MintToken ms, Inl e)" by (simp add: mint_now_def)
    with m show ?thesis by auto
  next
    case ecu: (Inr ecu)
    show ?thesis
    proof (cases "mint T J (ms_minter ms) ecu [''*''] (Some boot) (ms_ttl_secs ms)")
      case (Inl e)
      then obtain x where "mint_now R T J ms boot = (MintToken ms, Inl x)"
        using ecu by (cases e) (simp add: mint_now_def)
      with m show ?thesis by auto
    next
      case (Inr t)
      with m ecu \<open>live_boot ms R = Inr boot\<close> show ?thesis
        by (auto simp: mint_now_def minted_for_def)
    qed
  qed
  with assms Inr show ?thesis
    by (auto simp: token_def live_boot_def split: option.splits prod.splits if_splits)
qed

lemma token_history_invariant:
  assumes "token_history J ms0 ms log"
  shows "same_source ms0 ms \<and>
    (\<forall>boot tok. ms_cached ms = Some (boot, tok) \<longrightarrow>
       (\<exists>R T r. (R, T, r) \<in> set log \<and> minted_for J ms0 R T boot tok)) \<and>
    (\<forall>R T tok. (R, T, Inr tok) \<in> set log \<longrightarrow>
       (\<exists>boot R' T' r'. live_boot ms0 R = Inr boot \<and> (R', T', r') \<in> set log \<and> minted_for J ms0 R' T' boot tok))"
  using assms
proof (induction rule: token_history.induct)
  case (call ms log R T c ms' r)
  have src: "same_source ms0 ms" using call by simp
  have boot: "live_boot ms0 = live_boot ms" and minted: "minted_for J ms0 = minted_for J ms"
    using same_source_fields [OF src] by (simp_all add: fun_eq_iff live_boot_def minted_for_def)
  from token_call_cases [OF call.hyps(2)] show ?case
  proof (elim disjE exE conjE)
    fix e
    assume "MintToken ms' = MintToken ms" and "r = Inl e"
    with call.IH show ?thesis by (auto; blast)
  next
    fix b tok
    assume "live_boot ms R = Inr b" and "ms_cached ms = Some (b, tok)" and "MintToken ms' = MintToken ms" and "r = Inr tok"
    with call.IH show ?thesis unfolding boot by (auto; blast)
  next
    fix b tok
    assume m: "minted_for J ms R T b tok" and ms': "MintToken ms' = MintToken (ms\<lparr>ms_cached := Some (b, tok)\<rparr>)" and "r = Inr tok"
    moreover have "live_boot ms R = Inr b"
      using m by (simp add: minted_for_def)
    moreover have "same_source ms0 ms'"
      using src ms' by (simp add: same_source_def)
    ultimately show ?thesis
      using call.IH unfolding boot minted by (auto; blast)
  qed
qed (simp)

definition ex_rig_api :: "string \<Rightarrow> rig_api" where
  "ex_rig_api boot =
     \<lparr>http_client_build = (\<lambda>_ _. Inr ()), device_get = (\<lambda>_ _ _. Inr \<lparr>rs_status = 200, rs_body = []\<rparr>),
      resp_text = (\<lambda>_. Inr boot), de_node_state = (\<lambda>_. Inl ''e''), sovd_new = (\<lambda>_ _ _. Inr ()),
      sovd_list_components = (\<lambda>_. Inr []), sovd_read_data = (\<lambda>_ _ _. Inl (SovdTransport ''e'')),
      sovd_admin_state = (\<lambda>_ _. Inr None), de_installed = (\<lambda>_. Inl ''e''), de_update_mode = (\<lambda>_. None),
      tree_to_value = (\<lambda>_. Inr ''{}'')\<rparr>"

definition ex_json :: json_api where
  "ex_json =
     \<lparr>de_version = (\<lambda>_. Inl ''e''), de_artifact_ref = (\<lambda>_. Inl ''e''), de_tree = (\<lambda>_. Inl ''e''),
      de_device = (\<lambda>_. Inl ''e''), de_devices = (\<lambda>_. Inl ''e''), de_enroll = (\<lambda>_. Inl ''e''),
      de_trust_bundle = (\<lambda>_. Inl ''e''), de_minted = (\<lambda>_. Inr \<lparr>mt_token = ''jwt'', mt_expires_at = ''t''\<rparr>),
      de_text = (\<lambda>_. Inl ''e'')\<rparr>"

definition ex_source :: mint_source where
  "ex_source = \<lparr>ms_minter = MinterClient_new ''http://mint/'' ''op'', ms_rig_url = ''http://rig/'',
     ms_ttl_secs = None, ms_insecure = False, ms_ca_cert_pem = None, ms_cached = None\<rparr>"

definition ex_transport :: transport where
  "ex_transport = (\<lambda>_. Inr \<lparr>rs_status = 200, rs_body = []\<rparr>)"

lemma ex_fetch: "fetch_rig_id (ex_rig_api ''b1'') u p w i k = Inr ''b1''"
proof -
  have "trim_matches DQ (trim ''b1'') = ''b1''" by code_simp
  then show ?thesis by (simp add: fetch_rig_id_def ex_rig_api_def Let_def)
qed

lemma ex_token_call:
  "token (ex_rig_api ''b1'') ex_transport ex_json (MintToken ex_source) ''c'' =
     (MintToken (ex_source\<lparr>ms_cached := Some (''b1'', ''jwt'')\<rparr>), Inr ''jwt'')"
  by (simp add: token_def mint_now_def fetch_rig_boot_id_def fetch_rig_ecu_id_def ex_fetch ex_source_def mint_def
      send_json_def send_bytes_def send_def error_for_status_def ex_transport_def ex_json_def)

text \<open>C13. Every token handed out during a campaign is bound to the boot the rig is in at that call:
  over any sequence of calls, with the rig rebooting and the minter answering as they like in
  between, a returned token was minted (in this or an earlier call) for exactly the boot id the
  rig reports now, for the ecu id it reported then.\<close>

theorem token_bound_to_live_boot:
  assumes "token_history J ms0 ms log" and "(R, T, Inr tok) \<in> set log"
  shows "\<exists>boot R' T' r'. live_boot ms0 R = Inr boot \<and> (R', T', r') \<in> set log \<and> minted_for J ms0 R' T' boot tok"
  using token_history_invariant [OF assms(1)] assms(2) by blast

theorem token_bound_to_live_boot_witness:
  "token_history ex_json ex_source (ex_source\<lparr>ms_cached := Some (''b1'', ''jwt'')\<rparr>)
     [(ex_rig_api ''b1'', ex_transport, Inr ''jwt'')] \<and>
   (\<exists>boot R' T' r'. live_boot ex_source (ex_rig_api ''b1'') = Inr boot \<and>
      (R', T', r') \<in> set [(ex_rig_api ''b1'', ex_transport, Inr ''jwt'')] \<and>
      minted_for ex_json ex_source R' T' boot ''jwt'')"
proof -
  have "token_history ex_json ex_source ex_source []"
    by (rule token_history.start) (simp add: ex_source_def)
  then have h: "token_history ex_json ex_source (ex_source\<lparr>ms_cached := Some (''b1'', ''jwt'')\<rparr>)
     [(ex_rig_api ''b1'', ex_transport, Inr ''jwt'')]"
    using ex_token_call by (rule token_history.call)
  show ?thesis
    using token_bound_to_live_boot [OF h, of "ex_rig_api ''b1''" ex_transport "''jwt''"] h by simp
qed

text \<open>The mint happens once per boot: while the rig reports the boot the cached token was
  minted for, a call returns that token, leaves the cache as it is, and needs neither the
  minter nor the ecu id (both may be down).\<close>

theorem token_reused_within_boot:
  assumes "live_boot ms R = Inr boot" and "ms_cached ms = Some (boot, tok)"
  shows "token R T J (MintToken ms) c = (MintToken ms, Inr tok)"
  using assms by (simp add: token_def live_boot_def)

theorem token_reused_within_boot_witness:
  "token (ex_rig_api ''b1'') (\<lambda>_. Inl ''down'') ex_json
     (MintToken (ex_source\<lparr>ms_cached := Some (''b1'', ''jwt'')\<rparr>)) ''c'' =
   (MintToken (ex_source\<lparr>ms_cached := Some (''b1'', ''jwt'')\<rparr>), Inr ''jwt'')"
  by (rule token_reused_within_boot) (simp_all add: live_boot_def fetch_rig_boot_id_def ex_fetch)

section \<open>Reading the rig\<close>

lemma installed_fold:
  "fold (\<lambda>f parts. case ch_from_str H (if_sha256 f) of
         Inr content \<Rightarrow> parts @ [\<lparr>p_kind = ''file'', p_id = if_path f, p_content = content\<rparr>]
       | Inl _ \<Rightarrow> parts) files acc =
   acc @ concat (map (\<lambda>f. case ch_from_str H (if_sha256 f) of
         Inr content \<Rightarrow> [\<lparr>p_kind = ''file'', p_id = if_path f, p_content = content\<rparr>] | Inl _ \<Rightarrow> []) files)"
  by (induction files arbitrary: acc) (auto split: sum.split)

lemma installed_part_iff:
  "p \<in> set (installed_files_to_parts H files) \<longleftrightarrow>
     (\<exists>f \<in> set files. ch_from_str H (if_sha256 f) = Inr (p_content p) \<and> p_id p = if_path f \<and> p_kind p = ''file'')"
  unfolding installed_files_to_parts_def installed_fold
  by (cases p) (force split: sum.splits)

text \<open>The rig's report is read fail-safe: when the digest the device reports for a file does
  not parse, the part is left out of the observed tree, and the desired part in that slot is
  then reported as a change and planned for shipping; it can never be taken as already
  installed.\<close>

theorem malformed_report_forces_push:
  assumes "bt_get (entities observed) path = Some e"
    and "e_parts e = installed_files_to_parts H files"
    and "\<forall>f \<in> set files. if_path f = i \<longrightarrow> ch_from_str H (if_sha256 f) = Inl err"
    and "bt_get (entities desired) path = Some d" and "p \<in> set (e_parts d)" and "p_id p = i"
  shows "part_change path Added p \<in> set (td_parts (diff observed desired)) \<and>
    \<lparr>pp_entity = path, pp_part = i, pp_kind = p_kind p, pp_content = p_content p, pp_plan = Ship\<rparr>
      \<in> set (fp_parts (Wire.flash_plan observed desired))"
proof -
  have "i \<notin> p_id ` set (e_parts e)"
    using assms(2,3) by (auto simp: installed_part_iff)
  then have none: "slot_of observed path (p_id p) = None"
    using assms(1,6) by (simp add: slot_of_simps slot_None_iff)
  have mem: "(path, d) \<in> set (entities desired)"
    using assms(4) by (rule map_of_SomeD)
  have "part_change path Added p \<in> set (part_delta observed path p)"
    using none by (simp add: part_delta_def)
  then have "part_change path Added p \<in> set (td_parts (diff observed desired))"
    using mem assms(5) by (force simp: diff_closed)
  moreover have "\<lparr>pp_entity = path, pp_part = i, pp_kind = p_kind p, pp_content = p_content p, pp_plan = Ship\<rparr>
      \<in> set (plan_entity observed (path, d))"
    unfolding plan_part_slot set_map using none assms(6) by (intro image_eqI [OF _ assms(5)]) simp
  then have "\<lparr>pp_entity = path, pp_part = i, pp_kind = p_kind p, pp_content = p_content p, pp_plan = Ship\<rparr>
      \<in> set (fp_parts (Wire.flash_plan observed desired))"
    using mem by (force simp: flash_plan_closed)
  ultimately show ?thesis by blast
qed

definition ex_reported :: Tree where
  "ex_reported = \<lparr>entities = [(''vm1'', Entity_default\<lparr>e_parts :=
     installed_files_to_parts ref_hash [\<lparr>if_path = ''kernel'', if_sha256 = ''zz''\<rparr>]\<rparr>)]\<rparr>"

theorem malformed_report_forces_push_witness:
  "part_change ''vm1'' Added (ex_part ''kernel'' 3) \<in> set (td_parts (diff ex_reported ex_desired))"
proof -
  have "ch_from_str ref_hash ''zz'' = Inl NotHex" by code_simp
  then show ?thesis
    using malformed_report_forces_push [of ex_reported "''vm1''" _ ref_hash
        "[\<lparr>if_path = ''kernel'', if_sha256 = ''zz''\<rparr>]" "''kernel''" NotHex ex_desired _ "ex_part ''kernel'' 3"]
    by (simp add: ex_reported_def ex_tree_simps)
qed

end
