(* ===== verification/Reference_Suit.thy ===== *)
theory Reference_Suit
  imports Campaign Signer Reference_Crates
begin

text \<open>
  A stand-in for the SUIT envelope format of \<open>sumo-offboard\<close>: length-prefixed fields (lengths in
  unary), with the builders the signer uses and the decoder the orchestrator uses. It has the
  structure the code relies on and none of the cryptography; only witnesses mention it.
\<close>

definition enc_bytes :: "bytes \<Rightarrow> bytes" where
  "enc_bytes b = replicate (length b) 1 @ 0 # b"

definition dec_bytes :: "bytes \<Rightarrow> bytes \<times> bytes" where
  "dec_bytes s =
     (let n = length (takeWhile (\<lambda>x. x = 1) s); rest = drop (Suc n) s in (take n rest, drop n rest))"

definition enc_list :: "('a \<Rightarrow> bytes) \<Rightarrow> 'a list \<Rightarrow> bytes" where
  "enc_list f xs = replicate (length xs) 1 @ 0 # concat (map f xs)"

fun dec_times :: "nat \<Rightarrow> (bytes \<Rightarrow> 'a \<times> bytes) \<Rightarrow> bytes \<Rightarrow> 'a list \<times> bytes" where
  "dec_times 0 f s = ([], s)"
| "dec_times (Suc n) f s = (let (x, r) = f s; (xs, r') = dec_times n f r in (x # xs, r'))"

definition dec_list :: "(bytes \<Rightarrow> 'a \<times> bytes) \<Rightarrow> bytes \<Rightarrow> 'a list \<times> bytes" where
  "dec_list f s = (let n = length (takeWhile (\<lambda>x. x = 1) s) in dec_times n f (drop (Suc n) s))"

lemma takeWhile_ones: "takeWhile (\<lambda>x. x = 1) (replicate n 1 @ 0 # s) = replicate n (1 :: u8)"
  by (induction n) auto

lemma dec_enc_bytes: "dec_bytes (enc_bytes b @ r) = (b, r)"
  using takeWhile_ones [of "length b" "b @ r"] by (simp add: dec_bytes_def enc_bytes_def Let_def)

lemma dec_enc_list:
  assumes "\<And>x r. dec (enc x @ r) = (g x, r)"
  shows "dec_list dec (enc_list enc xs @ r) = (map g xs, r)"
proof -
  have "dec_times (length xs) dec (concat (map enc xs) @ r) = (map g xs, r)" for xs
    by (induction xs) (simp_all add: assms)
  then show ?thesis
    using takeWhile_ones [of "length xs" "concat (map enc xs) @ r"] by (simp add: dec_list_def enc_list_def Let_def)
qed

definition enc_dep :: "string \<times> bytes \<Rightarrow> bytes" where
  "enc_dep d = enc_bytes (as_bytes (fst d)) @ enc_bytes (snd d)"

definition dec_dep :: "bytes \<Rightarrow> (string \<times> bytes) \<times> bytes" where
  "dec_dep s = (let (n, r) = dec_bytes s; (b, r') = dec_bytes r in ((''#'' @ bytes_text n, b), r'))"

definition enc_spec :: "ComponentSpec \<Rightarrow> bytes" where
  "enc_spec sp = enc_list (\<lambda>i. enc_bytes (as_bytes i)) (cs_id sp) @ enc_bytes (as_bytes (cs_uri sp)) @ enc_bytes (cs_digest sp)"

definition dec_spec :: "bytes \<Rightarrow> suit_component \<times> bytes" where
  "dec_spec s =
     (let (ids, r) = dec_list dec_bytes s; (u, r1) = dec_bytes r; (g, r2) = dec_bytes r1 in
      (\<lparr>su_id = Some ids, su_uri = Some (bytes_text u), su_digest = Some g\<rparr>, r2))"

lemma dec_enc_dep: "dec_dep (enc_dep d @ r) = ((''#'' @ fst d, snd d), r)"
  by (simp add: dec_dep_def enc_dep_def dec_enc_bytes)

lemma dec_enc_spec:
  "dec_spec (enc_spec sp @ r) =
     (\<lparr>su_id = Some (map as_bytes (cs_id sp)), su_uri = Some (cs_uri sp), su_digest = Some (cs_digest sp)\<rparr>, r)"
proof -
  have "dec_list dec_bytes (enc_list (\<lambda>i. enc_bytes (as_bytes i)) (cs_id sp) @ s) = (map as_bytes (cs_id sp), s)" for s
    by (rule dec_enc_list) (rule dec_enc_bytes)
  then show ?thesis
    by (simp add: dec_spec_def enc_spec_def dec_enc_bytes)
qed

definition suit_offboard :: "bytes offboard_api" where
  "suit_offboard = \<lparr>generate_signing_key = Inr [1], from_cose_key_bytes = Inr, to_cose_key_bytes = (\<lambda>k. k),
     public_key_bytes = (\<lambda>k. k), rewrap_cek_ecdh = (\<lambda>cek iv rc. Inr (cek @ iv @ rc_public_key rc @ rc_kid rc)),
     multi_build = (\<lambda>t q specs k. Inr (2 # enc_list enc_spec specs @ k)),
     campaign_build = (\<lambda>t q l2s k. if l2s = [] then Inl ''no dependencies'' else Inr (1 # enc_list enc_dep l2s @ k)),
     disable_build = (\<lambda>t q ids k. Inr (3 # enc_list (\<lambda>i. enc_bytes (as_bytes i)) ids @ k))\<rparr>"

definition suit_decoder :: suit_api where
  "suit_decoder = \<lparr>
     decode_envelope = (\<lambda>b. case b of
         [] \<Rightarrow> Inl ''empty''
       | c # s \<Rightarrow>
           if c = 1 then Inr \<lparr>su_payloads = bt_collect (fst (dec_list dec_dep s)), su_disable_target = None,
             su_has_firmware = False, su_components = []\<rparr>
           else if c = 2 then Inr \<lparr>su_payloads = [], su_disable_target = None, su_has_firmware = True,
             su_components = fst (dec_list dec_spec s)\<rparr>
           else if c = 3 then Inr \<lparr>su_payloads = [], su_disable_target = Some 0, su_has_firmware = False,
             su_components = []\<rparr>
           else Inl ''unknown''),
     from_utf8_lossy = bytes_text\<rparr>"

end
