(* ===== verification/Push_Tower.thy ===== *)
theory Push_Tower
  imports Tower_Props Campaign_Props Reference_Suit
begin

text \<open>
  From the tower's tables to the flash engine: the orchestrator's push plan against the real
  routes of the software tower. What connects the two sides outside the repository is the SUIT
  format: \<open>suit_laws\<close> says that decoding an envelope gives back what it was built from.
\<close>

section \<open>The envelope format\<close>

definition spec_component :: "ComponentSpec \<Rightarrow> suit_component" where
  "spec_component sp = \<lparr>su_id = Some (map as_bytes (cs_id sp)), su_uri = Some (cs_uri sp),
     su_digest = Some (cs_digest sp)\<rparr>"

text \<open>A campaign carries its L2 envelopes as integrated payloads under \<open>#<name>\<close>, an image envelope
  its components in order, a disable envelope a target and no firmware. A string is a Rust string, so its bytes are valid UTF-8.\<close>

definition suit_laws :: "'k offboard_api \<Rightarrow> suit_api \<Rightarrow> bool" where
  "suit_laws Off S \<longleftrightarrow>
     (\<forall>t q l2s k b. campaign_build Off t q l2s k = Inr b \<and> distinct (map fst l2s) \<longrightarrow>
        b \<noteq> [] \<and> (\<exists>env. decode_envelope S b = Inr env \<and>
          su_payloads env = bt_collect (map (\<lambda>(n, l2). (''#'' @ n, l2)) l2s))) \<and>
     (\<forall>t q specs k b. multi_build Off t q specs k = Inr b \<longrightarrow>
        (\<exists>env. decode_envelope S b = Inr env \<and> su_disable_target env = None \<and>
          su_components env = map spec_component specs)) \<and>
     (\<forall>t q ids k b. disable_build Off t q ids k = Inr b \<longrightarrow>
        (\<exists>env. decode_envelope S b = Inr env \<and> su_disable_target env \<noteq> None \<and> \<not> su_has_firmware env)) \<and>
     (\<forall>s. from_utf8_lossy S (as_bytes s) = s)"

section \<open>What the fan-out recovers\<close>

text \<open>The part of a decoded campaign for a desired part with the given index entry; the component of a
  decoded campaign, whose envelope is the one signed (\<open>sealed\<close>) for a desired component.\<close>

definition part_push :: "(ContentHash \<Rightarrow> ArtifactEntry option) \<Rightarrow> Part \<Rightarrow> L1Part \<Rightarrow> bool" where
  "part_push look p lp \<longleftrightarrow>
     l1p_part lp = p_id p \<and> l1p_inner lp = Some (p_content p) \<and>
     (\<exists>entry. look (p_content p) = Some entry \<and> l1p_outer lp = ae_outer entry)"

definition component_push ::
    "(ContentHash \<Rightarrow> ArtifactEntry option) \<Rightarrow> (ComponentEntry \<Rightarrow> string \<times> bytes \<Rightarrow> bool) \<Rightarrow> ComponentEntry
      \<Rightarrow> L1Component \<Rightarrow> bool" where
  "component_push look sealed pe c \<longleftrightarrow>
     l1c_component c = fst pe \<and> sealed pe (fst pe, l1c_envelope c) \<and>
     (if e_disabled (snd pe) then l1c_parts c = []
      else list_all2 (part_push look) (e_parts (snd pe)) (l1c_parts c))"

lemma pg_look_outer_ok: "pg_look H ix k = Some e \<Longrightarrow> ch_ok (ae_outer e)"
proof -
  assume "pg_look H ix k = Some e"
  then obtain row where "pg_entry H k row = Some e"
    by (auto simp: pg_look_def bind_eq_Some_conv)
  then obtain outer where "ch_from_str H (row_outer_hash row) = Inr outer" "ae_outer e = outer"
    by (cases "ch_from_str H (row_outer_hash row)") (auto simp: pg_entry_def)
  then show "ch_ok (ae_outer e)"
    using ch_from_str_ok by blast
qed

lemma pg_index_look: "pg_wf H ix \<Longrightarrow> index_get (pg_index_api H) ix k = Inr x \<Longrightarrow> x = pg_look H ix k"
  by (simp add: pg_index_api_def pg_get_look split: if_splits)

lemma fanout_part_signed:
  assumes H: "hash_api_ok H" and S: "suit_laws Off S" and wf: "pg_wf H ix" and c: "ch_ok (p_content p)"
    and sp: "signed_part H Off (pg_index_api H) ix dev path p sp"
  shows "\<exists>lp. fanout_part H S path (i, spec_component sp) = Inr lp \<and> part_push (pg_look H ix) p lp"
proof -
  obtain entry wrapped where e: "index_get (pg_index_api H) ix (p_content p) = Inr (Some entry)"
    and sp: "sp = \<lparr>cs_id = [path, p_id p], cs_digest = ch_bytes (p_content p), cs_size = ae_size entry,
              cs_uri = to_prefixed H (ae_outer entry), cs_encryption_info = Some wrapped\<rparr>"
    using sp by (auto simp: signed_part_def)
  have look: "pg_look H ix (p_content p) = Some entry"
    using pg_index_look [OF wf e] by simp
  have uri: "ch_from_str H (to_prefixed H (ae_outer entry)) = Inr (ae_outer entry)"
    using ch_from_str_prefixed [OF H pg_look_outer_ok [OF look]] .
  have utf8: "from_utf8_lossy S (as_bytes (p_id p)) = p_id p"
    using S by (simp add: suit_laws_def)
  have "ch_from_bytes (ch_bytes (p_content p)) = p_content p"
    by (cases "p_content p") (simp add: ch_from_bytes_def)
  then have "fanout_part H S path (i, spec_component sp) =
      Inr \<lparr>l1p_part = p_id p, l1p_outer = ae_outer entry, l1p_inner = Some (p_content p)\<rparr>"
    using c uri utf8 by (simp add: fanout_part_def spec_component_def sp ch_ok_def)
  then show ?thesis
    using look by (simp add: part_push_def)
qed

lemma fanout_parts_signed:
  assumes H: "hash_api_ok H" and S: "suit_laws Off S" and wf: "pg_wf H ix"
    and sp: "list_all2 (signed_part H Off (pg_index_api H) ix dev path) ps specs"
    and c: "\<forall>p \<in> set ps. ch_ok (p_content p)"
  shows "\<exists>lps. traverse (fanout_part H S path) (enumerate n (map spec_component specs)) = Inr lps \<and>
    list_all2 (part_push (pg_look H ix)) ps lps"
  using sp c
proof (induction ps specs arbitrary: n rule: list_all2_induct)
  case (Cons p ps sp specs)
  from Cons(4) have "ch_ok (p_content p)" and rest: "\<forall>p \<in> set ps. ch_ok (p_content p)"
    by simp_all
  from fanout_part_signed [OF H S wf this(1) Cons(1)] obtain lp where
    "fanout_part H S path (n, spec_component sp) = Inr lp" "part_push (pg_look H ix) p lp"
    by blast
  with Cons(3) [OF rest, of "Suc n"] show ?case by auto
qed simp

lemma fanout_component_signed:
  assumes H: "hash_api_ok H" and S: "suit_laws Off S" and wf: "pg_wf H ix"
    and l2: "signed_l2 H Off (pg_index_api H) clock s ix dpk req pe l2"
    and c: "\<forall>p \<in> set (e_parts (snd pe)). ch_ok (p_content p)"
  shows "\<exists>lc. fanout_component H S (''#'' @ fst l2, snd l2) = Inr lc \<and> component_push (pg_look H ix) (signed_l2 H Off (pg_index_api H) clock s ix dpk req) pe lc"
proof -
  have name: "fst l2 = fst pe" "strip_prefix ''#'' (''#'' @ fst l2) = Some (fst pe)"
    using l2 by (simp_all add: signed_l2_def strip_prefix_def)
  have sealed: "signed_l2 H Off (pg_index_api H) clock s ix dpk req pe (fst pe, snd l2)"
    using l2 name(1) by (metis prod.collapse)
  show ?thesis
  proof (cases "e_disabled (snd pe)")
    case True
    with l2 obtain env where "decode_envelope S (snd l2) = Inr env" "su_disable_target env \<noteq> None" "\<not> su_has_firmware env"
      using S unfolding suit_laws_def signed_l2_def by (simp only: if_True) blast
    with name sealed True show ?thesis
      by (simp add: fanout_component_def component_push_def)
  next
    case False
    with l2 obtain pk specs where
      sp: "list_all2 (signed_part H Off (pg_index_api H) ix \<lparr>rc_public_key = pk, rc_kid = as_bytes (l1_device_id req)\<rparr>
        (fst pe)) (e_parts (snd pe)) specs"
      and "multi_build Off (signing_now clock) (l1_seq req) specs (signer_key s) = Inr (snd l2)"
      by (auto simp: signed_l2_def)
    with S obtain env where env: "decode_envelope S (snd l2) = Inr env" "su_disable_target env = None"
      "su_components env = map spec_component specs"
      unfolding suit_laws_def by blast
    from fanout_parts_signed [OF H S wf sp c, of 0] obtain lps where
      "traverse (fanout_part H S (fst pe)) (enumerate 0 (map spec_component specs)) = Inr lps"
      "list_all2 (part_push (pg_look H ix)) (e_parts (snd pe)) lps"
      by blast
    with name env sealed False show ?thesis
      by (simp add: fanout_component_def component_push_def)
  qed
qed

lemma set_bt_collect: "distinct (map fst kvs) \<Longrightarrow> set (bt_collect kvs) = set kvs"
proof -
  assume d: "distinct (map fst kvs)"
  have "distinct (map fst (bt_collect kvs))"
    by (rule bt_wf_distinct) simp
  then have "x \<in> set (bt_collect kvs) \<longleftrightarrow> x \<in> set kvs" for x
    using map_of_eq_Some_iff [of "bt_collect kvs" "fst x" "snd x"] map_of_eq_Some_iff [OF d, of "fst x" "snd x"]
    by (simp add: bt_get_collect_distinct [OF d])
  then show ?thesis by blast
qed

lemma traverse_total: "(\<And>x. x \<in> set xs \<Longrightarrow> \<exists>y. f x = Inr y) \<Longrightarrow> \<exists>ys. traverse f xs = Inr ys"
  by (induction xs) (auto, fastforce)

lemma traverse_members:
  assumes "traverse f xs = Inr ys"
  shows "y \<in> set ys \<Longrightarrow> \<exists>x \<in> set xs. f x = Inr y" "x \<in> set xs \<Longrightarrow> \<exists>y \<in> set ys. f x = Inr y"
proof -
  have "list_all2 (\<lambda>x y. f x = Inr y) xs ys"
    using assms by (simp add: traverse_Inr_iff)
  then show "y \<in> set ys \<Longrightarrow> \<exists>x \<in> set xs. f x = Inr y" "x \<in> set xs \<Longrightarrow> \<exists>y \<in> set ys. f x = Inr y"
    by (induction rule: list_all2_induct) auto
qed

lemma list_all2_members:
  assumes "list_all2 P xs ys"
  shows "y \<in> set ys \<Longrightarrow> \<exists>x \<in> set xs. P x y" "x \<in> set xs \<Longrightarrow> \<exists>y \<in> set ys. P x y"
  using assms by (induction rule: list_all2_induct) auto

lemma campaign_payloads:
  assumes "suit_laws Off S" and b: "campaign_build Off t q l2s k = Inr b" and d: "distinct (map fst l2s)"
  shows "b \<noteq> [] \<and> (\<exists>env. decode_envelope S b = Inr env \<and>
    set (su_payloads env) = (\<lambda>l2. (''#'' @ fst l2, snd l2)) ` set l2s)"
proof -
  have "campaign_build Off t q l2s k = Inr b \<and> distinct (map fst l2s)"
    using b d by simp
  then obtain env where env: "b \<noteq> []" "decode_envelope S b = Inr env"
    "su_payloads env = bt_collect (map (\<lambda>(n, l2). (''#'' @ n, l2)) l2s)"
    using assms(1) unfolding suit_laws_def by blast
  have "distinct (map fst (map (\<lambda>(n, l2). (''#'' @ n, l2)) l2s))"
    using d by (simp add: distinct_map inj_on_def o_def case_prod_beta)
  then have "set (su_payloads env) = (\<lambda>l2. (''#'' @ fst l2, snd l2)) ` set l2s"
    unfolding env(3) by (simp add: set_bt_collect case_prod_beta)
  with env(1,2) show ?thesis
    by blast
qed

lemma fanout_l1_signed:
  assumes H: "hash_api_ok H" and S: "suit_laws Off S" and wf: "pg_wf H ix"
    and l2s: "list_all2 (signed_l2 H Off (pg_index_api H) clock s ix dpk req) pes l2s"
    and c: "\<forall>pe \<in> set pes. \<forall>p \<in> set (e_parts (snd pe)). ch_ok (p_content p)"
    and d: "distinct (map fst l2s)"
    and b: "campaign_build Off t q l2s k = Inr b"
  shows "b \<noteq> [] \<and> (\<exists>cs. fanout_l1 H S b = Inr cs \<and>
    (\<forall>lc \<in> set cs. \<exists>pe \<in> set pes. component_push (pg_look H ix) (signed_l2 H Off (pg_index_api H) clock s ix dpk req) pe lc) \<and>
    (\<forall>pe \<in> set pes. \<exists>lc \<in> set cs. component_push (pg_look H ix) (signed_l2 H Off (pg_index_api H) clock s ix dpk req) pe lc))"
proof -
  from campaign_payloads [OF S b d] obtain env where ne: "b \<noteq> []" and env: "decode_envelope S b = Inr env"
    and payloads: "set (su_payloads env) = (\<lambda>l2. (''#'' @ fst l2, snd l2)) ` set l2s"
    by blast
  have each: "\<exists>lc. fanout_component H S (''#'' @ fst l2, snd l2) = Inr lc \<and> component_push (pg_look H ix) (signed_l2 H Off (pg_index_api H) clock s ix dpk req) pe lc"
    if "signed_l2 H Off (pg_index_api H) clock s ix dpk req pe l2" "pe \<in> set pes" for pe l2
    using fanout_component_signed [OF H S wf that(1)] c that(2) by blast
  have "\<exists>y. fanout_component H S x = Inr y" if x: "x \<in> set (su_payloads env)" for x
  proof -
    from x payloads obtain l2 where l2: "l2 \<in> set l2s" "x = (''#'' @ fst l2, snd l2)"
      by blast
    from list_all2_members(1) [OF l2s l2(1)] obtain pe where
      "pe \<in> set pes" "signed_l2 H Off (pg_index_api H) clock s ix dpk req pe l2"
      by blast
    with each l2(2) show ?thesis by blast
  qed
  then obtain cs where cs: "traverse (fanout_component H S) (su_payloads env) = Inr cs"
    using traverse_total by blast
  have fan: "fanout_l1 H S b = Inr cs"
    using env cs by (simp add: fanout_l1_def map_err_def)
  have 1: "\<exists>pe \<in> set pes. component_push (pg_look H ix) (signed_l2 H Off (pg_index_api H) clock s ix dpk req) pe lc" if lc: "lc \<in> set cs" for lc
  proof -
    from traverse_members(1) [OF cs lc] payloads obtain l2 where
      l2: "l2 \<in> set l2s" "fanout_component H S (''#'' @ fst l2, snd l2) = Inr lc"
      by auto
    from list_all2_members(1) [OF l2s l2(1)] obtain pe where
      pe: "pe \<in> set pes" "signed_l2 H Off (pg_index_api H) clock s ix dpk req pe l2"
      by blast
    with each [OF pe(2,1)] l2(2) show ?thesis by auto
  qed
  have 2: "\<exists>lc \<in> set cs. component_push (pg_look H ix) (signed_l2 H Off (pg_index_api H) clock s ix dpk req) pe lc" if pe: "pe \<in> set pes" for pe
  proof -
    from list_all2_members(2) [OF l2s pe] obtain l2 where
      l2: "l2 \<in> set l2s" "signed_l2 H Off (pg_index_api H) clock s ix dpk req pe l2"
      by blast
    then have "(''#'' @ fst l2, snd l2) \<in> set (su_payloads env)"
      using payloads by blast
    from traverse_members(2) [OF cs this] each [OF l2(2) pe] show ?thesis by auto
  qed
  show ?thesis
    using ne fan 1 2 by blast
qed

section \<open>Resolved trees\<close>

lemma bt_collect_subset: "x \<in> set (bt_collect kvs) \<Longrightarrow> x \<in> set kvs"
  using bt_wf_distinct [of "bt_collect kvs"] map_of_SomeD [of "rev kvs"]
  by (cases x) (fastforce simp: bt_get_collect dest: map_of_is_SomeI)

lemma resolved_entity:
  assumes "resolve_members_to_tree H d vid = Inr t" "pe \<in> set (entities t)"
  shows "\<exists>rid path. traverse (resolve_part H vid rid path) (filter (\<lambda>p. pr_release_id p = rid) (db_parts d)) =
    Inr (e_parts (snd pe))"
proof -
  from assms(1) obtain kvs where
    kvs: "traverse (resolve_member H d vid) (filter (\<lambda>m. mr_vehicle_release_id m = vid) (db_members d)) = Inr kvs"
    and t: "t = \<lparr>entities = bt_collect kvs\<rparr>"
    by (auto simp: resolve_members_to_tree_def res_simps)
  have "pe \<in> set kvs"
    using assms(2) bt_collect_subset by (simp add: t)
  from traverse_members(1) [OF kvs this] obtain m where "resolve_member H d vid m = Inr pe"
    by blast
  then have "traverse (resolve_part H vid (mr_component_release_id m)
        (cr_entity_path (the (find (\<lambda>r. cr_id r = mr_component_release_id m) (db_components d)))))
      (filter (\<lambda>p. pr_release_id p = mr_component_release_id m) (db_parts d)) = Inr (e_parts (snd pe))"
    by (auto simp: resolve_member_def Let_def res_simps)
  then show ?thesis
    by blast
qed

lemma resolved_parts_ok:
  assumes "resolve_members_to_tree H d vid = Inr t" "pe \<in> set (entities t)" "p \<in> set (e_parts (snd pe))"
  shows "ch_ok (p_content p)"
proof -
  from resolved_entity [OF assms(1,2)] obtain rid path rows where
    parts: "traverse (resolve_part H vid rid path) rows = Inr (e_parts (snd pe))"
    by blast
  from traverse_members(1) [OF parts assms(3)] show ?thesis
    by (auto simp: resolve_part_def parse_stored_hash_def res_simps dest: ch_from_str_ok)
qed

lemma resolved_parts_distinct:
  assumes "resolve_members_to_tree H d vid = Inr t" "pe \<in> set (entities t)" "db_wf d"
  shows "distinct (map p_id (e_parts (snd pe)))"
proof -
  from resolved_entity [OF assms(1,2)] obtain rid path where
    parts: "traverse (resolve_part H vid rid path) (filter (\<lambda>p. pr_release_id p = rid) (db_parts d)) = Inr (e_parts (snd pe))"
    by blast
  have ids: "traverse (resolve_part H vid rid path) rows = Inr ps \<Longrightarrow> map p_id ps = map pr_part_id rows" for rows ps
    by (induction rows arbitrary: ps) (auto simp: resolve_part_def res_simps)
  have "distinct (map part_key (filter (\<lambda>p. pr_release_id p = rid) (db_parts d)))"
    using assms(3) by (simp add: db_wf_def parts_wf_def distinct_map_filter)
  then have "distinct (map pr_part_id (filter (\<lambda>p. pr_release_id p = rid) (db_parts d)))"
    by (simp add: distinct_map inj_on_def part_key_def)
  then show ?thesis
    by (simp add: ids [OF parts])
qed

lemma resolved_by_release:
  assumes "resolve_target H d sel = Inr (Some tree)"
  shows "\<exists>vid. resolve_members_to_tree H d vid = Inr tree"
proof (cases "ts_vehicle_release_id sel")
  case (Some vid)
  then show ?thesis
    using resolve_target_ok(3) [OF assms] by blast
next
  case None
  then obtain channel where ch: "ts_channel sel = Some channel"
    using assms by (cases "ts_channel sel") (auto simp: resolve_target_def)
  from assms obtain x where
    x: "map_err db (resolve_channel_target H d channel (ts_device sel) (ts_architecture sel)) = Inr x"
    and post: "(case (ts_tree_hash sel, x) of
          (Some expected, Some t) \<Rightarrow>
            if tree_hash H t \<noteq> expected then Inl (BadRequest ''tree_hash does not match release'')
            else Inr x
        | _ \<Rightarrow> Inr x) = Inr (Some tree)"
    unfolding resolve_target_def None ch option.case try_bind_Inr_iff by blast
  have "x = Some tree"
    using post by (cases "ts_tree_hash sel"; cases x; simp split: if_splits)
  with x show ?thesis
    by (auto simp: resolve_channel_target_def res_simps split: option.splits)
qed

section \<open>Well-formed values\<close>

text \<open>What the types of the code promise and a value of the model need not have: the entities of a tree are
  a map with sorted keys, and a content address has 32 bytes.\<close>

definition tree_typed :: "Tree \<Rightarrow> bool" where
  "tree_typed t \<longleftrightarrow> bt_wf (entities t) \<and>
     list_all (\<lambda>pe. list_all (\<lambda>p. ch_ok (p_content p)) (e_parts (snd pe))) (entities t)"

lemma read_component_parts:
  assumes "read_component H R client c = Inr pe"
  shows "\<exists>files. e_parts (snd pe) = installed_files_to_parts H files"
proof -
  from assms have "e_parts (snd pe) = installed_files_to_parts H
      (case read_installed R client (sovc_id c) of Inr (Some im) \<Rightarrow> im_files im | _ \<Rightarrow> [])"
    by (auto simp: read_component_def Let_def res_simps Entity_default_def installed_files_to_parts_def split: option.splits)
  then show ?thesis
    by blast
qed

lemma rig_state_typed:
  assumes "read_rig_state H R url insecure pem = Inr t"
  shows "tree_typed t"
proof -
  from assms obtain client comps kvs where
    kvs: "traverse (read_component H R client) comps = Inr kvs" and t: "t = \<lparr>entities = bt_collect kvs\<rparr>"
    by (auto simp: read_rig_state_def res_simps)
  have "ch_ok (p_content p)" if "pe \<in> set kvs" "p \<in> set (e_parts (snd pe))" for pe p
    using traverse_members(1) [OF kvs that(1)] read_component_parts that(2) ch_from_str_ok
    by (fastforce simp: installed_part_iff)
  then show ?thesis
    using bt_collect_subset by (fastforce simp: tree_typed_def t list_all_iff)
qed

lemma plan_typed: "tree_typed desired \<Longrightarrow> pp \<in> set (fp_parts (flash_plan observed desired)) \<Longrightarrow> ch_ok (pp_content pp)"
  by (auto simp: flash_plan_closed plan_entity_def plan_part_def Let_def tree_typed_def list_all_iff)

lemma fanout_typed:
  assumes "fanout_l1 H S l1 = Inr cs" "lc \<in> set cs" "p \<in> set (l1c_parts lc)"
  shows "ch_ok (l1p_outer p) \<and> (\<forall>h. l1p_inner p = Some h \<longrightarrow> ch_ok h)"
proof -
  from assms(1) obtain kls where cs: "traverse (fanout_component H S) kls = Inr cs"
    by (auto simp: fanout_l1_def res_simps)
  from traverse_members(1) [OF this assms(2)] obtain component ics where
    parts: "traverse (fanout_part H S component) ics = Inr (l1c_parts lc)"
    by (auto simp: fanout_component_def Let_def res_simps)
  from traverse_members(1) [OF this assms(3)] obtain ic where "fanout_part H S component ic = Inr p"
    by blast
  then obtain outer uri where "ch_from_str H uri = Inr outer" "l1p_outer p = outer"
    and inner: "l1p_inner p = (case su_digest (snd ic) of
      Some d \<Rightarrow> if length d = 32 then Some (ch_from_bytes d) else None | None \<Rightarrow> None)"
    by (auto simp: fanout_part_def Let_def try_bind_Inr_iff map_err_Inr_iff)
  moreover have "ch_ok h" if "l1p_inner p = Some h" for h
    using that inner by (auto simp: ch_ok_def ch_from_bytes_def split: option.splits if_splits)
  ultimately show ?thesis
    using ch_from_str_ok by blast
qed

section \<open>The tower behind the transport\<close>

text \<open>The transport of an orchestrator whose requests under \<open>base\<close> reach the routes of a tower in the
  state \<open>st\<close>; everything else (Tower 1) answers as it likes.\<close>

definition tower_transport ::
    "('h, 's, 'z, 'k) hub_crates \<Rightarrow> hub_render \<Rightarrow> (io_op \<Rightarrow> bool) \<Rightarrow> i64 \<Rightarrow> 'k hub_state \<Rightarrow> string \<Rightarrow> transport
      \<Rightarrow> transport" where
  "tower_transport C Rn io clock st base other rq =
     (case strip_prefix base (rq_url rq) of
        Some path \<Rightarrow> Inr (snd (hub_http C Rn io clock st rq path))
      | None \<Rightarrow> other rq)"

lemma tower_transport_base:
  "rq_url rq = base @ path \<Longrightarrow> tower_transport C Rn io clock st base other rq = Inr (snd (hub_http C Rn io clock st rq path))"
  by (simp add: tower_transport_def strip_prefix_def)

lemma into_response_status: "400 \<le> fst (into_response e) \<and> fst (into_response e) < 600"
  by (cases e) simp_all

lemma hub_response_ok:
  "\<not> (400 \<le> rs_status (hub_response Rn r) \<and> rs_status (hub_response Rn r) < 600) \<Longrightarrow>
   \<exists>a. r = Inr a \<and> rs_body (hub_response Rn r) = answer_body Rn a"
  using into_response_status by (cases r) (auto simp: hub_response_def)

lemma segments_l1: "segments ''/channel-targets/l1'' = [[], ''channel-targets'', ''l1'']"
  by code_simp

lemma segments_pubkey: "segments ''/admin/signer/pubkey'' = [[], ''admin'', ''signer'', ''pubkey'']"
  by code_simp

lemma hub_route_l1:
  "hub_route C (post_request url (JsonL1 q)) ''/channel-targets/l1'' = Inr (HubL1 (l1_request_of q))"
  by (simp add: hub_route_def segments_l1 Let_def for_method_def json_arg_def post_request_def map_ok_def)

lemma hub_route_pubkey: "hub_route C (get_request url []) ''/admin/signer/pubkey'' = Inr HubSignerPubkey"
  by (simp add: hub_route_def segments_pubkey Let_def for_method_def get_request_def)

lemma prefixed_chars:
  assumes "hash_api_ok H"
  shows "CHR ''?'' \<notin> set (to_prefixed H h)" "CHR ''/'' \<notin> set (to_prefixed H h)" "to_prefixed H h \<noteq> []"
proof -
  have "set (hex_encode H (ch_bytes h)) \<subseteq> set hex_digits"
    using assms by (simp add: hash_api_ok_def)
  moreover have "CHR ''?'' \<notin> set hex_digits" "CHR ''/'' \<notin> set hex_digits"
    by (simp_all add: hex_digits_def)
  ultimately show "CHR ''?'' \<notin> set (to_prefixed H h)" "CHR ''/'' \<notin> set (to_prefixed H h)" "to_prefixed H h \<noteq> []"
    by (auto simp: to_prefixed_def)
qed

lemma segments_leaf:
  assumes "CHR ''/'' \<notin> set a" "CHR ''?'' \<notin> set a" "CHR ''/'' \<notin> set x" "CHR ''?'' \<notin> set x"
  shows "segments (''/'' @ a @ ''/'' @ x) = [[], a, x]"
proof -
  have "path_only (''/'' @ a @ ''/'' @ x) = ''/'' @ a @ ''/'' @ x"
    unfolding path_only_def by (subst split_on_none) (use assms in simp_all)
  moreover have "split_on (CHR ''/'') (''/'' @ a @ ''/'' @ x) = [[], a, x]"
    using split_on_append [of "CHR ''/''" a x] split_on_none [OF assms(3)] assms(1) by simp
  ultimately show ?thesis
    by (simp add: segments_def)
qed

lemma segments_blob:
  assumes "hash_api_ok H"
  shows "segments (''/blobs/'' @ to_prefixed H h) = [[], ''blobs'', to_prefixed H h]"
  using segments_leaf [of "''blobs''" "to_prefixed H h"] prefixed_chars [OF assms, of h] by simp

lemma hub_route_blob:
  assumes "hash_api_ok H"
  shows "hub_route C (get_request url []) (''/blobs/'' @ to_prefixed H h) = Inr (HubBlob (to_prefixed H h))"
proof -
  have "segments (''/blobs/'' @ to_prefixed H h) = [[], ''blobs'', to_prefixed H h]"
    by (rule segments_blob [OF assms])
  then show ?thesis
    using prefixed_chars(3) [OF assms, of h] unfolding hub_route_def Let_def
    by (simp add: for_method_def get_request_def)
qed

lemma l1_http_answer:
  "tower_transport C Rn io clock st base other (post_request (base @ ''/channel-targets/l1'') (JsonL1 q)) =
     Inr (hub_response Rn (map_ok (\<lambda>a. case a of NoContent \<Rightarrow> AnsNoContent | L1Body b \<Rightarrow> AnsBytes b)
       (channel_target_l1 (hx_hash C) (hx_off C) (pg_index_api (hx_hash C)) (hx_from_value C) clock (hs_signer st)
         (hs_pool st) (hs_index st) (l1_request_of q))))"
  by (subst tower_transport_base [of _ base "''/channel-targets/l1''"])
    (simp_all add: post_request_def hub_http_def hub_route_l1 [unfolded post_request_def] hub_handle_def Let_def)

lemma blob_http_answer:
  "hash_api_ok (hx_hash C) \<Longrightarrow>
   tower_transport C Rn io clock st base other (get_request (base @ ''/blobs/'' @ to_prefixed (hx_hash C) h) []) =
     Inr (hub_response Rn (map_ok (\<lambda>b. AnsBytes (br_body b))
       (get_blob (hx_hash C) io (hs_blobs st) (to_prefixed (hx_hash C) h))))"
  by (subst tower_transport_base [of _ base "''/blobs/'' @ to_prefixed (hx_hash C) h"])
    (simp_all only: get_request_def hub_http_def hub_route_blob [unfolded get_request_def] hub_handle_def Let_def
      http_request.simps sum.case hub_request.case prod.case snd_conv)

lemma pubkey_http_answer:
  "tower_transport C Rn io clock st base other (get_request (base @ ''/admin/signer/pubkey'') []) =
     Inr (hub_response Rn (Inr (AnsBytes (snd (signer_pubkey (hx_off C) (hs_signer st))))))"
  by (subst tower_transport_base [of _ base "''/admin/signer/pubkey''"])
    (simp_all add: get_request_def hub_http_def hub_route_pubkey [unfolded get_request_def] hub_handle_def Let_def)

lemma l1_over_http:
  assumes "send_bytes (tower_transport C Rn io clock st base other) (post_request (base @ ''/channel-targets/l1'') (JsonL1 q)) = Inr b"
  shows "\<exists>resp. channel_target_l1 (hx_hash C) (hx_off C) (pg_index_api (hx_hash C)) (hx_from_value C) clock (hs_signer st)
      (hs_pool st) (hs_index st) (l1_request_of q) = Inr resp \<and> b = (case resp of NoContent \<Rightarrow> [] | L1Body x \<Rightarrow> x)"
proof -
  let ?l1 = "channel_target_l1 (hx_hash C) (hx_off C) (pg_index_api (hx_hash C)) (hx_from_value C) clock (hs_signer st)
      (hs_pool st) (hs_index st) (l1_request_of q)"
  let ?r = "map_ok (\<lambda>a. case a of NoContent \<Rightarrow> AnsNoContent | L1Body b \<Rightarrow> AnsBytes b) ?l1"
  have "tower_transport C Rn io clock st base other (post_request (base @ ''/channel-targets/l1'') (JsonL1 q)) =
      Inr (hub_response Rn ?r)"
    by (rule l1_http_answer)
  with assms have "\<not> (400 \<le> rs_status (hub_response Rn ?r) \<and> rs_status (hub_response Rn ?r) < 600)"
    and b: "b = rs_body (hub_response Rn ?r)"
    by (auto simp: send_bytes_Inr_iff)
  from hub_response_ok [OF this(1)] b obtain a where a: "?r = Inr a" "b = answer_body Rn a"
    by auto
  then obtain resp where "?l1 = Inr resp" "a = (case resp of NoContent \<Rightarrow> AnsNoContent | L1Body b \<Rightarrow> AnsBytes b)"
    by (auto simp: map_ok_def res_simps)
  with a(2) show ?thesis
    by (cases resp) auto
qed

lemma pubkey_over_http:
  assumes "sc_signer_pubkey (tower_transport C Rn io clock st base other) base = Inr b"
  shows "b = public_key_cbor (hx_off C) (hs_signer st)"
  using assms pubkey_http_answer [of C Rn io clock st base other]
  by (auto simp: sc_signer_pubkey_def send_bytes_Inr_iff hub_response_def signer_pubkey_def)

lemma blob_over_http:
  assumes H: "hash_api_ok (hx_hash C)" and h: "ch_ok h"
    and f: "fetch_ciphertext (hx_hash C) (tower_transport C Rn io clock st base other) base h = Inr b"
  shows "fs_files (hs_blobs st) (blob_path (hx_hash C) h) = Some b"
proof -
  let ?H = "hx_hash C"
  let ?r = "map_ok (\<lambda>b. AnsBytes (br_body b)) (get_blob ?H io (hs_blobs st) (to_prefixed ?H h))"
  have "tower_transport C Rn io clock st base other (get_request (base @ ''/blobs/'' @ to_prefixed ?H h) []) =
      Inr (hub_response Rn ?r)"
    by (rule blob_http_answer [OF H])
  with f have "\<not> (400 \<le> rs_status (hub_response Rn ?r) \<and> rs_status (hub_response Rn ?r) < 600)"
    and b: "b = rs_body (hub_response Rn ?r)"
    by (auto simp: fetch_ciphertext_def sc_get_blob_def send_opt_Inr_iff res_simps split: if_splits)
  from hub_response_ok [OF this(1)] b obtain a where a: "?r = Inr a" "b = answer_body Rn a"
    by auto
  then obtain resp where "get_blob ?H io (hs_blobs st) (to_prefixed ?H h) = Inr resp" "b = br_body resp"
    by (auto simp: map_ok_def res_simps)
  then show ?thesis
    using ch_from_str_prefixed [OF H h]
    by (auto simp: get_blob_def blobs_open_def Let_def res_simps split: if_splits option.splits)
qed

section \<open>What the engine is handed\<close>

text \<open>A payload for a desired part: the stored blob of the indexed artifact with that content, whose
  address is that of a ciphertext which the indexed key decrypts to that content.\<close>

definition payload_sound ::
    "('h, 's, 'z, 'k) hub_crates \<Rightarrow> 'k hub_state \<Rightarrow> Part \<Rightarrow> Payload \<Rightarrow> bool" where
  "payload_sound C st p pl \<longleftrightarrow>
     pl_uri pl = ''#'' @ p_id p \<and>
     (\<exists>entry ct content. pg_look (hx_hash C) (hs_index st) (p_content p) = Some entry \<and>
        fs_files (hs_blobs st) (blob_path (hx_hash C) (ae_outer entry)) = Some (pl_bytes pl) \<and>
        ContentHash_of (hx_hash C) ct = ContentHash_of (hx_hash C) (pl_bytes pl) \<and>
        decrypts_to (hx_aead C) (hx_zstd C) (ae_cek entry) (ae_nonce entry) ct content \<and>
        ContentHash_of (hx_hash C) content = p_content p)"

definition job_delivers ::
    "('h, 's, 'z, 'k) hub_crates \<Rightarrow> 'k hub_state \<Rightarrow> (ComponentEntry \<Rightarrow> string \<times> bytes \<Rightarrow> bool) \<Rightarrow> Tree \<Rightarrow> ComponentEntry
      \<Rightarrow> FlashJob \<Rightarrow> bool" where
  "job_delivers C st sealed observed pe j \<longleftrightarrow>
     job_component_id j = fst pe \<and> sealed pe (fst pe, job_envelope j) \<and>
     (if e_disabled (snd pe) then job_payloads j = []
      else job_payloads j = [] \<and> entity_agreed observed (fst pe) (snd pe) \<or>
           list_all2 (payload_sound C st) (e_parts (snd pe)) (job_payloads j))"

lemma payload_of_part:
  assumes H: "hash_api_ok (hx_hash C)" and ok: "tower_ok C st"
    and p: "part_push (pg_look (hx_hash C) (hs_index st)) p lp"
    and pl: "pushes (fetch_ciphertext (hx_hash C) (tower_transport C Rn io clock st base other) base) lp pl"
  shows "payload_sound C st p pl"
proof -
  obtain entry where look: "pg_look (hx_hash C) (hs_index st) (p_content p) = Some entry"
    and outer: "l1p_outer lp = ae_outer entry" "l1p_part lp = p_id p"
    using p by (auto simp: part_push_def)
  have uri: "pl_uri pl = ''#'' @ p_id p"
    and f: "fetch_ciphertext (hx_hash C) (tower_transport C Rn io clock st base other) base (ae_outer entry) = Inr (pl_bytes pl)"
    using pl outer by (simp_all add: pushes_def)
  have blob: "fs_files (hs_blobs st) (blob_path (hx_hash C) (ae_outer entry)) = Some (pl_bytes pl)"
    by (rule blob_over_http [OF H pg_look_outer_ok [OF look] f])
  have addr: "ContentHash_of (hx_hash C) (pl_bytes pl) = ae_outer entry"
    using ok blob by (simp add: tower_ok_def content_ok_def)
  obtain ct content where "ContentHash_of (hx_hash C) ct = ae_outer entry"
    "decrypts_to (hx_aead C) (hx_zstd C) (ae_cek entry) (ae_nonce entry) ct content"
    "ContentHash_of (hx_hash C) content = p_content p"
    using ok look unfolding tower_ok_def indexed_sound_def by blast
  with uri look blob addr show ?thesis
    unfolding payload_sound_def by auto
qed

lemma job_of_component:
  assumes H: "hash_api_ok (hx_hash C)" and ok: "tower_ok C st"
    and c: "component_push (pg_look (hx_hash C) (hs_index st)) sealed pe lc"
    and j: "job_of (fetch_ciphertext (hx_hash C) (tower_transport C Rn io clock st base other) base) observed lc j"
  shows "job_delivers C st sealed observed pe j"
proof (cases "e_disabled (snd pe)")
  case True
  then show ?thesis
    using c j by (auto simp: component_push_def job_of_def job_delivers_def split: if_splits)
next
  case False
  with c have name: "l1c_component lc = fst pe" and sealed: "sealed pe (fst pe, l1c_envelope lc)"
    and parts: "list_all2 (part_push (pg_look (hx_hash C) (hs_index st))) (e_parts (snd pe)) (l1c_parts lc)"
    by (simp_all add: component_push_def)
  show ?thesis
  proof (cases "carries_all observed lc")
    case True
    then obtain oe where oe: "bt_get (entities observed) (fst pe) = Some oe"
      "\<forall>lp \<in> set (l1c_parts lc). \<exists>h. l1p_inner lp = Some h \<and> h \<in> p_content ` set (e_parts oe)"
      using name by (auto simp: carries_all_def)
    have "p_content p \<in> p_content ` set (e_parts oe)" if "p \<in> set (e_parts (snd pe))" for p
    proof -
      from list_all2_members(2) [OF parts that] obtain lp where
        lp: "lp \<in> set (l1c_parts lc)" "l1p_inner lp = Some (p_content p)"
        by (auto simp: part_push_def)
      from oe(2) lp(1) obtain h where "l1p_inner lp = Some h" "h \<in> p_content ` set (e_parts oe)"
        by blast
      with lp(2) show ?thesis by simp
    qed
    then have "entity_agreed observed (fst pe) (snd pe)"
      using oe(1) by (auto simp: entity_agreed_iff)
    then show ?thesis
      using j True name sealed False by (simp add: job_of_def job_delivers_def)
  next
    case none: False
    have "list_all2 (pushes (fetch_ciphertext (hx_hash C) (tower_transport C Rn io clock st base other) base))
        (l1c_parts lc) (job_payloads j)"
      using j none by (simp add: job_of_def)
    then have "list_all2 (payload_sound C st) (e_parts (snd pe)) (job_payloads j)"
      by (rule list_all2_compose [OF parts]) (rule payload_of_part [OF H ok])
    then show ?thesis
      using j name sealed False by (simp add: job_of_def job_delivers_def)
  qed
qed

definition push_selector :: "ChannelTarget \<Rightarrow> string \<Rightarrow> string \<Rightarrow> TargetSelector" where
  "push_selector target device architecture =
     \<lparr>ts_channel = (if tgt_vehicle_release_id target = None then Some (tgt_channel target) else None),
      ts_device = Some device, ts_architecture = Some architecture,
      ts_vehicle_release_id = tgt_vehicle_release_id target,
      ts_tree_hash = (if tgt_vehicle_release_id target = None then None else tgt_tree_hash target)\<rparr>"

text \<open>The request the orchestrator sends for a target.\<close>

definition push_request :: "ChannelTarget \<Rightarrow> string \<Rightarrow> string \<Rightarrow> string \<Rightarrow> string \<Rightarrow> string \<Rightarrow> L1Req" where
  "push_request target device architecture pubkey device_id cur =
     \<lparr>l1q_channel = ts_channel (push_selector target device architecture),
      l1q_vehicle_release_id = tgt_vehicle_release_id target,
      l1q_tree_hash = ts_tree_hash (push_selector target device architecture), l1q_device = device,
      l1q_architecture = architecture, l1q_device_pubkey = pubkey, l1q_device_id = device_id,
      l1q_current_state = Some cur, l1q_seq = 1\<rparr>"

lemma hub_l1_request:
  "hub_l1 T base target device architecture pubkey device_id cur =
     map_err ClientE (send_bytes T (post_request (base @ ''/channel-targets/l1'')
       (JsonL1 (push_request target device architecture pubkey device_id cur))))"
  by (simp add: hub_l1_def push_request_def push_selector_def sc_vehicle_release_l1_def sc_channel_target_l1_def
      split: option.split)

lemma push_request_fields:
  "l1_selector_of (l1_request_of (push_request target device architecture pubkey device_id cur)) =
     push_selector target device architecture"
  "l1_current_state (l1_request_of (push_request target device architecture pubkey device_id cur)) = Some cur"
  "l1_device_pubkey (l1_request_of (push_request target device architecture pubkey device_id cur)) = pubkey"
  "l1_vehicle_release_id (l1_request_of (push_request target device architecture pubkey device_id cur)) =
     tgt_vehicle_release_id target"
  "l1_device (l1_request_of (push_request target device architecture pubkey device_id cur)) = device"
  "l1_architecture (l1_request_of (push_request target device architecture pubkey device_id cur)) = architecture"
  by (simp_all add: l1_request_of_def push_request_def l1_selector_of_def push_selector_def)

lemma hub_l1_over_http:
  assumes "hub_l1 (tower_transport C Rn io clock st base other) base target device architecture pubkey device_id cur = Inr b"
  shows "\<exists>resp. channel_target_l1 (hx_hash C) (hx_off C) (pg_index_api (hx_hash C)) (hx_from_value C) clock
      (hs_signer st) (hs_pool st) (hs_index st) (l1_request_of (push_request target device architecture pubkey device_id cur)) =
        Inr resp \<and> b = (case resp of NoContent \<Rightarrow> [] | L1Body x \<Rightarrow> x)"
  using assms by (intro l1_over_http) (simp add: hub_l1_request map_err_Inr_iff)

lemma l1_flash_plan_cases:
  assumes "l1_flash_plan H R S T J rig_url hub_url ca_url target device_id allow insecure pem = Inr (jobs, anchor, observed)"
  shows "\<exists>cur pubkey device architecture l1. tree_to_value R observed = Inr cur \<and>
    l1_selector target = Inr (device, architecture) \<and>
    device_pubkey T J ca_url device_id = Inr pubkey \<and>
    hub_l1 T (TowerClient_new hub_url) target device architecture pubkey device_id cur = Inr l1 \<and>
    (if l1 = [] then jobs = []
     else \<exists>cs. fanout_l1 H S l1 = Inr cs \<and>
        l1_jobs (fetch_ciphertext H T (TowerClient_new hub_url)) cs observed allow [] = Inr jobs \<and>
        sc_signer_pubkey T (TowerClient_new hub_url) = Inr anchor)"
  using assms
  by (cases "read_rig_state H R rig_url insecure pem")
    (auto simp: l1_flash_plan_def Let_def res_simps split: if_splits)

definition allowed :: "string list option \<Rightarrow> string \<Rightarrow> bool" where
  "allowed allow path \<longleftrightarrow> (\<forall>a. allow = Some a \<longrightarrow> path \<in> set a)"

lemma jobs_of_components:
  assumes H: "hash_api_ok (hx_hash C)" and ok: "tower_ok C st"
    and jobs: "l1_jobs (fetch_ciphertext (hx_hash C) (tower_transport C Rn io clock st base other) base) cs observed allow [] = Inr jobs"
    and cs1: "\<forall>lc \<in> set cs. \<exists>pe \<in> set pes. component_push (pg_look (hx_hash C) (hs_index st)) sealed pe lc"
    and cs2: "\<forall>pe \<in> set pes. \<exists>lc \<in> set cs. component_push (pg_look (hx_hash C) (hs_index st)) sealed pe lc"
  shows "\<forall>j \<in> set jobs. \<exists>pe \<in> set pes. job_delivers C st sealed observed pe j"
    and "\<forall>pe \<in> set pes. allowed allow (fst pe) \<and> bt_get (entities observed) (fst pe) \<noteq> None \<longrightarrow>
      (\<exists>j \<in> set jobs. job_delivers C st sealed observed pe j)"
proof -
  let ?f = "fetch_ciphertext (hx_hash C) (tower_transport C Rn io clock st base other) base"
  have tr: "traverse (l1_job ?f observed) (filter (job_selected observed allow) cs) = Inr jobs"
    using jobs by (auto simp: l1_jobs_closed res_simps)
  have "\<exists>pe \<in> set pes. job_delivers C st sealed observed pe j" if j: "j \<in> set jobs" for j
  proof -
    from traverse_members(1) [OF tr j] obtain lc where lc: "lc \<in> set cs" "l1_job ?f observed lc = Inr j"
      by auto
    with cs1 obtain pe where "pe \<in> set pes" "component_push (pg_look (hx_hash C) (hs_index st)) sealed pe lc"
      by blast
    then show ?thesis
      using job_of_component [OF H ok _ l1_job_ok [OF lc(2)]] by blast
  qed
  then show "\<forall>j \<in> set jobs. \<exists>pe \<in> set pes. job_delivers C st sealed observed pe j" ..
  have "\<exists>j \<in> set jobs. job_delivers C st sealed observed pe j"
    if pe: "pe \<in> set pes" "allowed allow (fst pe)" "bt_get (entities observed) (fst pe) \<noteq> None" for pe
  proof -
    from cs2 pe(1) obtain lc where lc: "lc \<in> set cs" "component_push (pg_look (hx_hash C) (hs_index st)) sealed pe lc"
      by blast
    then have "lc \<in> set (filter (job_selected observed allow) cs)"
      using pe by (simp add: job_selected_def component_push_def allowed_def)
    from traverse_members(2) [OF tr this] obtain j where "j \<in> set jobs" "l1_job ?f observed lc = Inr j"
      by blast
    then show ?thesis
      using job_of_component [OF H ok lc(2) l1_job_ok] by blast
  qed
  then show "\<forall>pe \<in> set pes. allowed allow (fst pe) \<and> bt_get (entities observed) (fst pe) \<noteq> None \<longrightarrow>
      (\<exists>j \<in> set jobs. job_delivers C st sealed observed pe j)"
    by blast
qed

text \<open>What a push hands to the engine, against the desired tree: only jobs for components the tower
  sends, and a job for each of them that is selected and advertised.\<close>

definition l1_sent :: "Tree \<Rightarrow> string \<times> Entity \<Rightarrow> bool" where
  "l1_sent observed pe \<longleftrightarrow> l1_included (Some observed) pe \<or> l1_disabled (Some observed) pe"

definition push_sound ::
    "('h, 's, 'z, 'k) hub_crates \<Rightarrow> 'k hub_state \<Rightarrow> (ComponentEntry \<Rightarrow> string \<times> bytes \<Rightarrow> bool) \<Rightarrow> Tree \<Rightarrow> Tree \<Rightarrow> FlashJob list \<Rightarrow> bool" where
  "push_sound C st sealed observed tree jobs \<longleftrightarrow>
     (\<forall>j \<in> set jobs. \<exists>pe \<in> set (entities tree). l1_sent observed pe \<and> job_delivers C st sealed observed pe j)"

definition push_complete ::
    "('h, 's, 'z, 'k) hub_crates \<Rightarrow> 'k hub_state \<Rightarrow> (ComponentEntry \<Rightarrow> string \<times> bytes \<Rightarrow> bool) \<Rightarrow> Tree \<Rightarrow> Tree
      \<Rightarrow> string list option \<Rightarrow> FlashJob list \<Rightarrow> bool" where
  "push_complete C st sealed observed tree allow jobs \<longleftrightarrow>
     (\<forall>pe \<in> set (entities tree). l1_sent observed pe \<and> allowed allow (fst pe) \<and>
        bt_get (entities observed) (fst pe) \<noteq> None \<longrightarrow> (\<exists>j \<in> set jobs. job_delivers C st sealed observed pe j))"

text \<open>The envelope for a desired component that the tower signs for the device key \<open>dpk\<close>.\<close>

definition push_signed ::
    "('h, 's, 'z, 'k) hub_crates \<Rightarrow> i64 \<Rightarrow> 'k hub_state \<Rightarrow> bytes \<Rightarrow> L1Req \<Rightarrow> ComponentEntry \<Rightarrow> string \<times> bytes \<Rightarrow> bool" where
  "push_signed C clock st dpk q =
     signed_l2 (hx_hash C) (hx_off C) (pg_index_api (hx_hash C)) clock (hs_signer st) (hs_index st) dpk (l1_request_of q)"

definition target_matches :: "database \<Rightarrow> ChannelTarget \<Rightarrow> string \<Rightarrow> string \<Rightarrow> bool" where
  "target_matches d target device architecture \<longleftrightarrow>
     (case tgt_vehicle_release_id target of
        Some vid \<Rightarrow> release_matches_target d vid device architecture
      | None \<Rightarrow> True)"

text \<open>What stands behind a campaign received over HTTP.\<close>

lemma hub_l1_assembled:
  assumes "hub_l1 (tower_transport C Rn io clock st (TowerClient_new hub_url) other) (TowerClient_new hub_url) target
      device architecture pubkey device_id cur = Inr l1"
    and "l1 \<noteq> []" and "hx_from_value C cur = Some observed"
  shows "\<exists>d tree dpk. hs_pool st = Some d \<and> parse_device_pubkey (hx_hash C) (hx_off C) pubkey = Inr dpk \<and>
    target_matches d target device architecture \<and>
    resolve_target (hx_hash C) d (push_selector target device architecture) = Inr (Some tree) \<and>
    l1_assemble (hx_hash C) (hx_off C) (pg_index_api (hx_hash C)) clock (hs_signer st) (hs_index st) dpk
      (l1_request_of (push_request target device architecture pubkey device_id cur)) tree (Some observed) = Inr (L1Body l1)"
proof -
  let ?H = "hx_hash C"
  let ?req = "l1_request_of (push_request target device architecture pubkey device_id cur)"
  from hub_l1_over_http [OF assms(1)] obtain answer where
    answer: "channel_target_l1 ?H (hx_off C) (pg_index_api ?H) (hx_from_value C) clock
      (hs_signer st) (hs_pool st) (hs_index st) ?req = Inr answer" "l1 = (case answer of NoContent \<Rightarrow> [] | L1Body x \<Rightarrow> x)"
    by blast
  have "answer = L1Body l1"
    using answer(2) assms(2) by (cases answer) simp_all
  with answer(1) obtain d tree dpk where
    d: "hs_pool st = Some d" "parse_device_pubkey ?H (hx_off C) pubkey = Inr dpk"
    and chk: "l1_check_target (Some d) ?req = Inr ()"
    and tree: "resolve_target ?H d (push_selector target device architecture) = Inr (Some tree)"
      "l1_assemble ?H (hx_off C) (pg_index_api ?H) clock (hs_signer st) (hs_index st) dpk ?req tree (Some observed) =
      Inr (L1Body l1)"
    by (auto simp: channel_target_l1_def Let_def res_simps pool_def assms(3) push_request_fields)
  have "target_matches d target device architecture"
    using chk by (auto simp: target_matches_def l1_check_target_def push_request_fields pool_def split: option.splits if_splits)
  with d tree show ?thesis by blast
qed

lemma assembled_components:
  assumes "hash_api_ok (hx_hash C)" and "tower_ok C st" and "suit_laws (hx_off C) S"
    and tree: "resolve_target (hx_hash C) d sel = Inr (Some tree)"
    and asm: "l1_assemble (hx_hash C) (hx_off C) (pg_index_api (hx_hash C)) clock (hs_signer st) (hs_index st) dpk
      (l1_request_of q) tree (Some observed) = Inr (L1Body l1)"
    and cs: "fanout_l1 (hx_hash C) S l1 = Inr cs"
    and sent: "sent = filter (l1_included (Some observed)) (entities tree) @ filter (l1_disabled (Some observed)) (entities tree)"
  shows "\<forall>lc \<in> set cs. \<exists>pe \<in> set sent.
      component_push (pg_look (hx_hash C) (hs_index st)) (push_signed C clock st dpk q) pe lc"
    and "\<forall>pe \<in> set sent. \<exists>lc \<in> set cs.
      component_push (pg_look (hx_hash C) (hs_index st)) (push_signed C clock st dpk q) pe lc"
proof -
  from l1_assemble_ok [OF resolve_target_ok(1) [OF tree] asm partition_closed] obtain l2s where
    l2s: "distinct (map fst l2s)" "list_all2 (push_signed C clock st dpk q) sent l2s"
      "campaign_build (hx_off C) (signing_now clock) (l1_seq (l1_request_of q)) l2s (signer_key (hs_signer st)) = Inr l1"
    unfolding sent push_signed_def by auto
  have wf: "pg_wf (hx_hash C) (hs_index st)"
    using assms(2) by (simp add: tower_ok_def)
  have hashes: "\<forall>pe \<in> set sent. \<forall>p \<in> set (e_parts (snd pe)). ch_ok (p_content p)"
    using resolved_by_release [OF tree] resolved_parts_ok unfolding sent by fastforce
  note fan = fanout_l1_signed [OF assms(1,3) wf l2s(2) [unfolded push_signed_def] hashes l2s(1,3)]
  then show "\<forall>lc \<in> set cs. \<exists>pe \<in> set sent.
      component_push (pg_look (hx_hash C) (hs_index st)) (push_signed C clock st dpk q) pe lc"
    and "\<forall>pe \<in> set sent. \<exists>lc \<in> set cs.
      component_push (pg_look (hx_hash C) (hs_index st)) (push_signed C clock st dpk q) pe lc"
    using cs unfolding push_signed_def by auto
qed

lemma push_plan_facts:
  assumes "hash_api_ok (hx_hash C)" and "tower_ok C st" and "suit_laws (hx_off C) S"
    and "\<forall>t s. tree_to_value R t = Inr s \<longrightarrow> hx_from_value C s = Some t"
    and "l1_flash_plan (hx_hash C) R S (tower_transport C Rn io clock st (TowerClient_new hub_url) other) J rig_url hub_url
      ca_url target device_id allow insecure pem = Inr (jobs, anchor, observed)"
    and "jobs \<noteq> []"
  shows "\<exists>d tree device architecture pubkey dpk cur. hs_pool st = Some d \<and>
    tgt_device target = Some device \<and> tgt_architecture target = Some architecture \<and>
    resolve_target (hx_hash C) d (push_selector target device architecture) = Inr (Some tree) \<and>
    anchor = public_key_cbor (hx_off C) (hs_signer st) \<and>
    push_sound C st (push_signed C clock st dpk (push_request target device architecture pubkey device_id cur)) observed tree jobs \<and>
    push_complete C st (push_signed C clock st dpk (push_request target device architecture pubkey device_id cur)) observed tree allow jobs \<and>
    tree_to_value R observed = Inr cur \<and>
    device_pubkey (tower_transport C Rn io clock st (TowerClient_new hub_url) other) J ca_url device_id = Inr pubkey \<and>
    parse_device_pubkey (hx_hash C) (hx_off C) pubkey = Inr dpk \<and>
    target_matches d target device architecture"
proof -
  let ?H = "hx_hash C"
  let ?base = "TowerClient_new hub_url"
  let ?T = "tower_transport C Rn io clock st ?base other"
  from l1_flash_plan_cases [OF assms(5)] assms(6) obtain cur pubkey device architecture l1 cs where
    cur: "tree_to_value R observed = Inr cur" and sel: "l1_selector target = Inr (device, architecture)"
    and pubkey: "device_pubkey ?T J ca_url device_id = Inr pubkey"
    and l1: "hub_l1 ?T ?base target device architecture pubkey device_id cur = Inr l1" "l1 \<noteq> []"
    and cs: "fanout_l1 ?H S l1 = Inr cs"
    and jobs: "l1_jobs (fetch_ciphertext ?H ?T ?base) cs observed allow [] = Inr jobs"
    and anchor: "sc_signer_pubkey ?T ?base = Inr anchor"
    by (auto split: if_splits)
  let ?req = "l1_request_of (push_request target device architecture pubkey device_id cur)"
  have "hx_from_value C cur = Some observed"
    using cur assms(4) by simp
  from hub_l1_assembled [OF l1 this] obtain d tree dpk where
    d: "hs_pool st = Some d" and dpk: "parse_device_pubkey ?H (hx_off C) pubkey = Inr dpk"
    and target: "target_matches d target device architecture"
    and tree: "resolve_target ?H d (push_selector target device architecture) = Inr (Some tree)"
    and asm: "l1_assemble ?H (hx_off C) (pg_index_api ?H) clock (hs_signer st) (hs_index st) dpk ?req tree (Some observed) =
      Inr (L1Body l1)"
    by blast
  let ?sealed = "push_signed C clock st dpk (push_request target device architecture pubkey device_id cur)"
  note delivered = jobs_of_components [OF assms(1,2) jobs assembled_components [OF assms(1-3) tree asm cs refl]]
  have "tgt_device target = Some device" "tgt_architecture target = Some architecture"
    using sel by (auto simp: l1_selector_def split: option.splits)
  moreover have "push_sound C st ?sealed observed tree jobs"
    using delivered(1) by (fastforce simp: push_sound_def l1_sent_def)
  moreover have "push_complete C st ?sealed observed tree allow jobs"
    using delivered(2) by (fastforce simp: push_complete_def l1_sent_def)
  ultimately show ?thesis
    using d dpk target tree cur pubkey pubkey_over_http [OF anchor] by blast
qed

end
