(* ===== verification/Push_Example.thy ===== *)
theory Push_Example
  imports Push_Tower
begin

text \<open>
  A concrete push, for witnesses: a tower with one artifact, released as the kernel of one component
  for one target, and a rig that advertises the component without a manifest. Tower 1 is
  whatever answers the remaining requests.
\<close>

section \<open>An example push\<close>

lemma suit_reference_laws: "suit_laws suit_offboard suit_decoder"
proof -
  have deps: "dec_list dec_dep (enc_list enc_dep l2s @ k) = (map (\<lambda>d. (''#'' @ fst d, snd d)) l2s, k)" for l2s k
    by (rule dec_enc_list) (rule dec_enc_dep)
  have specs: "dec_list dec_spec (enc_list enc_spec sps @ k) = (map spec_component sps, k)" for sps k
    by (rule dec_enc_list) (simp add: dec_enc_spec spec_component_def)
  show ?thesis
    unfolding suit_laws_def
    by (auto simp: suit_offboard_def suit_decoder_def deps specs case_prod_unfold split: if_splits)
qed

text \<open>A tower with one artifact, released as the kernel of \<open>vm1\<close> for one target; and a rig
  that advertises \<open>vm1\<close> without a manifest.\<close>

definition ex_push_observed :: Tree where
  "ex_push_observed = \<lparr>entities = [(''vm1'', Entity_default)]\<rparr>"


definition ex_push_ct :: bytes where
  "ex_push_ct = map (\<lambda>b. b + 7) [0x28, 0xB5, 0x2F, 0xFD, 1, 2, 3] @ replicate 16 0"

definition ex_push_inner :: ContentHash where
  "ex_push_inner = ContentHash_of ref_hash [1, 2, 3]"

definition ex_push_outer :: ContentHash where
  "ex_push_outer = ContentHash_of ref_hash ex_push_ct"

definition ex_push_after :: Tree where
  "ex_push_after = \<lparr>entities = [(''vm1'', Entity_default\<lparr>e_version := Some ''img 1'',
     e_parts := [\<lparr>p_kind = ''file'', p_id = ''kernel'', p_content = ex_push_inner\<rparr>]\<rparr>)]\<rparr>"

definition ex_push_crates :: "(bytes, u8, bytes, bytes) hub_crates" where
  "ex_push_crates = ex_hub\<lparr>hx_off := suit_offboard,
     hx_from_value := (\<lambda>s. if s = ''t'' then Some ex_push_observed else if s = ''u'' then Some ex_push_after else None)\<rparr>"

definition ex_push_row :: pg_artifact where
  "ex_push_row = \<lparr>row_outer_hash = to_prefixed ref_hash ex_push_outer, row_cek = replicate 16 7,
     row_nonce = replicate 12 9, row_size = 3\<rparr>"

definition ex_push_db :: database where
  "ex_push_db = ex_l1_db\<lparr>
     db_parts := [\<lparr>pr_release_id = 1, pr_part_id = ''kernel'', pr_part_kind = ''file'',
       pr_content_hash = to_prefixed ref_hash ex_push_inner\<rparr>],
     db_component_seq := 2, db_vehicle_seq := 6\<rparr>"

definition ex_push_state :: "bytes hub_state" where
  "ex_push_state = \<lparr>hs_blobs = ex_fs\<lparr>fs_files := [blob_path ref_hash ex_push_outer \<mapsto> ex_push_ct]\<rparr>,
     hs_index = \<lparr>pg_rows = [to_prefixed ref_hash ex_push_inner \<mapsto> ex_push_row], pg_down = False\<rparr>,
     hs_pool = Some ex_push_db, hs_signer = \<lparr>signer_key = [77]\<rparr>\<rparr>"

definition ex_push_rig :: rig_api where
  "ex_push_rig = (ex_rig_api ''b1'')\<lparr>
     sovd_list_components := (\<lambda>_. Inr [\<lparr>sovc_id = ''vm1'', sovc_type = None\<rparr>]),
     sovd_read_data := (\<lambda>_ _ _. Inl (ServerError 404 [])),
     tree_to_value := (\<lambda>t. if t = ex_push_observed then Inr ''t'' else Inl ''e'')\<rparr>"

definition ex_push_json :: json_api where
  "ex_push_json = ex_json\<lparr>de_device := (\<lambda>_. Inr \<lparr>d_id = ''vin'', d_model = None, d_status = ''enrolled'',
     d_pubkey = Some ''0a'', d_ecu_id = None\<rparr>)\<rparr>"

definition ex_push_target :: ChannelTarget where
  "ex_push_target = ChannelTarget_pinned 5 None ''cvc'' ''arm64''"

definition ex_render :: hub_render where
  "ex_render = \<lparr>rn_version = (\<lambda>_ _. []), rn_artifact_ref = (\<lambda>_. []), rn_release_ref = (\<lambda>_. []), rn_components = (\<lambda>_. []),
     rn_vehicles = (\<lambda>_. []), rn_channels = (\<lambda>_. []), rn_channel_ref = (\<lambda>_. []), rn_channel = (\<lambda>_. []), rn_tree = (\<lambda>_. [])\<rparr>"

definition ex_push_transport :: "transport \<Rightarrow> transport" where
  "ex_push_transport other = tower_transport ex_push_crates ex_render (\<lambda>_. False) 9 ex_push_state ''http://hub'' other"

definition ex_tower1 :: transport where
  "ex_tower1 _ = Inr \<lparr>rs_status = 200, rs_body = []\<rparr>"

definition ex_push_tree :: Tree where
  "ex_push_tree = \<lparr>entities = [(''vm1'', \<lparr>e_kind = ''vm'', e_version = Some ''1'', e_update_mode = None,
     e_parts = [\<lparr>p_kind = ''file'', p_id = ''kernel'', p_content = ex_push_inner\<rparr>], e_disabled = False,
     e_admin_disabled = None\<rparr>)]\<rparr>"

lemma ex_push_crates_simps [simp]:
  "hx_hash ex_push_crates = ref_hash" "hx_off ex_push_crates = suit_offboard" "hx_aead ex_push_crates = ref_aead"
  "hx_zstd ex_push_crates = ref_zstd"
  by (simp_all add: ex_push_crates_def ex_hub_def)

lemma ex_push_hashes: "ch_ok ex_push_inner" "ch_ok ex_push_outer"
  using ContentHash_of_ok [OF ref_hash_ok] by (simp_all add: ex_push_inner_def ex_push_outer_def)

lemma ex_push_look:
  "pg_look ref_hash (hs_index ex_push_state) k =
     (if k = ex_push_inner then Some \<lparr>ae_inner = ex_push_inner, ae_outer = ex_push_outer, ae_cek = replicate 16 7,
        ae_nonce = replicate 12 9, ae_size = 3\<rparr> else None)"
  using to_prefixed_inj [OF ref_hash_ok] ch_from_str_prefixed [OF ref_hash_ok ex_push_hashes(2)]
  by (simp add: pg_look_def ex_push_state_def pg_entry_def ex_push_row_def)

lemma ex_push_decrypts: "decrypts_to ref_aead ref_zstd (replicate 16 7) (replicate 12 9) ex_push_ct [1, 2, 3]"
proof -
  have "Option.bind (aead_decrypt ref_aead (replicate 16 7) (replicate 12 9) ex_push_ct) (zstd_decode ref_zstd) = Some [1, 2, 3]"
    by code_simp
  then show ?thesis
    by (auto simp: decrypts_to_def bind_eq_Some_conv)
qed

lemma ex_push_state_ok: "tower_ok ex_push_crates ex_push_state"
proof -
  have wf: "pg_wf ref_hash (hs_index ex_push_state)"
    using ch_from_str_prefixed [OF ref_hash_ok ex_push_hashes(2)]
    by (simp add: pg_wf_def pg_row_ok_def ex_push_state_def ex_push_row_def ran_def CEK_LEN_def NONCE_LEN_def)
  have "content_ok ref_hash (pg_look ref_hash (hs_index ex_push_state)) (hs_blobs ex_push_state)"
    unfolding content_ok_def ex_push_look
    using blob_path_inj [OF ref_hash_ok]
    by (auto simp: ex_push_state_def ex_push_outer_def split: if_splits)
  moreover have "indexed_sound ref_hash ref_aead ref_zstd (pg_look ref_hash (hs_index ex_push_state))"
    unfolding indexed_sound_def ex_push_look
    using ex_push_decrypts by (auto simp: ex_push_outer_def ex_push_inner_def split: if_splits)
  moreover have "db_wf ex_push_db"
    by (simp add: db_wf_def table_wf_defs ex_push_db_def ex_l1_db_def ex_db_def part_key_def member_key_def
        component_ident_def vehicle_ident_def)
  ultimately show ?thesis
    using wf by (simp add: tower_ok_def) (simp add: ex_push_state_def)
qed

definition ex_push_spec :: ComponentSpec where
  "ex_push_spec = \<lparr>cs_id = [''vm1'', ''kernel''], cs_digest = ch_bytes ex_push_inner, cs_size = 3,
     cs_uri = to_prefixed ref_hash ex_push_outer,
     cs_encryption_info = Some (replicate 16 7 @ replicate 12 9 @ [10] @ as_bytes ''vin'')\<rparr>"

definition ex_push_l2 :: bytes where
  "ex_push_l2 = 2 # enc_list enc_spec [ex_push_spec] @ [77]"

definition ex_push_l1 :: bytes where
  "ex_push_l1 = 1 # enc_list enc_dep [(''vm1'', ex_push_l2)] @ [77]"

lemma ex_push_fanout:
  "fanout_l1 ref_hash suit_decoder ex_push_l1 = Inr [\<lparr>l1c_component = ''vm1'', l1c_envelope = ex_push_l2,
     l1c_parts = [\<lparr>l1p_part = ''kernel'', l1p_outer = ex_push_outer, l1p_inner = Some ex_push_inner\<rparr>]\<rparr>]"
proof -
  have l1: "decode_envelope suit_decoder ex_push_l1 = Inr \<lparr>su_payloads = [(''#vm1'', ex_push_l2)], su_disable_target = None,
      su_has_firmware = False, su_components = []\<rparr>"
    using dec_enc_list [of dec_dep enc_dep, OF dec_enc_dep, of "[(''vm1'', ex_push_l2)]" "[77]"]
    by (simp add: suit_decoder_def ex_push_l1_def bt_collect_def)
  have l2: "decode_envelope suit_decoder ex_push_l2 = Inr \<lparr>su_payloads = [], su_disable_target = None,
      su_has_firmware = True, su_components = [\<lparr>su_id = Some [as_bytes ''vm1'', as_bytes ''kernel''],
        su_uri = Some (to_prefixed ref_hash ex_push_outer), su_digest = Some (ch_bytes ex_push_inner)\<rparr>]\<rparr>"
    using dec_enc_list [of dec_spec enc_spec, OF dec_enc_spec, of "[ex_push_spec]" "[77]"]
    by (simp add: suit_decoder_def ex_push_l2_def ex_push_spec_def)
  have "ContentHash (ch_bytes h) = h" for h
    by (cases h) simp
  moreover have "from_utf8_lossy suit_decoder (as_bytes ''kernel'') = ''kernel''"
    by (simp add: suit_decoder_def)
  ultimately show ?thesis
    using ch_from_str_prefixed [OF ref_hash_ok ex_push_hashes(2)] ex_push_hashes(1)
    by (simp add: fanout_l1_def l1 fanout_component_def l2 fanout_part_def strip_prefix_def)
      (simp add: ch_ok_def ch_from_bytes_def)
qed

lemma ex_push_fetch:
  "fetch_ciphertext ref_hash (ex_push_transport other) ''http://hub'' ex_push_outer = Inr ex_push_ct"
proof -
  have "get_blob ref_hash (\<lambda>_. False) (hs_blobs ex_push_state) (to_prefixed ref_hash ex_push_outer) = Inr r \<Longrightarrow> br_body r = ex_push_ct"
    for r using ch_from_str_prefixed [OF ref_hash_ok ex_push_hashes(2)]
    by (auto simp: get_blob_def blobs_open_def Let_def res_simps ex_push_state_def split: if_splits option.splits)
  moreover have "\<exists>r. get_blob ref_hash (\<lambda>_. False) (hs_blobs ex_push_state) (to_prefixed ref_hash ex_push_outer) = Inr r"
    using ch_from_str_prefixed [OF ref_hash_ok ex_push_hashes(2)]
    by (simp add: get_blob_def blobs_open_def Let_def res_simps ex_push_state_def ex_fs_def)
  ultimately obtain r where r: "get_blob ref_hash (\<lambda>_. False) (hs_blobs ex_push_state) (to_prefixed ref_hash ex_push_outer) = Inr r"
    "br_body r = ex_push_ct" by blast
  have "ex_push_transport other (get_request (''http://hub'' @ ''/blobs/'' @ to_prefixed ref_hash ex_push_outer) []) =
    Inr \<lparr>rs_status = 200, rs_body = ex_push_ct\<rparr>"
    using blob_http_answer [of ex_push_crates ex_render "\<lambda>_. False" 9 ex_push_state "''http://hub''"] ref_hash_ok r
    by (simp add: ex_push_transport_def hub_response_def map_ok_def)
  then show ?thesis
    by (simp add: fetch_ciphertext_def sc_get_blob_def send_opt_def send_def error_for_status_def)
qed

lemma ex_push_rig_reads:
  "read_rig_state ref_hash ex_push_rig ''http://rig'' False None = Inr ex_push_observed"
  "tree_to_value ex_push_rig ex_push_observed = Inr ''t''"
  "l1_selector ex_push_target = Inr (''cvc'', ''arm64'')"
  by code_simp+

lemma ex_push_signer: "sc_signer_pubkey (ex_push_transport other) ''http://hub'' = Inr [77]"
  unfolding sc_signer_pubkey_def ex_push_transport_def send_bytes_def send_def pubkey_http_answer
  by (simp add: hub_response_def error_for_status_def signer_pubkey_def public_key_cbor_def)
    (simp add: suit_offboard_def ex_push_state_def)

lemma ex_push_tree_resolved:
  "resolve_target ref_hash ex_push_db (push_selector ex_push_target ''cvc'' ''arm64'') = Inr (Some ex_push_tree)"
  by code_simp

lemma ex_push_target_simps:
  "tgt_vehicle_release_id ex_push_target = Some 5" "tgt_device ex_push_target = Some ''cvc''"
  "tgt_architecture ex_push_target = Some ''arm64''"
  by (simp_all add: ex_push_target_def ChannelTarget_pinned_def)

lemma ex_push_pool: "hs_pool ex_push_state = Some ex_push_db" "signer_key (hs_signer ex_push_state) = [77]"
  by (simp_all add: ex_push_state_def)

lemma ex_push_matches: "release_matches_target ex_push_db 5 ''cvc'' ''arm64''"
  by code_simp

text \<open>The example's format leaves the wrapped keys out, so the campaign is the same for every device.\<close>

lemma ex_push_hub_l1:
  assumes "parse_device_pubkey ref_hash suit_offboard pubkey = Inr dpk"
  shows "hub_l1 (ex_push_transport other) ''http://hub'' ex_push_target ''cvc'' ''arm64'' pubkey device_id ''t'' = Inr ex_push_l1"
proof -
  let ?req = "l1_request_of (push_request ex_push_target ''cvc'' ''arm64'' pubkey device_id ''t'')"
  have pe: "partition_l1_components ex_push_tree (Some ex_push_observed) = (entities ex_push_tree, [], [])"
    by (simp add: partition_closed ex_push_tree_def l1_included_def l1_disabled_def l1_skipped_def carried_def
        entity_agreed_def ex_push_observed_def Entity_default_def)
  have ix: "index_get (pg_index_api ref_hash) (hs_index ex_push_state) ex_push_inner = Inr (Some \<lparr>ae_inner = ex_push_inner,
      ae_outer = ex_push_outer, ae_cek = replicate 16 7, ae_nonce = replicate 12 9, ae_size = 3\<rparr>)"
    using ex_push_state_ok ex_push_look [of ex_push_inner]
    by (simp add: tower_ok_def pg_index_api_def pg_get_look) (simp add: ex_push_state_def)
  have "l1_l2 ref_hash suit_offboard (pg_index_api ref_hash) 9 (hs_signer ex_push_state) (hs_index ex_push_state) dpk ?req
      (hd (entities ex_push_tree)) = Inr (''vm1'', ex_push_l2)"
    by (simp add: l1_l2_def ex_push_tree_def envelope_part_def ix build_envelope_def component_spec_def envelope_uri_def)
      (simp add: suit_offboard_def ex_push_l2_def ex_push_spec_def enc_list_def enc_spec_def ex_push_pool)
  then have "l1_assemble ref_hash suit_offboard (pg_index_api ref_hash) 9 (hs_signer ex_push_state) (hs_index ex_push_state) dpk
      ?req ex_push_tree (Some ex_push_observed) = Inr (L1Body ex_push_l1)"
    by (simp add: l1_assemble_def pe) (simp add: ex_push_tree_def build_campaign_def ex_push_pool suit_offboard_def ex_push_l1_def)
  then have "channel_target_l1 ref_hash suit_offboard (pg_index_api ref_hash) (hx_from_value ex_push_crates) 9
      (hs_signer ex_push_state) (hs_pool ex_push_state) (hs_index ex_push_state) ?req = Inr (L1Body ex_push_l1)"
    using assms ex_push_tree_resolved ex_push_matches
    by (simp add: channel_target_l1_def push_request_fields l1_check_target_def ex_push_target_simps ex_push_pool pool_def)
      (simp add: ex_push_crates_def)
  then show ?thesis
    unfolding hub_l1_request ex_push_transport_def send_bytes_def send_def l1_http_answer ex_push_crates_simps
    by (simp add: map_ok_def hub_response_def error_for_status_def)
qed

definition ex_push_job :: FlashJob where
  "ex_push_job = \<lparr>job_component_id = ''vm1'', job_gateway_id = None, job_envelope = ex_push_l2,
     job_payloads = [\<lparr>pl_uri = ''#kernel'', pl_bytes = ex_push_ct\<rparr>]\<rparr>"

lemma ex_push_base: "TowerClient_new ''http://hub'' = ''http://hub''"
  by code_simp

lemma ex_push_plan:
  assumes "device_pubkey (ex_push_transport other) J ca_url device_id = Inr pubkey"
    and "parse_device_pubkey ref_hash suit_offboard pubkey = Inr dpk"
  shows "l1_flash_plan (hx_hash ex_push_crates) ex_push_rig suit_decoder
      (tower_transport ex_push_crates ex_render (\<lambda>_. False) 9 ex_push_state (TowerClient_new ''http://hub'') other) J
      ''http://rig'' ''http://hub'' ca_url ex_push_target device_id None False None =
    Inr ([ex_push_job], [77], ex_push_observed)"
proof -
  have "ex_push_l1 \<noteq> []"
    by (simp add: ex_push_l1_def)
  then show ?thesis
    unfolding l1_flash_plan_def Let_def ex_push_base ex_push_crates_simps ex_push_transport_def [symmetric] ex_push_rig_reads
      assms(1) map_err_simps try_bind_simps prod.case ex_push_hub_l1 [OF assms(2)] ex_push_fanout ex_push_signer
    by (simp add: l1_job_def component_unchanged_def l1_payload_def ex_push_fetch ex_push_observed_def Entity_default_def
        bt_contains_key_def ex_push_job_def)
qed

lemma ex_push_pubkey:
  "device_pubkey (ex_push_transport ex_tower1) ex_push_json ''http://ca'' ''vin'' = Inr ''0a''"
  "parse_device_pubkey ref_hash suit_offboard ''0a'' = Inr [10]"
  by code_simp+

lemma ex_push_laws:
  "hash_api_ok (hx_hash ex_push_crates)" "suit_laws (hx_off ex_push_crates) suit_decoder"
  "\<forall>t s. tree_to_value ex_push_rig t = Inr s \<longrightarrow> hx_from_value ex_push_crates s = Some t"
  using ref_hash_ok suit_reference_laws by (simp_all add: ex_push_rig_def) (simp add: ex_push_crates_def)

end
