(* ===== verification/Push_Props.thy ===== *)
theory Push_Props
  imports Push_Example
begin

text \<open>
  The orchestrator's push plan against the routes of the software tower: the values that cross the
  components are well formed, and the jobs deliver the desired release.
\<close>


text \<open>C1. The push end to end, from the tower's tables to the flash engine, over the tower's own routes: the
  plan is for the tree the target resolves to at the tower. Every job is for a component of that
  tree which the tower includes or disables for the state the rig reported, and carries the envelope the
  tower signs for that component and the device key Tower 1 answers; a disable carries no
  payload; an update carries either nothing, when the rig holds every desired content already,
  or, for each desired part in order, the stored blob, which has the address of a ciphertext that
  the artifact's key decrypts to exactly the desired content. Conversely every component that the
  tower includes or disables gets its job, if it is selected and the rig advertises it. The trust
  anchor is the tower's signing key.\<close>

theorem push_delivers_desired:
  assumes "hash_api_ok (hx_hash C)" and "tower_ok C st" and "suit_laws (hx_off C) S"
    and "\<forall>t s. tree_to_value R t = Inr s \<longrightarrow> hx_from_value C s = Some t"
    and "l1_flash_plan (hx_hash C) R S (tower_transport C Rn io clock st (TowerClient_new hub_url) other) J rig_url hub_url
      ca_url target device_id allow insecure pem = Inr (jobs, anchor, observed)"
    and "jobs \<noteq> []"
  shows "\<exists>d tree device architecture pubkey dpk cur. hs_pool st = Some d \<and>
    tgt_device target = Some device \<and> tgt_architecture target = Some architecture \<and>
    resolve_target (hx_hash C) d (push_selector target device architecture) = Inr (Some tree) \<and>
    anchor = public_key_cbor (hx_off C) (hs_signer st) \<and>
    device_pubkey (tower_transport C Rn io clock st (TowerClient_new hub_url) other) J ca_url device_id = Inr pubkey \<and>
    parse_device_pubkey (hx_hash C) (hx_off C) pubkey = Inr dpk \<and> tree_to_value R observed = Inr cur \<and>
    push_sound C st (push_signed C clock st dpk (push_request target device architecture pubkey device_id cur)) observed tree jobs \<and>
    push_complete C st (push_signed C clock st dpk (push_request target device architecture pubkey device_id cur)) observed tree allow jobs"
  using push_plan_facts [OF assms] by blast

section \<open>Witnesses\<close>


theorem push_delivers_desired_witness:
  "\<exists>sealed. push_sound ex_push_crates ex_push_state sealed ex_push_observed ex_push_tree [ex_push_job] \<and>
     sealed (''vm1'', snd (hd (entities ex_push_tree))) (''vm1'', ex_push_l2)"
proof -
  from push_delivers_desired [OF ex_push_laws(1) ex_push_state_ok ex_push_laws(2,3) ex_push_plan [OF ex_push_pubkey] list.distinct(2)]
  obtain d tree device architecture sealed where
    "hs_pool ex_push_state = Some d" "tgt_device ex_push_target = Some device" "tgt_architecture ex_push_target = Some architecture"
    "resolve_target ref_hash d (push_selector ex_push_target device architecture) = Inr (Some tree)"
    and jobs: "push_sound ex_push_crates ex_push_state sealed ex_push_observed tree [ex_push_job]"
    unfolding ex_push_crates_simps by blast
  then have "tree = ex_push_tree"
    using ex_push_tree_resolved by (simp add: ex_push_pool ex_push_target_simps)
  moreover have "sealed (''vm1'', snd (hd (entities ex_push_tree))) (''vm1'', ex_push_l2)"
    using jobs unfolding \<open>tree = ex_push_tree\<close>
    by (simp add: push_sound_def job_delivers_def ex_push_job_def) (simp add: ex_push_tree_def)
  ultimately show ?thesis
    using jobs by blast
qed

end
