(* ===== verification/Converge_Props.thy ===== *)
theory Converge_Props
  imports Push_Props
begin

text \<open>
  One push is enough. When the rig, after the jobs of a push, reports what they delivered, the next
  push for the same target finds nothing to send: Tower 2 answers 204, and neither a campaign nor a
  flash reaches the engine. The two pushes are composed over the tower's own routes.
\<close>

section \<open>A converged rig\<close>

lemma skipped_iff: "l1_skipped (Some observed) pe \<longleftrightarrow> \<not> l1_sent observed pe \<and> (e_disabled (snd pe) \<or> e_parts (snd pe) \<noteq> [])"
  by (auto simp: l1_skipped_def l1_sent_def l1_included_def l1_disabled_def)

lemma converged_assembly:
  assumes "\<forall>pe \<in> set (entities tree). \<not> l1_sent observed pe"
    and "\<exists>pe \<in> set (entities tree). e_disabled (snd pe) \<or> e_parts (snd pe) \<noteq> []"
  shows "l1_assemble H Off A clock s ix dpk req tree (Some observed) = Inr NoContent"
proof -
  have "filter (l1_included (Some observed)) (entities tree) = []" "filter (l1_disabled (Some observed)) (entities tree) = []"
    using assms(1) by (auto simp: filter_empty_conv l1_sent_def)
  moreover have "filter (l1_skipped (Some observed)) (entities tree) \<noteq> []"
    using assms by (auto simp: filter_empty_conv skipped_iff)
  ultimately show ?thesis
    by (simp add: l1_assemble_def partition_closed)
qed

lemma converged_l1_answer:
  assumes "hs_pool st = Some d" and "parse_device_pubkey (hx_hash C) (hx_off C) pubkey = Inr dpk"
    and "target_matches d target device architecture"
    and "resolve_target (hx_hash C) d (push_selector target device architecture) = Inr (Some tree)"
    and "hx_from_value C cur = Some observed"
    and "\<forall>pe \<in> set (entities tree). \<not> l1_sent observed pe"
    and "\<exists>pe \<in> set (entities tree). e_disabled (snd pe) \<or> e_parts (snd pe) \<noteq> []"
  shows "hub_l1 (tower_transport C Rn io clock st base other) base target device architecture pubkey device_id cur = Inr []"
proof -
  let ?req = "l1_request_of (push_request target device architecture pubkey device_id cur)"
  have "l1_check_target (Some d) ?req = Inr ()"
    using assms(3) by (auto simp: l1_check_target_def target_matches_def push_request_fields pool_def split: option.splits)
  then have "channel_target_l1 (hx_hash C) (hx_off C) (pg_index_api (hx_hash C)) (hx_from_value C) clock (hs_signer st)
      (hs_pool st) (hs_index st) ?req = Inr NoContent"
    using converged_assembly [OF assms(6,7)] assms(1,2,4,5)
    by (simp add: channel_target_l1_def push_request_fields pool_def)
  then show ?thesis
    by (simp add: hub_l1_request send_bytes_def send_def l1_http_answer map_ok_def hub_response_def error_for_status_def)
qed

lemma converged_plan:
  assumes "read_rig_state H R rig_url insecure pem = Inr observed" and "tree_to_value R observed = Inr cur"
    and "device_pubkey T J ca_url device_id = Inr pubkey"
    and "tgt_device target = Some device" and "tgt_architecture target = Some architecture"
    and "hub_l1 T (TowerClient_new hub_url) target device architecture pubkey device_id cur = Inr []"
  shows "l1_flash_plan H R S T J rig_url hub_url ca_url target device_id allow insecure pem = Inr ([], [], observed)"
  using assms by (simp add: l1_flash_plan_def l1_selector_def)

section \<open>The second push\<close>

text \<open>C3. One push converges. Suppose a push planned jobs for a target, every desired component is
  advertised, and the rig then reports what it was sent: each component a job delivered no longer
  needs to be sent, and none that did not need it before needs it now; and Tower 1 still has the
  same key for the device. Then the next push for that
  target, with whatever selection, plans no job at all, and a campaign without a selection
  ends well and does not touch the rig.\<close>

theorem second_push_is_noop:
  assumes "hash_api_ok (hx_hash C)" and "tower_ok C st" and "suit_laws (hx_off C) S"
    and "\<forall>t s. tree_to_value R t = Inr s \<longrightarrow> hx_from_value C s = Some t"
    and "\<forall>t s. tree_to_value R2 t = Inr s \<longrightarrow> hx_from_value C s = Some t"
    and "l1_flash_plan (hx_hash C) R S (tower_transport C Rn io clock st (TowerClient_new hub_url) other) J rig_url hub_url
      ca_url target device_id None insecure pem = Inr (jobs, anchor, observed)"
    and "jobs \<noteq> []"
    and "hs_pool st = Some d" and "tgt_device target = Some device" and "tgt_architecture target = Some architecture"
    and "resolve_target (hx_hash C) d (push_selector target device architecture) = Inr (Some tree)"
    and "\<forall>pe \<in> set (entities tree). bt_get (entities observed) (fst pe) \<noteq> None"
    and "read_rig_state (hx_hash C) R2 rig_url insecure pem = Inr observed2" and "tree_to_value R2 observed2 = Inr cur2"
    and "\<forall>pe \<in> set (entities tree). \<forall>j \<in> set jobs. (\<exists>sealed. job_delivers C st sealed observed pe j) \<longrightarrow>
      \<not> l1_sent observed2 pe"
    and "\<forall>pe \<in> set (entities tree). \<not> l1_sent observed pe \<longrightarrow> \<not> l1_sent observed2 pe"
    and "device_pubkey (tower_transport C Rn io clock2 st (TowerClient_new hub_url) other2) J ca_url device_id =
      device_pubkey (tower_transport C Rn io clock st (TowerClient_new hub_url) other) J ca_url device_id"
  shows "l1_flash_plan (hx_hash C) R2 S (tower_transport C Rn io clock2 st (TowerClient_new hub_url) other2) J rig_url hub_url
      ca_url target device_id allow insecure pem = Inr ([], [], observed2) \<and>
    campaign_execute (hx_hash C) R2 S (tower_transport C Rn io clock2 st (TowerClient_new hub_url) other2) J E rig_url hub_url
      ca_url target device_id no_commit tok insecure pem None w = (w, Inr [])"
proof -
  let ?T = "tower_transport C Rn io clock2 st (TowerClient_new hub_url) other2"
  from push_plan_facts [OF assms(1-4,6,7)] assms(8-11) obtain pubkey dpk sealed where
    sound: "push_sound C st sealed observed tree jobs" and complete: "push_complete C st sealed observed tree None jobs"
    and pk: "device_pubkey (tower_transport C Rn io clock st (TowerClient_new hub_url) other) J ca_url device_id = Inr pubkey"
      "parse_device_pubkey (hx_hash C) (hx_off C) pubkey = Inr dpk"
    and target: "target_matches d target device architecture"
    by auto
  have quiet: "\<forall>pe \<in> set (entities tree). \<not> l1_sent observed2 pe"
    using complete assms(12,15,16) by (fastforce simp: push_complete_def allowed_def)
  have "\<exists>pe \<in> set (entities tree). e_disabled (snd pe) \<or> e_parts (snd pe) \<noteq> []"
    using sound assms(7) by (cases jobs) (auto simp: push_sound_def l1_sent_def l1_included_def l1_disabled_def)
  then have l1: "hub_l1 ?T (TowerClient_new hub_url) target device architecture pubkey device_id cur2 = Inr []"
    using converged_l1_answer [OF assms(8) pk(2) target assms(11) _ quiet] assms(5,14) by blast
  have pubkey: "device_pubkey ?T J ca_url device_id = Inr pubkey"
    using pk(1) assms(17) by simp
  note plan = converged_plan [OF assms(13,14) pubkey assms(9,10) l1]
  then show ?thesis
    by (simp add: campaign_execute_def)
qed

section \<open>An example\<close>

text \<open>The rig of the example push once it runs the kernel it was sent.\<close>

definition ex_push_rig_after :: rig_api where
  "ex_push_rig_after = ex_push_rig\<lparr>
     sovd_read_data := (\<lambda>_ _ k. if k = INSTALLED_MANIFEST then Inr ''m'' else Inl (ServerError 404 [])),
     de_installed := (\<lambda>_. Inr \<lparr>im_name = ''img'', im_version = ''1'',
       im_files = [\<lparr>if_path = ''kernel'', if_sha256 = to_prefixed ref_hash ex_push_inner\<rparr>]\<rparr>),
     tree_to_value := (\<lambda>t. if t = ex_push_after then Inr ''u'' else Inl ''e'')\<rparr>"

lemma ex_push_after_reads:
  "read_rig_state ref_hash ex_push_rig_after ''http://rig'' False None = Inr ex_push_after"
  by code_simp

lemma ex_push_after_quiet: "\<forall>pe \<in> set (entities ex_push_tree). \<not> l1_sent ex_push_after pe"
  by (simp add: ex_push_tree_def ex_push_after_def l1_sent_def l1_included_def l1_disabled_def carried_def
      l1_observed_admin_def entity_agreed_def Entity_default_def)

theorem second_push_is_noop_witness:
  "l1_flash_plan ref_hash ex_push_rig_after suit_decoder (ex_push_transport ex_tower1) ex_push_json ''http://rig'' ''http://hub''
     ''http://ca'' ex_push_target ''vin'' None False None = Inr ([], [], ex_push_after)"
proof -
  have state: "\<forall>t s. tree_to_value ex_push_rig_after t = Inr s \<longrightarrow> hx_from_value ex_push_crates s = Some t"
    by (simp add: ex_push_rig_after_def ex_push_crates_def)
  have tree: "resolve_target (hx_hash ex_push_crates) ex_push_db (push_selector ex_push_target ''cvc'' ''arm64'') =
      Inr (Some ex_push_tree)"
    "\<forall>pe \<in> set (entities ex_push_tree). bt_get (entities ex_push_observed) (fst pe) \<noteq> None"
    using ex_push_tree_resolved by (simp_all add: ex_push_tree_def ex_push_observed_def)
  have after: "read_rig_state (hx_hash ex_push_crates) ex_push_rig_after ''http://rig'' False None = Inr ex_push_after"
    "tree_to_value ex_push_rig_after ex_push_after = Inr ''u''"
    using ex_push_after_reads by (simp_all add: ex_push_rig_after_def)
  have "l1_flash_plan (hx_hash ex_push_crates) ex_push_rig_after suit_decoder
      (tower_transport ex_push_crates ex_render (\<lambda>_. False) 9 ex_push_state (TowerClient_new ''http://hub'') ex_tower1)
      ex_push_json ''http://rig'' ''http://hub'' ''http://ca'' ex_push_target ''vin'' None False None =
    Inr ([], [], ex_push_after)"
    using ex_push_after_quiet
    by (intro second_push_is_noop [OF ex_push_laws(1) ex_push_state_ok ex_push_laws(2,3) state ex_push_plan [OF ex_push_pubkey]
        list.distinct(2) ex_push_pool(1) ex_push_target_simps(2,3) tree after, THEN conjunct1]) blast+
  then show ?thesis
    unfolding ex_push_base ex_push_transport_def ex_push_crates_simps .
qed

end
