(* ===== verification/Identity_Props.thy ===== *)
theory Identity_Props
  imports Roster Reference_Crates
begin

text \<open>
  Correctness of Tower 1: the roster keeps its integrity over any sequence of requests, a key
  or certificate is recorded only for a registered device that proved possession, the
  keystore is sealed for exactly the enrolled key, the anchors it carries stay apart, and the
  authorities survive a restart.
\<close>

section \<open>The roster\<close>

definition roster_wf :: "roster \<Rightarrow> bool" where
  "roster_wf ro \<longleftrightarrow>
     distinct (map dv_id (ro_devices ro)) \<and>
     (\<forall>r \<in> set (ro_devices ro). dv_status r = ''enrolled'' \<longrightarrow> dv_pubkey r \<noteq> None) \<and>
     dc_device_id ` set (ro_certs ro) \<subseteq> dv_id ` set (ro_devices ro) \<and>
     distinct (map (\<lambda>c. (dc_device_id c, dc_key_id c)) (ro_certs ro)) \<and>
     distinct (map dc_serial (ro_certs ro))"

lemma find_device_None: "find_device ro i = None \<longleftrightarrow> i \<notin> dv_id ` set (ro_devices ro)"
  by (auto simp: find_device_def find_None_iff)

lemma find_device_Some:
  assumes "distinct (map dv_id (ro_devices ro))"
  shows "find_device ro i = Some r \<longleftrightarrow> r \<in> set (ro_devices ro) \<and> dv_id r = i"
proof
  assume "find_device ro i = Some r"
  then show "r \<in> set (ro_devices ro) \<and> dv_id r = i"
    by (auto simp: find_device_def find_Some_iff)
next
  assume r: "r \<in> set (ro_devices ro) \<and> dv_id r = i"
  then obtain q where q: "find_device ro i = Some q"
    using find_device_None [of ro i] by (cases "find_device ro i") auto
  then have "q \<in> set (ro_devices ro) \<and> dv_id q = i"
    by (auto simp: find_device_def find_Some_iff)
  with r have "q = r"
    using assms by (auto simp: distinct_map dest: inj_onD)
  with q show "find_device ro i = Some r" by simp
qed

text \<open>Rewriting rows in place keeps the roster well-formed when ids stay and no key is dropped.\<close>

lemma rewrite_devices_wf:
  assumes "roster_wf ro"
    and "\<And>r. r \<in> set (ro_devices ro) \<Longrightarrow> dv_id (f r) = dv_id r"
    and "\<And>r. r \<in> set (ro_devices ro) \<Longrightarrow> dv_status (f r) = ''enrolled'' \<Longrightarrow> dv_pubkey (f r) \<noteq> None"
  shows "roster_wf (ro\<lparr>ro_devices := map f (ro_devices ro)\<rparr>)"
proof -
  have ids: "map dv_id (map f (ro_devices ro)) = map dv_id (ro_devices ro)"
    using assms(2) by simp
  then have img: "dv_id ` set (map f (ro_devices ro)) = dv_id ` set (ro_devices ro)"
    by (metis set_map)
  have "\<forall>r \<in> set (map f (ro_devices ro)). dv_status r = ''enrolled'' \<longrightarrow> dv_pubkey r \<noteq> None"
    unfolding set_map ball_simps using assms(3) by blast
  then show ?thesis
    using assms(1) ids img unfolding roster_wf_def by (simp del: map_map set_map not_None_eq)
qed

lemma upsert_device_wf:
  assumes "roster_wf ro" and "upsert_device ro req = (ro', row)"
  shows "roster_wf ro'"
proof (cases "find_device ro (rd_id req)")
  case None
  then have "ro' = ro\<lparr>ro_devices := ro_devices ro @ [row]\<rparr>" and "dv_id row = rd_id req" and "dv_status row = ''registered''"
    using assms(2) by (auto simp: upsert_device_def Let_def)
  moreover have "rd_id req \<notin> dv_id ` set (ro_devices ro)"
    using None by (simp add: find_device_None)
  ultimately show ?thesis
    using assms(1) by (simp add: roster_wf_def) blast
next
  case (Some old)
  have old: "old \<in> set (ro_devices ro)" "dv_id old = rd_id req"
    using Some assms(1) by (simp_all add: find_device_Some roster_wf_def)
  have "ro' = ro\<lparr>ro_devices := map (\<lambda>r. if dv_id r = rd_id req then
      old\<lparr>dv_model := coalesce (rd_model req) (dv_model old), dv_pubkey := coalesce (rd_pubkey req) (dv_pubkey old)\<rparr>
      else r) (ro_devices ro)\<rparr>"
    using Some assms(2) by (simp add: upsert_device_def Let_def)
  moreover have "dv_status r = ''enrolled'' \<Longrightarrow> dv_pubkey r \<noteq> None" if "r \<in> set (ro_devices ro)" for r
    using that assms(1) by (simp add: roster_wf_def)
  ultimately show ?thesis
    using old by (simp only:) (rule rewrite_devices_wf [OF assms(1)], auto simp: coalesce_def split: option.splits)
qed

lemma set_enrolled_wf:
  assumes "roster_wf ro" and "set_enrolled ro i pk = (ro', n)"
  shows "roster_wf ro'"
proof -
  have "ro' = ro\<lparr>ro_devices := map (\<lambda>r. if dv_id r = i then r\<lparr>dv_status := ''enrolled'', dv_pubkey := Some pk\<rparr>
      else r) (ro_devices ro)\<rparr>"
    using assms(2) by (simp add: set_enrolled_def)
  moreover have "dv_status r = ''enrolled'' \<Longrightarrow> dv_pubkey r \<noteq> None" if "r \<in> set (ro_devices ro)" for r
    using that assms(1) by (simp add: roster_wf_def)
  ultimately show ?thesis
    by (simp only:) (rule rewrite_devices_wf [OF assms(1)], auto)
qed

lemma replace_keeps_serials:
  assumes "distinct (map k xs)" and "distinct (map ser xs)"
    and ser: "\<And>x. x \<in> set xs \<Longrightarrow> ser x = ser c \<Longrightarrow> k x = k c"
  shows "distinct (map ser (map (\<lambda>x. if k x = k c then c else x) xs))"
proof -
  have "inj_on (\<lambda>x. ser (if k x = k c then c else x)) (set xs)"
  proof (rule inj_onI)
    fix a b
    assume a: "a \<in> set xs" and b: "b \<in> set xs"
      and eq: "ser (if k a = k c then c else a) = ser (if k b = k c then c else b)"
    have "k a = k b \<or> ser a = ser b"
      using eq ser [OF a] ser [OF b] by (simp split: if_splits)
    then show "a = b"
      using assms(1,2) a b by (auto simp: distinct_map dest: inj_onD)
  qed
  moreover have "distinct xs"
    using assms(2) by (simp add: distinct_map)
  ultimately show ?thesis
    by (simp add: distinct_map comp_def)
qed

lemma upsert_cert_wf:
  assumes "roster_wf ro" and "dc_device_id c \<in> dv_id ` set (ro_devices ro)" and "upsert_cert ro c = Inr ro'"
  shows "roster_wf ro' \<and> ro_devices ro' = ro_devices ro \<and> c \<in> set (ro_certs ro')"
proof -
  let ?k = "\<lambda>c. (dc_device_id c, dc_key_id c)"
  let ?f = "\<lambda>o'. if ?k o' = ?k c then c else o'"
  have mem: "(\<exists>o' \<in> set (ro_certs ro). ?k o' = ?k c) \<longleftrightarrow> ?k c \<in> ?k ` set (ro_certs ro)"
    by (metis (mono_tags, lifting) image_iff)
  have nodup: "\<not> (\<exists>o' \<in> set (ro_certs ro). dc_serial o' = dc_serial c \<and> ?k o' \<noteq> ?k c)"
    using assms(3) unfolding upsert_cert_def by (cases "\<exists>o' \<in> set (ro_certs ro). dc_serial o' = dc_serial c \<and> ?k o' \<noteq> ?k c") simp_all
  have ser: "?k o' = ?k c" if "o' \<in> set (ro_certs ro)" and "dc_serial o' = dc_serial c" for o'
    using nodup that by blast
  have ro': "ro' = ro\<lparr>ro_certs := if ?k c \<in> ?k ` set (ro_certs ro) then map ?f (ro_certs ro) else ro_certs ro @ [c]\<rparr>"
    using assms(3) unfolding upsert_cert_def if_not_P [OF nodup] mem by simp
  have dk: "distinct (map ?k (ro_certs ro))" and ds: "distinct (map dc_serial (ro_certs ro))"
    and sub: "dc_device_id ` set (ro_certs ro) \<subseteq> dv_id ` set (ro_devices ro)"
    using assms(1) by (simp_all add: roster_wf_def)
  show ?thesis
  proof (cases "?k c \<in> ?k ` set (ro_certs ro)")
    case False
    then have "dc_serial c \<notin> dc_serial ` set (ro_certs ro)"
      using ser by (metis (mono_tags, lifting) image_iff)
    with False assms(1,2) show ?thesis
      unfolding ro' roster_wf_def by simp
  next
    case True
    have keys: "map ?k (map ?f (ro_certs ro)) = map ?k (ro_certs ro)"
      by simp
    have d: "distinct (map dc_serial (map ?f (ro_certs ro)))"
      by (rule replace_keeps_serials [OF dk ds ser])
    have s: "dc_device_id ` set (map ?f (ro_certs ro)) \<subseteq> dv_id ` set (ro_devices ro)"
      using sub assms(2) by auto
    from True obtain q where "q \<in> set (ro_certs ro)" and "?k q = ?k c" by auto
    then have "c = ?f q" and "q \<in> set (ro_certs ro)" by simp_all
    then have "c \<in> ?f ` set (ro_certs ro)" by (rule image_eqI)
    then have "c \<in> set (map ?f (ro_certs ro))" by (simp only: set_map)
    with True d s keys dk assms(1) show ?thesis
      unfolding ro' roster_wf_def by (simp del: map_map)
  qed
qed

section \<open>Histories of the roster\<close>

inductive roster_step ::
    "'h hash_api \<Rightarrow> 'k3 offboard_api \<Rightarrow> ('k, 'c, 'r) x509_api \<Rightarrow> 'k3 keystore_api \<Rightarrow> (bytes \<Rightarrow> bytes option)
      \<Rightarrow> ('k, 'c) identity_state \<Rightarrow> ('k, 'c) identity_state \<Rightarrow> bool"
  for H Off X K spki_of where
  register: "register_device H Off K spki_of s req = (s', r) \<Longrightarrow> roster_step H Off X K spki_of s s'"
| enroll: "enroll_device H X K d s i key_id body = (s', e) \<Longrightarrow> roster_step H Off X K spki_of s s'"

definition row_grows :: "device_row \<Rightarrow> device_row \<Rightarrow> bool" where
  "row_grows r r' \<longleftrightarrow> dv_id r' = dv_id r \<and>
     (dv_status r = ''enrolled'' \<longrightarrow> dv_status r' = ''enrolled'') \<and> (dv_pubkey r \<noteq> None \<longrightarrow> dv_pubkey r' \<noteq> None)"

definition keeps_devices :: "roster \<Rightarrow> roster \<Rightarrow> bool" where
  "keeps_devices ro ro' \<longleftrightarrow> (\<forall>r \<in> set (ro_devices ro). \<exists>r' \<in> set (ro_devices ro'). row_grows r r')"

lemma row_grows_refl [simp]: "row_grows r r"
  by (simp add: row_grows_def)

lemma row_grows_trans: "row_grows a b \<Longrightarrow> row_grows b c \<Longrightarrow> row_grows a c"
  by (simp add: row_grows_def)

lemma keeps_devices_refl [simp]: "keeps_devices ro ro"
  unfolding keeps_devices_def by (blast intro: row_grows_refl)

lemma keeps_devices_trans: "keeps_devices a b \<Longrightarrow> keeps_devices b c \<Longrightarrow> keeps_devices a c"
  unfolding keeps_devices_def using row_grows_trans by blast

lemma keeps_devices_map:
  assumes "\<And>r. r \<in> set (ro_devices ro) \<Longrightarrow> row_grows r (f r)"
  shows "keeps_devices ro (ro\<lparr>ro_devices := map f (ro_devices ro)\<rparr>)"
  unfolding keeps_devices_def using assms by simp blast

lemma upsert_device_keeps:
  assumes "roster_wf ro" and "upsert_device ro req = (ro', row)"
  shows "keeps_devices ro ro'"
proof (cases "find_device ro (rd_id req)")
  case None
  then have "ro' = ro\<lparr>ro_devices := ro_devices ro @ [row]\<rparr>"
    using assms(2) by (auto simp: upsert_device_def Let_def)
  then show ?thesis by (simp add: keeps_devices_def) (blast intro: row_grows_refl)
next
  case (Some old)
  have uniq: "r = old" if "r \<in> set (ro_devices ro)" and "dv_id r = rd_id req" for r
    using Some that assms(1) find_device_Some [of ro "rd_id req" r] by (simp add: roster_wf_def)
  have ro': "ro' = ro\<lparr>ro_devices := map (\<lambda>r. if dv_id r = rd_id req then
      old\<lparr>dv_model := coalesce (rd_model req) (dv_model old), dv_pubkey := coalesce (rd_pubkey req) (dv_pubkey old)\<rparr>
      else r) (ro_devices ro)\<rparr>"
    using Some assms(2) by (simp add: upsert_device_def Let_def)
  show ?thesis
    unfolding ro' by (rule keeps_devices_map) (use uniq in \<open>auto simp: row_grows_def coalesce_def split: option.splits\<close>)
qed

lemma set_enrolled_keeps:
  assumes "set_enrolled ro i pk = (ro', n)"
  shows "keeps_devices ro ro'"
proof -
  have ro': "ro' = ro\<lparr>ro_devices := map (\<lambda>r. if dv_id r = i then r\<lparr>dv_status := ''enrolled'', dv_pubkey := Some pk\<rparr>
      else r) (ro_devices ro)\<rparr>"
    using assms by (simp add: set_enrolled_def)
  show ?thesis unfolding ro' by (rule keeps_devices_map) (simp add: row_grows_def)
qed

text \<open>What an enrolment request does to the roster, on every path.\<close>

lemma enroll_device_cases:
  assumes "enroll_device H X K d s i key_id body = (s', res)"
  shows "(\<exists>e. res = Inl e \<and> s' = s) \<or>
    (\<exists>pk n. key_id = ''device-decrypt'' \<and> csr_cose_hex H X K body = Inr pk \<and>
       set_enrolled (st_roster s) i pk = (st_roster s', n) \<and> s' = s\<lparr>st_roster := st_roster s'\<rparr> \<and>
       (if n = 0 then res = Inl (Answered IdNotFound)
        else \<exists>resp. res = Inr resp \<and> er_certificate_pem resp = None)) \<or>
    (\<exists>issued row. key_id \<noteq> ''device-decrypt'' \<and>
       issue_leaf H X d (identity_ca s) i body (if key_id = ''tls-identity'' then Mtls else ClientUsage) = Inr issued \<and>
       find_device (st_roster s) i \<noteq> None \<and> upsert_cert (st_roster s) row = Inr (st_roster s') \<and>
       s' = s\<lparr>st_roster := st_roster s'\<rparr> \<and> dc_device_id row = i \<and> dc_key_id row = key_id \<and>
       dc_cert_der row = iss_der issued \<and> dc_fingerprint row = iss_fingerprint issued \<and>
       (\<exists>resp. res = Inr resp \<and> er_certificate_pem resp = Some (iss_pem issued)))"
proof (cases "key_id = ''device-decrypt''")
  case True
  then have "enroll_decrypt H X K s i body = (s', res)"
    using assms by (simp add: enroll_device_def)
  with True show ?thesis
    by (cases "csr_cose_hex H X K body"; cases "set_enrolled (st_roster s) i (projr (csr_cose_hex H X K body))")
      (auto simp: enroll_decrypt_def split: if_splits)
next
  case False
  define u where "u = (if key_id = ''tls-identity'' then Mtls else ClientUsage)"
  have e: "enroll_leaf H X d s i key_id body = (s', res)"
    using False assms by (simp add: enroll_device_def)
  show ?thesis
  proof (cases "issue_leaf H X d (identity_ca s) i body u")
    case (Inl x)
    with e show ?thesis by (auto simp: enroll_leaf_def u_def)
  next
    case (Inr issued)
    let ?row = "\<lparr>dc_device_id = i, dc_key_id = key_id, dc_cert_der = iss_der issued,
                     dc_serial = iss_serial_hex issued, dc_not_after = iss_not_after issued,
                     dc_fingerprint = iss_fingerprint issued\<rparr>"
    show ?thesis
    proof (cases "find_device (st_roster s) i")
      case None
      with e Inr show ?thesis by (auto simp: enroll_leaf_def u_def)
    next
      case (Some old)
      show ?thesis
      proof (cases "upsert_cert (st_roster s) ?row")
        case (Inl x)
        with e Inr Some show ?thesis by (auto simp: enroll_leaf_def u_def [symmetric])
      next
        case ro: (Inr ro)
        from e Inr Some ro have s': "s' = s\<lparr>st_roster := ro\<rparr>"
          and r: "\<exists>resp. res = Inr resp \<and> er_certificate_pem resp = Some (iss_pem issued)"
          by (auto simp: enroll_leaf_def u_def [symmetric])
        have "upsert_cert (st_roster s) ?row = Inr (st_roster s')" and "s' = s\<lparr>st_roster := st_roster s'\<rparr>"
          using ro s' by simp_all
        with False Inr Some r show ?thesis
          unfolding u_def by (intro disjI2 exI [of _ issued] exI [of _ ?row]) simp
      qed
    qed
  qed
qed

lemma roster_step_ok:
  assumes "roster_step H Off X K spki_of s s'" and "roster_wf (st_roster s)"
  shows "roster_wf (st_roster s') \<and> keeps_devices (st_roster s) (st_roster s') \<and> s' = s\<lparr>st_roster := st_roster s'\<rparr>"
  using assms(1)
proof cases
  case (register req r)
  then obtain row where "upsert_device (st_roster s) req = (st_roster s', row)" and "s' = s\<lparr>st_roster := st_roster s'\<rparr>"
    by (cases "upsert_device (st_roster s) req") (auto simp: register_device_def)
  then show ?thesis
    using upsert_device_wf [OF assms(2)] upsert_device_keeps [OF assms(2)] by blast
next
  case (enroll d i key_id body e)
  from enroll_device_cases [OF enroll] show ?thesis
  proof (elim disjE exE conjE)
    fix x assume "s' = s"
    then show ?thesis using assms(2) by simp
  next
    fix pk n
    assume "set_enrolled (st_roster s) i pk = (st_roster s', n)" and "s' = s\<lparr>st_roster := st_roster s'\<rparr>"
    then show ?thesis
      using set_enrolled_wf [OF assms(2)] set_enrolled_keeps by blast
  next
    fix issued row
    assume u: "upsert_cert (st_roster s) row = Inr (st_roster s')" and s': "s' = s\<lparr>st_roster := st_roster s'\<rparr>"
      and "find_device (st_roster s) i \<noteq> None" and "dc_device_id row = i"
    then have "dc_device_id row \<in> dv_id ` set (ro_devices (st_roster s))"
      by (simp add: find_device_None)
    from upsert_cert_wf [OF assms(2) this u] s' show ?thesis
      by (simp add: keeps_devices_def) (blast intro: row_grows_refl)
  qed
qed

abbreviation roster_grows :: "('k, 'c) identity_state \<Rightarrow> ('k, 'c) identity_state \<Rightarrow> bool" where
  "roster_grows s s' \<equiv> keeps_devices (st_roster s) (st_roster s') \<and> s' = s\<lparr>st_roster := st_roster s'\<rparr>"

lemma roster_grows_trans: "roster_grows s t \<Longrightarrow> roster_grows t u \<Longrightarrow> roster_grows s u"
  by (cases s, cases t, cases u) (auto intro: keeps_devices_trans)

interpretation roster_run: growing_system "roster_step H Off X K spki_of" "\<lambda>s. roster_wf (st_roster s)" roster_grows
  for H Off X K spki_of
  by unfold_locales (blast dest: roster_step_ok, simp, rule roster_grows_trans)

section \<open>Properties\<close>


text \<open>A request whose signature proves that its sender holds the private key of the public key
  it names.\<close>

definition possessed :: "('k, 'c, 'r) x509_api \<Rightarrow> bytes \<Rightarrow> 'r \<Rightarrow> bool" where
  "possessed X body csr \<longleftrightarrow>
     (csr_from_der X body = Inr csr \<or> (\<exists>e. csr_from_der X body = Inl e) \<and> csr_from_pem X body = Inr csr) \<and>
     (\<exists>info spki vk s sig. csr_info_der X csr = Inr info \<and> spki_to_der X (csr_public_key X csr) = Inr spki \<and>
        vk_from_der X spki = Inr vk \<and> csr_signature X csr = Some s \<and> der_signature X s = Inr sig \<and>
        vk_verify X vk info sig)"

lemma parse_and_verify_possessed: "parse_and_verify_csr X body = Inr csr \<Longrightarrow> possessed X body csr"
  by (auto simp: parse_and_verify_csr_def possessed_def res_simps split: sum.splits if_splits)

lemma csr_cose_hex_ok:
  assumes "hash_api_ok H" and "csr_cose_hex H X K body = Inr pk"
  shows "\<exists>csr pt cose. possessed X body csr \<and> subject_public_key (csr_public_key X csr) = Some pt \<and>
    length pt = 65 \<and> sec1_to_cose K pt = Inr cose \<and> pk = hex_encode H cose"
proof -
  from assms(2) obtain hx v cose where v: "verify_csr_pubkey H X body = Inr hx" "hex_decode H hx = Some v" "length v = 65"
    and c: "sec1_to_cose K v = Inr cose" "pk = hex_encode H cose"
    by (auto simp: csr_cose_hex_def res_simps split: option.splits if_splits)
  from v(1) obtain csr pt where csr: "parse_and_verify_csr X body = Inr csr"
    and pt: "subject_public_key (csr_public_key X csr) = Some pt" "hx = hex_encode H pt"
    by (auto simp: verify_csr_pubkey_def res_simps)
  have "v = pt" using v(2) pt(2) hash_api_okD(3) [OF assms(1), of pt] by simp
  with v c pt parse_and_verify_possessed [OF csr] show ?thesis by blast
qed

text \<open>The leaf a slot gets: signed by the identity authority, for the proven key, named after the
  device, usable as server only in the \<open>tls-identity\<close> slot.\<close>

definition leaf_for :: "('k, 'c, 'r) x509_api \<Rightarrow> ('k, 'c) Ca \<Rightarrow> string \<Rightarrow> string \<Rightarrow> 'r \<Rightarrow> bytes \<Rightarrow> bool" where
  "leaf_for X ca i key_id csr der \<longleftrightarrow>
     (\<exists>t cert. builder_build X t (ca_signing_key ca) = Inr cert \<and> cert_to_der X cert = Inr der \<and>
        tbs_profile t = ProfileLeaf (ca_issuer ca) False False \<and> tbs_spki t = csr_public_key X csr \<and>
        name_from_str X (''CN='' @ i) = Inr (tbs_subject t) \<and>
        (if key_id = ''tls-identity'' then \<exists>a b. ia5_string X i = Inr a \<and> ia5_string X (i @ ''.local'') = Inr b \<and>
           tbs_exts t = [ExtendedKeyUsage [ID_KP_CLIENT_AUTH, ID_KP_SERVER_AUTH], SubjectAltName [a, b]]
         else tbs_exts t = [ExtendedKeyUsage [ID_KP_CLIENT_AUTH]]))"

lemma issue_leaf_ok:
  assumes "issue_leaf H X d ca i body (if key_id = ''tls-identity'' then Mtls else ClientUsage) = Inr issued"
  shows "\<exists>csr. possessed X body csr \<and> leaf_for X ca i key_id csr (iss_der issued)"
proof -
  from assms obtain csr subject t1 t2 cert serial validity where csr: "parse_and_verify_csr X body = Inr csr"
    and s: "name_from_str X (''CN='' @ i) = Inr subject"
    and t1: "add_extension X \<lparr>tbs_profile = ProfileLeaf (ca_issuer ca) False False, tbs_serial = serial,
              tbs_validity = validity, tbs_subject = subject, tbs_spki = csr_public_key X csr, tbs_exts = []\<rparr>
        (ExtendedKeyUsage (leaf_ekus (if key_id = ''tls-identity'' then Mtls else ClientUsage))) = Inr t1"
    and t2: "leaf_san X (if key_id = ''tls-identity'' then Mtls else ClientUsage) i t1 = Inr t2"
    and c: "builder_build X t2 (ca_signing_key ca) = Inr cert" "cert_to_der X cert = Inr (iss_der issued)"
    by (auto simp: issue_leaf_def Let_def res_simps)
  have "leaf_for X ca i key_id csr (iss_der issued)"
    unfolding leaf_for_def using s t1 t2
    by (intro exI [of _ t2] exI [of _ cert])
      (auto simp: c add_extension_def leaf_san_def leaf_ekus_def res_simps split: if_splits)
  with parse_and_verify_possessed [OF csr] show ?thesis by blast
qed

lemma set_enrolled_row:
  assumes "roster_wf ro" and "set_enrolled ro i pk = (ro', n)" and "n \<noteq> 0"
  shows "(\<exists>r. find_device ro i = Some r) \<and> ro_certs ro' = ro_certs ro \<and>
    (\<exists>r. find_device ro' i = Some r \<and> dv_pubkey r = Some pk \<and> dv_status r = ''enrolled'')"
proof -
  let ?f = "\<lambda>r. if dv_id r = i then r\<lparr>dv_status := ''enrolled'', dv_pubkey := Some pk\<rparr> else r"
  have ro': "ro' = ro\<lparr>ro_devices := map ?f (ro_devices ro)\<rparr>" and n: "n = length (filter (\<lambda>r. dv_id r = i) (ro_devices ro))"
    using assms(2) by (simp_all add: set_enrolled_def)
  from n assms(3) obtain r where r: "r \<in> set (ro_devices ro)" "dv_id r = i"
    by (auto simp: filter_empty_conv)
  have "?f r \<in> set (ro_devices ro')"
    unfolding ro' using r by auto
  moreover have "roster_wf ro'" by (rule set_enrolled_wf [OF assms(1,2)])
  ultimately have "find_device ro' i = Some (?f r)"
    using r(2) by (simp add: find_device_Some roster_wf_def)
  moreover have "find_device ro i = Some r"
    using r assms(1) by (simp add: find_device_Some roster_wf_def)
  ultimately show ?thesis
    using r(2) by (simp add: ro')
qed

lemma enrolled_row:
  assumes "hash_api_ok H" and "roster_wf (st_roster s)"
    and "enroll_device H X K d s i ''device-decrypt'' body = (s', Inr resp)"
  shows "\<exists>csr pt cose r. possessed X body csr \<and> subject_public_key (csr_public_key X csr) = Some pt \<and> length pt = 65 \<and>
    sec1_to_cose K pt = Inr cose \<and> find_device (st_roster s') i = Some r \<and> dv_pubkey r = Some (hex_encode H cose)"
proof -
  from enroll_device_cases [OF assms(3)] obtain pk n where cx: "csr_cose_hex H X K body = Inr pk"
    and u: "set_enrolled (st_roster s) i pk = (st_roster s', n)" and n: "n \<noteq> 0"
    by (auto split: if_splits)
  from set_enrolled_row [OF assms(2) u n] csr_cose_hex_ok [OF assms(1) cx] show ?thesis
    by blast
qed

text \<open>C10. Enrolment records something only for a registered device and only against a proof of
  possession: the decrypt slot gets exactly the proven point as its key and no certificate,
  any other slot gets a leaf of the identity authority for exactly the proven key; a refused
  request changes nothing.\<close>

theorem enroll_needs_possession:
  assumes "hash_api_ok H" and "roster_wf (st_roster s)"
    and "enroll_device H X K d s i key_id body = (s', res)"
  shows "case res of
      Inl e \<Rightarrow> st_roster s' = st_roster s
    | Inr resp \<Rightarrow> find_device (st_roster s) i \<noteq> None \<and> (\<exists>csr. possessed X body csr \<and>
        (if key_id = ''device-decrypt'' then
           \<exists>pt cose r. subject_public_key (csr_public_key X csr) = Some pt \<and> length pt = 65 \<and>
             sec1_to_cose K pt = Inr cose \<and> find_device (st_roster s') i = Some r \<and>
             dv_pubkey r = Some (hex_encode H cose) \<and> dv_status r = ''enrolled'' \<and>
             ro_certs (st_roster s') = ro_certs (st_roster s) \<and> er_certificate_pem resp = None
         else \<exists>c \<in> set (ro_certs (st_roster s')). dc_device_id c = i \<and> dc_key_id c = key_id \<and>
             leaf_for X (identity_ca s) i key_id csr (dc_cert_der c) \<and>
             ro_devices (st_roster s') = ro_devices (st_roster s)))"
  using enroll_device_cases [OF assms(3)]
proof (elim disjE exE conjE)
  fix e assume "res = Inl e" and "s' = s"
  then show ?thesis by simp
next
  fix pk n
  assume k: "key_id = ''device-decrypt''" and pk: "csr_cose_hex H X K body = Inr pk"
    and u: "set_enrolled (st_roster s) i pk = (st_roster s', n)"
    and r: "if n = 0 then res = Inl (Answered IdNotFound) else \<exists>resp. res = Inr resp \<and> er_certificate_pem resp = None"
  show ?thesis
  proof (cases "n = 0")
    case True
    then have "filter (\<lambda>r. dv_id r = i) (ro_devices (st_roster s)) = []"
      using u by (simp add: set_enrolled_def)
    then have "map (\<lambda>r. if dv_id r = i then r\<lparr>dv_status := ''enrolled'', dv_pubkey := Some pk\<rparr> else r)
        (ro_devices (st_roster s)) = ro_devices (st_roster s)"
      by (auto simp: filter_empty_conv intro!: map_idI)
    with u have "st_roster s' = st_roster s" by (simp add: set_enrolled_def)
    with True r show ?thesis by simp
  next
    case False
    with r k set_enrolled_row [OF assms(2) u False] csr_cose_hex_ok [OF assms(1) pk] show ?thesis
      by (auto; blast)
  qed
next
  fix issued row resp
  assume k: "key_id \<noteq> ''device-decrypt''"
    and iss: "issue_leaf H X d (identity_ca s) i body (if key_id = ''tls-identity'' then Mtls else ClientUsage) = Inr issued"
    and f: "find_device (st_roster s) i \<noteq> None" and u: "upsert_cert (st_roster s) row = Inr (st_roster s')"
    and row: "dc_device_id row = i" "dc_key_id row = key_id" "dc_cert_der row = iss_der issued"
    and r: "res = Inr resp"
  have "dc_device_id row \<in> dv_id ` set (ro_devices (st_roster s))"
    using f row(1) by (simp add: find_device_None)
  from upsert_cert_wf [OF assms(2) this u] have "row \<in> set (ro_certs (st_roster s'))"
    and "ro_devices (st_roster s') = ro_devices (st_roster s)" by simp_all
  moreover obtain csr where "possessed X body csr" and "leaf_for X (identity_ca s) i key_id csr (dc_cert_der row)"
    using issue_leaf_ok [OF iss] row(3) by auto
  ultimately have "\<exists>csr. possessed X body csr \<and> (\<exists>c \<in> set (ro_certs (st_roster s')). dc_device_id c = i \<and>
      dc_key_id c = key_id \<and> leaf_for X (identity_ca s) i key_id csr (dc_cert_der c) \<and>
      ro_devices (st_roster s') = ro_devices (st_roster s))"
    using row by metis
  with r f k show ?thesis by simp
qed

text \<open>The coset law: a point serialised as a COSE_Key imports as a key with these coordinates.\<close>

definition cose_ok :: "'k offboard_api \<Rightarrow> 'k keystore_api \<Rightarrow> bool" where
  "cose_ok Off K \<longleftrightarrow>
     (\<forall>x y cose. length x = 32 \<and> length y = 32 \<and> ec2_pub_key_to_vec K x y = Inr cose \<longrightarrow>
        (\<exists>k. from_cose_key_bytes Off cose = Inr k \<and> ec2_public_xy K k = Inr (x, y)))"

text \<open>A keystore image sealed for one recipient: encoded, compressed, encrypted for it alone and
  carried in the signed manifest whose digest is that of the encoded keystore.\<close>

definition sealed_for ::
    "'k keystore_api \<Rightarrow> 'role hsm_api \<Rightarrow> 'k \<Rightarrow> HsmKeystore \<Rightarrow> bytes \<Rightarrow> bool" where
  "sealed_for K M pk ks suit \<longleftrightarrow>
     (\<exists>cbor compressed eph enc m fk. payload_encode M ks = Inr cbor \<and> compress_firmware K cbor 3 = Inr compressed \<and>
        encrypt_firmware_ecdh K compressed eph
          [\<lparr>rc_public_key = pk, rc_kid = as_bytes (role_key_id M (DeviceDecryption M))\<rparr>] = Inr enc \<and>
        imf_payload_digest m = enc_sha256 K cbor \<and> imf_encryption_info m = enc_info_of enc \<and>
        imf_integrated_payload m = (''#hsm-keys'', enc_ciphertext_of enc) \<and> imf_payload_uri m = ''#hsm-keys'' \<and>
        imf_security_version m = hk_security_version ks \<and> imf_sequence_number m = hk_security_version ks \<and>
        image_build K m fk = Inr suit)"

lemma mint_keystore_sealed:
  assumes "mint_keystore Off K M clock dd sw ka ver leaf droot = Inr suit"
  shows "\<exists>pk sw1. from_cose_key_bytes Off dd = Inr pk \<and> cose_to_sec1 Off K sw = Inr sw1 \<and>
    sealed_for K M pk (assemble_keystore M sw1 ka ver leaf droot) suit"
proof -
  let ?m = "\<lambda>cbor enc. \<lparr>imf_signing_time = signing_now clock, imf_component_id = [''hsm'', ''keys''],
             imf_sequence_number = ver, imf_security_version = ver,
             imf_payload_digest = enc_sha256 K cbor, imf_payload_size = word_of_nat (length cbor),
             imf_payload_uri = ''#hsm-keys'', imf_encryption_info = enc_info_of enc,
             imf_integrated_payload = (''#hsm-keys'', enc_ciphertext_of enc),
             imf_text_version = nat_to_string (unat ver) @ ''.0.0'',
             imf_text_vendor_name = ''sumo-provision'', imf_text_model_name = ''HSM-Keys'',
             imf_text_description = ''HSM trust-anchor keystore''\<rparr>"
  from assms obtain sw1 cbor compressed pk eph enc fk where sw: "cose_to_sec1 Off K sw = Inr sw1"
    and c: "payload_encode M (assemble_keystore M sw1 ka ver leaf droot) = Inr cbor" "compress_firmware K cbor 3 = Inr compressed"
    and pk: "from_cose_key_bytes Off dd = Inr pk"
    and e: "encrypt_firmware_ecdh K compressed eph
          [\<lparr>rc_public_key = pk, rc_kid = as_bytes (role_key_id M (DeviceDecryption M))\<rparr>] = Inr enc"
    and b: "image_build K (?m cbor enc) fk = Inr suit"
    by (auto simp: mint_keystore_def Let_def res_simps)
  have "hk_security_version (assemble_keystore M sw1 ka ver leaf droot) = ver"
    by (simp add: assemble_keystore_def)
  with c e b have "sealed_for K M pk (assemble_keystore M sw1 ka ver leaf droot) suit"
    unfolding sealed_for_def
    by (intro exI [of _ cbor] exI [of _ compressed] exI [of _ eph] exI [of _ enc] exI [of _ "?m cbor enc"] exI [of _ fk]) simp
  with sw pk show ?thesis by blast
qed

lemma trim_hex:
  assumes "hash_api_ok H"
  shows "trim (hex_encode H b) = hex_encode H b"
proof (rule trim_no_ws)
  fix c
  assume "c \<in> set (hex_encode H b)"
  then have "c \<in> set hex_digits" using hash_api_okD(5) [OF assms, of b] by blast
  moreover have "\<forall>c \<in> set hex_digits. \<not> is_ws c" by code_simp
  ultimately show "\<not> is_ws c" by blast
qed


section \<open>The authorities\<close>

definition x509_ok :: "('k, 'c, 'r) x509_api \<Rightarrow> bool" where
  "x509_ok X \<longleftrightarrow>
     (\<forall>k b. key_to_pkcs8_der X k = Inr b \<longrightarrow> key_from_pkcs8_der X b = Inr k) \<and>
     (\<forall>c b. cert_to_der X c = Inr b \<longrightarrow> cert_from_der X b = Inr c) \<and>
     (\<forall>t k c. builder_build X t k = Inr c \<longrightarrow> tbs_subject (cert_tbs X c) = tbs_subject t)"

lemma ca_generate_issuer:
  assumes "x509_ok X" and "ca_generate X r dn = Inr ca"
  shows "ca_issuer ca = tbs_subject (cert_tbs X (ca_cert_of ca))"
  using assms by (auto simp: ca_generate_def Let_def res_simps x509_ok_def)

lemma ca_save_ok:
  assumes "ca_save X fault fs ca key cert = (fs', Inr ())" and "key \<noteq> cert"
  shows "\<exists>kb cb m. key_to_pkcs8_der X (ca_signing_key ca) = Inr kb \<and> cert_to_der X (ca_cert_of ca) = Inr cb \<and>
     fs' key = Some (kb, 384) \<and> fs' cert = Some (cb, m)"
proof -
  obtain kb where kb: "key_to_pkcs8_der X (ca_signing_key ca) = Inr kb"
    using assms(1) by (cases "key_to_pkcs8_der X (ca_signing_key ca)") (auto simp: ca_save_def split: option.splits)
  obtain fs1 where w: "ca_fs_write fault fs key kb = (fs1, Inr ())"
    using assms(1) kb by (cases "ca_fs_write fault fs key kb") (auto simp: ca_save_def split: option.splits sum.splits)
  obtain fs2 where m: "ca_fs_set_mode fault fs1 key 384 = (fs2, Inr ())"
    using assms(1) kb w by (cases "ca_fs_set_mode fault fs1 key 384") (auto simp: ca_save_def split: option.splits sum.splits)
  have c: "save_cert X fault fs2 ca cert = (fs', Inr ())"
    using assms(1) kb w m by (auto simp: ca_save_def split: option.splits)
  obtain cb where cb: "cert_to_der X (ca_cert_of ca) = Inr cb" and w2: "ca_fs_write fault fs2 cert cb = (fs', Inr ())"
    using c by (cases "cert_to_der X (ca_cert_of ca)") (auto simp: save_cert_def)
  have "fs2 key = Some (kb, 384)"
    using w m by (auto simp: ca_fs_write_def ca_fs_set_mode_def Let_def split: option.splits)
  then show ?thesis
    using kb cb w2 assms(2) by (auto simp: ca_fs_write_def Let_def split: option.splits)
qed

text \<open>C33. An authority survives restarts: whatever the first start answered, loaded or generated
  (with write faults survived or not occurring), the next start over the files it left loads
  the very same key, certificate and issuer and writes nothing; a generated key file is
  readable by its owner only.\<close>

theorem ca_restart_stable:
  assumes "x509_ok X" and "key \<noteq> cert" and "load_or_generate_ca X fault fs r key cert dn = (fs', Inr ca)"
    and "fault' (CaRead key) = None" and "fault' (CaRead cert) = None"
  shows "load_or_generate_ca X fault' fs' r' key cert dn' = (fs', Inr ca) \<and>
    (fs key = None \<or> fs cert = None \<longrightarrow> (\<exists>kb. fs' key = Some (kb, 384)))"
proof (cases "fs key \<noteq> None \<and> fs cert \<noteq> None")
  case True
  then have "load_or_generate_ca X fault fs r key cert dn = (fs, ca_load X fault fs key cert)"
    by (simp add: load_or_generate_ca_def)
  with assms(3) have ld: "ca_load X fault fs key cert = Inr ca" and fs: "fs' = fs"
    by auto
  have "ca_load X fault' fs key cert = Inr ca"
    using ld assms(4,5) by (auto simp: ca_load_def ca_fs_read_def res_simps split: option.splits)
  with True fs show ?thesis by (auto simp: load_or_generate_ca_def)
next
  case False
  obtain a where g: "ca_generate X r dn = Inr a"
    using assms(3) False by (cases "ca_generate X r dn") (auto simp: load_or_generate_ca_def)
  with assms(3) False have sv: "ca_save X fault fs ca key cert = (fs', Inr ())" and a: "a = ca"
    by (cases "ca_save X fault fs a key cert"; auto simp: load_or_generate_ca_def split: sum.splits)+
  from ca_save_ok [OF sv assms(2)] obtain kb cb m where k: "key_to_pkcs8_der X (ca_signing_key ca) = Inr kb"
    and c: "cert_to_der X (ca_cert_of ca) = Inr cb" and fk: "fs' key = Some (kb, 384)" and fc: "fs' cert = Some (cb, m)"
    by blast
  have "key_from_pkcs8_der X kb = Inr (ca_signing_key ca)" and "cert_from_der X cb = Inr (ca_cert_of ca)"
    using assms(1) k c by (auto simp: x509_ok_def)
  then have "ca_load X fault' fs' key cert = Inr ca"
    using ca_generate_issuer [OF assms(1)] g a fk fc assms(4,5) by (simp add: ca_load_def ca_fs_read_def)
  with fk fc show ?thesis by (simp add: load_or_generate_ca_def)
qed

definition be_value :: "bytes \<Rightarrow> nat" where
  "be_value bs = foldl (\<lambda>n b. 256 * n + unat b) 0 bs"

lemma serial_head: "unat ((w AND 0x7f :: u8) OR 1) \<in> {1..127}"
proof -
  have "unat (w AND 0x7f) = unat w AND 127"
    by (simp add: unsigned_and_eq)
  also have "\<dots> = take_bit 7 (unat w)"
    by (simp add: take_bit_eq_mask mask_eq_exp_minus_1)
  also have "\<dots> = unat w mod 128"
    by (simp add: take_bit_eq_mod)
  finally have "unat ((w AND 0x7f) OR 1) = unat w mod 128 OR 1"
    by (simp add: unsigned_or_eq)
  also have "\<dots> = unat w mod 128 + of_bool (even (unat w mod 128))"
    by (rule or_one_eq)
  finally have eq: "unat ((w AND 0x7f) OR 1) = unat w mod 128 + of_bool (even (unat w mod 128))" .
  have "m + of_bool (even m) \<in> {1..127}" if "m < 128" for m :: nat
  proof (cases "even m")
    case True
    then show ?thesis using that by (simp, presburger)
  next
    case False
    then have "m \<noteq> 0" by (intro notI) simp
    with False that show ?thesis by simp
  qed
  then show ?thesis unfolding eq by simp
qed

lemma be_value_bounds: "foldl (\<lambda>n b. 256 * n + unat b) n (bs :: bytes) \<in> {n * 256 ^ length bs ..< (n + 1) * 256 ^ length bs}"
proof (induction bs arbitrary: n)
  case (Cons b bs)
  have "256 * n + unat b + 1 \<le> 256 * (n + 1)"
    using unat_u8_less [of b] by simp
  then have "(256 * n + unat b + 1) * 256 ^ length bs \<le> 256 * (n + 1) * 256 ^ length bs"
    by (rule mult_le_mono1)
  then have hi: "(256 * n + unat b + 1) * 256 ^ length bs \<le> (n + 1) * 256 ^ length (b # bs)"
    by (simp only: length_Cons power_Suc ac_simps)
  have lo: "n * 256 ^ length (b # bs) \<le> (256 * n + unat b) * 256 ^ length bs"
    by (simp add: algebra_simps)
  from Cons [of "256 * n + unat b"] hi lo show ?case
    by (simp only: foldl_Cons atLeastLessThan_iff) linarith
qed simp

text \<open>C39. A serial number is as RFC 5280 wants it, for any twenty random bytes: twenty octets, a
  positive integer of at most 159 bits, whose DER form needs neither a sign octet nor can
  drop a leading zero octet.\<close>

theorem serial_bounds:
  assumes "length b = 20"
  shows "length (serial_bytes b) = 20 \<and> 1 \<le> unat (serial_bytes b ! 0) \<and> unat (serial_bytes b ! 0) \<le> 127 \<and>
    2 ^ 152 \<le> be_value (serial_bytes b) \<and> be_value (serial_bytes b) < 2 ^ 159 \<and> drop 1 (serial_bytes b) = drop 1 b"
proof -
  define h where "h = ((b ! 0 AND 0x7f) OR 0x01 :: u8)"
  obtain c cs where b: "b = c # cs" and cs: "length cs = 19"
    using assms by (cases b) auto
  have ser: "serial_bytes b = h # cs"
    by (simp add: serial_bytes_def h_def b)
  have h: "1 \<le> unat h" "unat h \<le> 127"
    using serial_head [of "b ! 0"] by (simp_all add: h_def)
  have v: "be_value (h # cs) \<in> {unat h * 256 ^ 19 ..< (unat h + 1) * 256 ^ 19}"
    using be_value_bounds [of "unat h" cs] cs by (simp add: be_value_def)
  have "(1::nat) * 256 ^ 19 \<le> unat h * 256 ^ 19" and "(unat h + 1) * 256 ^ 19 \<le> (128::nat) * 256 ^ 19"
    using h by simp_all
  with v have "2 ^ 152 \<le> be_value (h # cs)" and "be_value (h # cs) < 2 ^ 159"
    by simp_all
  with h cs show ?thesis unfolding ser by (simp add: b)
qed

theorem serial_bounds_witness: "be_value (serial_bytes (replicate 20 255)) < 2 ^ 159"
  using serial_bounds [of "replicate 20 255"] by simp

section \<open>An example tower\<close>

text \<open>Stand-ins for the crates: a certificate is its subject, a request is the point it names
  followed by a signature octet, a COSE_Key is the 64 octets of its coordinates.\<close>

definition ref_time :: datetime where
  "ref_time = \<lparr>dt_year = 2030, dt_month = 1, dt_day = 2, dt_hour = 3, dt_minutes = 4, dt_seconds = 5\<rparr>"

definition ref_x509 :: "(bytes, string, bytes) x509_api" where
  "ref_x509 =
     \<lparr>name_from_str = Inr, spki_from_key = (\<lambda>k. Inr \<lparr>spki_algorithm = [], subject_public_key = Some k\<rparr>),
      spki_to_der = (\<lambda>s. ok_or ''unaligned'' (subject_public_key s)), serial_new = Inr,
      validity_from_now = (\<lambda>_ _. Inr \<lparr>val_not_before = ref_time, val_not_after = ref_time\<rparr>),
      builder_new = (\<lambda>_ _. Inr ()), ext_check = (\<lambda>_ _. Inr ()), builder_build = (\<lambda>t _. Inr (tbs_subject t)),
      cert_tbs = (\<lambda>c. \<lparr>tbs_profile = ProfileRoot, tbs_serial = [],
         tbs_validity = \<lparr>val_not_before = ref_time, val_not_after = ref_time\<rparr>, tbs_subject = c,
         tbs_spki = \<lparr>spki_algorithm = [], subject_public_key = None\<rparr>, tbs_exts = []\<rparr>),
      cert_to_der = (\<lambda>c. Inr (as_bytes c)), cert_to_pem = Inr, cert_from_der = (\<lambda>b. Inr (bytes_text b)),
      key_to_pkcs8_der = Inr, key_to_pkcs8_pem = (\<lambda>k. Inr (bytes_text k)), key_from_pkcs8_der = Inr,
      ia5_string = Inr, utf8_string_der = (\<lambda>s. Inr (as_bytes s)),
      csr_from_der = (\<lambda>b. if b = [] then Inl ''empty'' else Inr b), csr_from_pem = (\<lambda>_. Inl ''not PEM''),
      csr_info_der = (\<lambda>r. Inr (butlast r)),
      csr_public_key = (\<lambda>r. \<lparr>spki_algorithm = [], subject_public_key = Some (butlast r)\<rparr>),
      csr_signature = (\<lambda>r. Some [last r]), vk_from_der = Inr, der_signature = Inr,
      vk_verify = (\<lambda>vk info sig. sig = [42])\<rparr>"

lemma ref_x509_ok: "x509_ok ref_x509"
  by (simp add: x509_ok_def ref_x509_def)

definition ref_offboard_keys :: "bytes offboard_api" where
  "ref_offboard_keys = \<lparr>generate_signing_key = Inr [1], from_cose_key_bytes = (\<lambda>b. if b = [] then Inl ''empty'' else Inr b),
     to_cose_key_bytes = (\<lambda>k. k), public_key_bytes = (\<lambda>k. k), rewrap_cek_ecdh = (\<lambda>cek iv rc. Inr cek),
     multi_build = (\<lambda>t q specs k. Inr k), campaign_build = (\<lambda>t q l2s k. Inr k), disable_build = (\<lambda>t q ids k. Inr k)\<rparr>"

definition ref_keystore :: "bytes keystore_api" where
  "ref_keystore =
     \<lparr>ec2_public_xy = (\<lambda>k. Inr (take 32 k, drop 32 k)), ec2_pub_key_to_vec = (\<lambda>x y. Inr (x @ y)),
      ec2_priv_key_to_vec = (\<lambda>x y d. Inr (x @ y @ d)), enc_sha256 = (\<lambda>b. take 32 b), compress_firmware = (\<lambda>b _. Inr b),
      generate_device_key = Inr [9],
      encrypt_firmware_ecdh = (\<lambda>b eph rs. Inr \<lparr>enc_info_of = concat (map rc_kid rs), enc_ciphertext_of = b\<rparr>),
      image_build = (\<lambda>m k. Inr (snd (imf_integrated_payload m) @ k))\<rparr>"

lemma ref_cose_ok: "cose_ok ref_offboard_keys ref_keystore"
  by (auto simp: cose_ok_def ref_offboard_keys_def ref_keystore_def)

definition ref_hsm :: "nat hsm_api" where
  "ref_hsm =
     \<lparr>mandatory_roles = [0, 1, 2, 3], is_device_generated = (\<lambda>r. 2 \<le> r), role_is_aes256 = (\<lambda>r. r = 3),
      role_key_id = (\<lambda>r. nat_to_string r), SoftwareAuthority = 0, FactoryResetIssuer = 1, TlsIdentity = 2,
      DeviceDecryption = 2, DELEGATION_ROOT_ANCHOR_ID = ''delegation'',
      FACTORY_SIGNING_PUBLIC = replicate 65 4, FACTORY_SIGNING_SCALAR = [1], KEY_TYPE_AES_256 = 1, KEY_TYPE_EC_P256 = 2,
      OP_DECRYPT = 1, OP_ENCRYPT = 2, OP_GET_PUBKEY = 3, OP_SIGN = 4, OP_VERIFY = 5, SCHEMA_VERSION = 3,
      payload_encode = (\<lambda>k. Inr (concat (map tac_certificate (hk_trust_anchors k))))\<rparr>"

definition ex_ca :: "(bytes, string) Ca" where
  "ex_ca = \<lparr>ca_signing_key = replicate 65 7, ca_cert_of = ''CN=r'', ca_issuer = ''CN=r''\<rparr>"

definition ex_tower :: "(bytes, string) identity_state" where
  "ex_tower = \<lparr>st_roster = \<lparr>ro_devices = [\<lparr>dv_id = ''d1'', dv_model = None, dv_status = ''registered'', dv_pubkey = None\<rparr>],
       ro_certs = []\<rparr>,
     key_authority_ca = ex_ca, identity_ca = ex_ca, delegation_ca = ex_ca\<rparr>"

definition ex_draw :: "bytes draw" where
  "ex_draw = \<lparr>dr_key = [5], dr_serial = replicate 20 255, dr_now = 1\<rparr>"

definition ex_csr :: bytes where
  "ex_csr = 4 # replicate 64 6 @ [42]"

definition ex_enrolled :: "(bytes, string) identity_state" where
  "ex_enrolled = ex_tower\<lparr>st_roster := \<lparr>ro_devices = [\<lparr>dv_id = ''d1'', dv_model = None, dv_status = ''enrolled'',
     dv_pubkey = Some (ref_hex_encode (replicate 64 6))\<rparr>], ro_certs = []\<rparr>\<rparr>"

lemma ex_tower_wf: "roster_wf (st_roster ex_tower)"
  by (simp add: roster_wf_def ex_tower_def)

lemma ex_enroll:
  "enroll_device ref_hash ref_x509 ref_keystore ex_draw ex_tower ''d1'' ''device-decrypt'' ex_csr =
     (ex_enrolled, Inr \<lparr>er_id = ''d1'', er_key_id = ''device-decrypt'', er_certificate_pem = None, er_serial = None,
        er_not_after = None, er_fingerprint = None\<rparr>)"
  by code_simp


theorem enroll_needs_possession_witness:
  "\<exists>csr. possessed ref_x509 ex_csr csr \<and> subject_public_key (csr_public_key ref_x509 csr) = Some (butlast ex_csr)"
proof -
  from enroll_needs_possession [OF ref_hash_ok ex_tower_wf ex_enroll]
  obtain csr where "possessed ref_x509 ex_csr csr" by auto
  moreover from this have "csr = ex_csr"
    by (simp add: possessed_def ref_x509_def split: if_splits)
  ultimately show ?thesis by (auto simp: ref_x509_def)
qed

lemma ex_mint:
  "mint_keystore_endpoint ref_hash ref_x509 ref_offboard_keys ref_keystore ref_hsm 9 ex_enrolled ''d1''
     \<lparr>mk_sw_authority_pubkey = ''0a'', mk_security_version = 1\<rparr> =
   Inr (as_bytes ''CN=r'' @ replicate 64 4 @ [1])"
  by code_simp


lemma ex_first_start:
  "\<exists>fs' ca. load_or_generate_ca ref_x509 (\<lambda>_. None) (\<lambda>_. None) ex_draw ''k'' ''c'' ''CN=r'' = (fs', Inr ca)"
  by (simp add: load_or_generate_ca_def ca_generate_def ca_save_def ca_fs_write_def ca_fs_set_mode_def save_cert_def
      random_serial_def ref_x509_def Let_def)

theorem ca_restart_stable_witness:
  "\<exists>fs' ca. load_or_generate_ca ref_x509 (\<lambda>_. None) (\<lambda>_. None) ex_draw ''k'' ''c'' ''CN=r'' = (fs', Inr ca) \<and>
     load_or_generate_ca ref_x509 (\<lambda>_. None) fs' (ex_draw\<lparr>dr_key := [6]\<rparr>) ''k'' ''c'' ''CN=r'' = (fs', Inr ca)"
proof -
  from ex_first_start obtain fs' ca
    where f: "load_or_generate_ca ref_x509 (\<lambda>_. None) (\<lambda>_. None) ex_draw ''k'' ''c'' ''CN=r'' = (fs', Inr ca)" by blast
  have "load_or_generate_ca ref_x509 (\<lambda>_. None) fs' (ex_draw\<lparr>dr_key := [6]\<rparr>) ''k'' ''c'' ''CN=r'' = (fs', Inr ca)"
    using ca_restart_stable [OF ref_x509_ok _ f] by simp
  with f show ?thesis by blast
qed

end
