(* ===== verification/Provision_Props.thy ===== *)
theory Provision_Props
  imports Converge_Props Identity_Props
begin

text \<open>
  Both towers behind one orchestrator. What ties them together is the device key: Tower 1 records the
  key whose possession the device proved, the orchestrator reads it from Tower 1 and names it to
  Tower 2, which wraps the artifact keys of the push for it.
\<close>

section \<open>Tower 1 behind the transport\<close>

definition ca_transport ::
    "('h, 'c, 'x, 'r, 'k3, 'role) ca_crates \<Rightarrow> ca_render \<Rightarrow> 'c draw \<Rightarrow> i64 \<Rightarrow> ('c, 'x) identity_state \<Rightarrow> string \<Rightarrow> transport" where
  "ca_transport Cc Rc dr clock s base rq =
     (case strip_prefix base (rq_url rq) of
        Some path \<Rightarrow> snd (ca_http Cc Rc dr clock s rq path)
      | None \<Rightarrow> Inl ''connection refused'')"

lemma ca_route_device:
  assumes "CHR ''/'' \<notin> set i" "CHR ''?'' \<notin> set i" "i \<noteq> []"
  shows "ca_route Cc (get_request url []) (''/devices/'' @ i) = Inr (CaDevice i)"
proof -
  have "segments (''/devices/'' @ i) = [[], ''devices'', i]"
    using segments_leaf [of "''devices''" i] assms by simp
  then show ?thesis
    using assms(3) unfolding ca_route_def Let_def by (simp add: for_method_def get_request_def)
qed

lemma ca_device_answer:
  assumes "CHR ''/'' \<notin> set i" "CHR ''?'' \<notin> set i" "i \<noteq> []" and "find_device (st_roster s) i = Some row"
  shows "ca_transport Cc Rc dr clock s base (get_request (base @ ''/devices/'' @ i) []) =
    Inr \<lparr>rs_status = 200, rs_body = rc_device Rc (device_from_row (cx_hash Cc) (cx_off Cc) (cx_keystore Cc) (cx_spki_of Cc) row)\<rparr>"
proof -
  have "strip_prefix base (rq_url (get_request (base @ ''/devices/'' @ i) [])) = Some (''/devices/'' @ i)"
    by (simp add: get_request_def)
  then show ?thesis
    using assms(4) unfolding ca_transport_def
    by (simp only: option.case ca_http_def ca_route_device [OF assms(1-3)] sum.case)
      (simp add: ca_handle_def get_device_def map_ok_def ca_response_def)
qed

lemma device_pubkey_over_http:
  assumes "CHR ''/'' \<notin> set i" "CHR ''?'' \<notin> set i" "i \<noteq> []" and "find_device (st_roster s) i = Some row"
    and "dv_pubkey row = Some pk" and "\<forall>x. de_device J (rc_device Rc x) = Inr x"
    and "strip_prefix hub (TowerClient_new ca_url @ ''/devices/'' @ i) = None"
  shows "device_pubkey (tower_transport C Rn io clock st hub (ca_transport Cc Rc dr clock s (TowerClient_new ca_url))) J ca_url i =
    Inr pk"
proof -
  have "tower_transport C Rn io clock st hub (ca_transport Cc Rc dr clock s (TowerClient_new ca_url))
      (get_request (TowerClient_new ca_url @ ''/devices/'' @ i) []) =
    Inr \<lparr>rs_status = 200, rs_body = rc_device Rc (device_from_row (cx_hash Cc) (cx_off Cc) (cx_keystore Cc) (cx_spki_of Cc) row)\<rparr>"
    using assms(7) ca_device_answer [OF assms(1-4)] by (simp add: tower_transport_def get_request_def)
  then show ?thesis
    using assms(5,6)
    by (simp add: device_pubkey_def ic_get_device_def send_opt_def send_def error_for_status_def device_from_row_def)
qed

section \<open>The push is sealed for the proven key\<close>

text \<open>An envelope whose every part's key is wrapped for the COSE key \<open>cose\<close>.\<close>

definition wrapped_for :: "('h, 's, 'z, 'k) hub_crates \<Rightarrow> 'k hub_state \<Rightarrow> bytes \<Rightarrow> string \<Rightarrow> bytes \<Rightarrow> bool" where
  "wrapped_for C st cose device_id env \<longleftrightarrow>
     (\<exists>pk t seq specs. from_cose_key_bytes (hx_off C) cose = Inr pk \<and>
        multi_build (hx_off C) t seq specs (signer_key (hs_signer st)) = Inr env \<and>
        (\<forall>sp \<in> set specs. \<exists>k entry wrapped. pg_look (hx_hash C) (hs_index st) k = Some entry \<and> cs_digest sp = ch_bytes k \<and>
           rewrap_cek_ecdh (hx_off C) (ae_cek entry) (ae_nonce entry)
             \<lparr>rc_public_key = pk, rc_kid = as_bytes device_id\<rparr> = Inr wrapped \<and> cs_encryption_info sp = Some wrapped))"

lemma sealed_wrapped:
  assumes "push_signed C clock st cose (push_request target device architecture pubkey device_id cur) pe (n, env)"
    and "pg_wf (hx_hash C) (hs_index st)" and "\<not> e_disabled (snd pe)"
  shows "wrapped_for C st cose device_id env"
proof -
  let ?q = "push_request target device architecture pubkey device_id cur"
  have dev: "l1_device_id (l1_request_of ?q) = device_id"
    by (simp add: l1_request_of_def push_request_def)
  from assms(1,3) obtain pk specs where pk: "from_cose_key_bytes (hx_off C) cose = Inr pk"
    and parts: "list_all2 (signed_part (hx_hash C) (hx_off C) (pg_index_api (hx_hash C)) (hs_index st)
      \<lparr>rc_public_key = pk, rc_kid = as_bytes device_id\<rparr> (fst pe)) (e_parts (snd pe)) specs"
    and env: "multi_build (hx_off C) (signing_now clock) (l1_seq (l1_request_of ?q)) specs (signer_key (hs_signer st)) = Inr env"
    by (auto simp: push_signed_def signed_l2_def dev)
  have "\<exists>k entry wrapped. pg_look (hx_hash C) (hs_index st) k = Some entry \<and> cs_digest sp = ch_bytes k \<and>
      rewrap_cek_ecdh (hx_off C) (ae_cek entry) (ae_nonce entry) \<lparr>rc_public_key = pk, rc_kid = as_bytes device_id\<rparr> = Inr wrapped \<and>
      cs_encryption_info sp = Some wrapped" if "sp \<in> set specs" for sp
  proof -
    from list_all2_members(1) [OF parts that] obtain p where
      "signed_part (hx_hash C) (hx_off C) (pg_index_api (hx_hash C)) (hs_index st)
        \<lparr>rc_public_key = pk, rc_kid = as_bytes device_id\<rparr> (fst pe) p sp"
      by blast
    then obtain entry wrapped where
      "index_get (pg_index_api (hx_hash C)) (hs_index st) (p_content p) = Inr (Some entry)"
      and wrap: "rewrap_cek_ecdh (hx_off C) (ae_cek entry) (ae_nonce entry)
        \<lparr>rc_public_key = pk, rc_kid = as_bytes device_id\<rparr> = Inr wrapped"
      and sp: "sp = \<lparr>cs_id = [fst pe, p_id p], cs_digest = ch_bytes (p_content p), cs_size = ae_size entry,
        cs_uri = to_prefixed (hx_hash C) (ae_outer entry), cs_encryption_info = Some wrapped\<rparr>"
      unfolding signed_part_def by blast
    from pg_index_look [OF assms(2) this(1)] wrap show ?thesis
      by (intro exI [of _ "p_content p"] exI [of _ entry] exI [of _ wrapped]) (simp add: sp)
  qed
  with pk env show ?thesis
    unfolding wrapped_for_def by blast
qed

text \<open>C2. From the proof of possession to the flashed manifest, over the routes of both towers: after a
  device enrolled its decrypt slot, every job of a push to it carries a manifest signed by Tower 2,
  which disables its component or wraps the key of every part, taken from the index, for exactly
  the key whose possession the device proved, under the device's id.\<close>

theorem push_sealed_for_proven_key:
  assumes "hash_api_ok (hx_hash C)" and "tower_ok C st" and "suit_laws (hx_off C) S"
    and "\<forall>t s. tree_to_value R t = Inr s \<longrightarrow> hx_from_value C s = Some t"
    and "cx_hash Cc = hx_hash C" and "\<forall>x. de_device J (rc_device Rc x) = Inr x"
    and "CHR ''/'' \<notin> set device_id" and "CHR ''?'' \<notin> set device_id" and "device_id \<noteq> []"
    and "strip_prefix (TowerClient_new hub_url) (TowerClient_new ca_url @ ''/devices/'' @ device_id) = None"
    and "roster_wf (st_roster s)"
    and "ca_handle Cc dr clock s (CaEnroll device_id ''device-decrypt'' body) = (s', Inr ans)"
    and "l1_flash_plan (hx_hash C) R S (tower_transport C Rn io clock st (TowerClient_new hub_url)
        (ca_transport Cc Rc dr' clock s' (TowerClient_new ca_url))) J rig_url hub_url ca_url target device_id allow insecure pem =
      Inr (jobs, anchor, observed)"
    and "jobs \<noteq> []"
  shows "\<exists>csr point cose. possessed (cx_x509 Cc) body csr \<and> subject_public_key (csr_public_key (cx_x509 Cc) csr) = Some point \<and>
    sec1_to_cose (cx_keystore Cc) point = Inr cose \<and>
    (\<forall>j \<in> set jobs. wrapped_for C st cose device_id (job_envelope j) \<or>
       (\<exists>t seq. disable_build (hx_off C) t seq [job_component_id j] (signer_key (hs_signer st)) = Inr (job_envelope j)))"
proof -
  from assms(12) obtain resp where
    "enroll_device (cx_hash Cc) (cx_x509 Cc) (cx_keystore Cc) dr s device_id ''device-decrypt'' body = (s', Inr resp)"
    by (auto simp: ca_handle_def Let_def map_ok_def res_simps split: prod.splits)
  from enrolled_row [OF assms(1) [folded assms(5)] assms(11) this] obtain csr pt cose row where
    csr: "possessed (cx_x509 Cc) body csr" "subject_public_key (csr_public_key (cx_x509 Cc) csr) = Some pt"
      "sec1_to_cose (cx_keystore Cc) pt = Inr cose"
    and row: "find_device (st_roster s') device_id = Some row" "dv_pubkey row = Some (hex_encode (hx_hash C) cose)"
    using assms(5) by auto
  from push_plan_facts [OF assms(1-4,13,14)] obtain tree device architecture pubkey dpk cur where
    pubkey: "device_pubkey (tower_transport C Rn io clock st (TowerClient_new hub_url)
      (ca_transport Cc Rc dr' clock s' (TowerClient_new ca_url))) J ca_url device_id = Inr pubkey"
    and dpk: "parse_device_pubkey (hx_hash C) (hx_off C) pubkey = Inr dpk"
    and sound: "push_sound C st (push_signed C clock st dpk (push_request target device architecture pubkey device_id cur))
      observed tree jobs"
    by blast
  have "pubkey = hex_encode (hx_hash C) cose"
    using pubkey by (simp add: device_pubkey_over_http [OF assms(7-9) row assms(6,10)])
  then have cose: "dpk = cose"
    using dpk hash_api_okD(3) [OF assms(1), of cose] by (auto simp: parse_device_pubkey_def res_simps trim_hex [OF assms(1)])
  have "wrapped_for C st cose device_id (job_envelope j) \<or>
      (\<exists>t seq. disable_build (hx_off C) t seq [job_component_id j] (signer_key (hs_signer st)) = Inr (job_envelope j))"
    if "j \<in> set jobs" for j
  proof -
    from sound that obtain pe where name: "job_component_id j = fst pe"
      and sealed: "push_signed C clock st cose (push_request target device architecture pubkey device_id cur) pe (fst pe, job_envelope j)"
      unfolding cose push_sound_def job_delivers_def by blast
    show ?thesis
    proof (cases "e_disabled (snd pe)")
      case True
      then show ?thesis
        using sealed name by (auto simp: push_signed_def signed_l2_def)
    next
      case False
      then show ?thesis
        using sealed_wrapped [OF sealed] assms(2) by (auto simp: tower_ok_def)
    qed
  qed
  with csr show ?thesis
    by blast
qed

section \<open>An example\<close>

text \<open>A wire form of a device: every field with its length, an option as a list.\<close>

definition enc_text :: "string \<Rightarrow> bytes" where
  "enc_text t = enc_bytes (as_bytes t)"

definition dec_text :: "bytes \<Rightarrow> string \<times> bytes" where
  "dec_text s = (let (b, r) = dec_bytes s in (bytes_text b, r))"

definition enc_opt :: "string option \<Rightarrow> bytes" where
  "enc_opt x = enc_list enc_text (case x of Some t \<Rightarrow> [t] | None \<Rightarrow> [])"

definition dec_opt :: "bytes \<Rightarrow> string option \<times> bytes" where
  "dec_opt s = (let (ts, r) = dec_list dec_text s in (case ts of t # _ \<Rightarrow> Some t | [] \<Rightarrow> None, r))"

definition enc_device :: "Device \<Rightarrow> bytes" where
  "enc_device d = enc_text (d_id d) @ enc_opt (d_model d) @ enc_text (d_status d) @ enc_opt (d_pubkey d) @ enc_opt (d_ecu_id d)"

definition dec_device :: "bytes \<Rightarrow> string + Device" where
  "dec_device s =
     (let (i, s1) = dec_text s; (m, s2) = dec_opt s1; (t, s3) = dec_text s2; (p, s4) = dec_opt s3; (e, _) = dec_opt s4
      in Inr \<lparr>d_id = i, d_model = m, d_status = t, d_pubkey = p, d_ecu_id = e\<rparr>)"

lemma dec_enc_text: "dec_text (enc_text t @ r) = (t, r)"
  by (simp add: dec_text_def enc_text_def dec_enc_bytes)

lemma dec_enc_opt: "dec_opt (enc_opt x @ r) = (x, r)"
  using dec_enc_list [of dec_text enc_text "\<lambda>t. t", OF dec_enc_text]
  by (simp add: dec_opt_def enc_opt_def split: option.split)

lemma dec_enc_device: "dec_device (enc_device d) = Inr d"
  using dec_enc_opt [of "d_ecu_id d" "[]"]
  by (simp add: dec_device_def enc_device_def dec_enc_text dec_enc_opt)

definition ex_ca_crates :: "(bytes, bytes, string, bytes, bytes, nat) ca_crates" where
  "ex_ca_crates = \<lparr>cx_hash = ref_hash, cx_x509 = ref_x509, cx_off = ref_offboard_keys, cx_keystore = ref_keystore,
     cx_hsm = ref_hsm, cx_spki_of = (\<lambda>_. None), cx_body = (\<lambda>_. []), cx_de_register = (\<lambda>_. None),
     cx_de_keystore = (\<lambda>_. None), cx_de_delegate = (\<lambda>_. None), cx_version = ''0''\<rparr>"

definition ex_ca_render :: ca_render where
  "ex_ca_render = \<lparr>rc_version = (\<lambda>_ _. []), rc_device = enc_device, rc_devices = (\<lambda>_. []), rc_enroll = (\<lambda>_. []),
     rc_delegate = (\<lambda>_. []), rc_bundle = (\<lambda>_. [])\<rparr>"

definition ex_prov_json :: json_api where
  "ex_prov_json = ex_json\<lparr>de_device := dec_device\<rparr>"

theorem push_sealed_for_proven_key_witness:
  "wrapped_for ex_push_crates ex_push_state (replicate 64 6) ''d1'' ex_push_l2"
proof -
  let ?ca = "ca_transport ex_ca_crates ex_ca_render ex_draw 9 ex_enrolled (TowerClient_new ''http://ca'')"
  have json: "\<forall>x. de_device ex_prov_json (rc_device ex_ca_render x) = Inr x"
    by (simp add: ex_prov_json_def ex_ca_render_def dec_enc_device)
  have apart: "strip_prefix (TowerClient_new ''http://hub'') (TowerClient_new ''http://ca'' @ ''/devices/'' @ ''d1'') = None"
    by code_simp
  have crates: "cx_hash ex_ca_crates = hx_hash ex_push_crates" "cx_x509 ex_ca_crates = ref_x509" "cx_keystore ex_ca_crates = ref_keystore"
    by (simp_all add: ex_ca_crates_def)
  have enroll: "\<exists>ans. ca_handle ex_ca_crates ex_draw 9 ex_tower (CaEnroll ''d1'' ''device-decrypt'' ex_csr) = (ex_enrolled, Inr ans)"
    by (simp add: ca_handle_def Let_def crates ex_enroll map_ok_def)
  have id: "CHR ''/'' \<notin> set ''d1''" "CHR ''?'' \<notin> set ''d1''" "''d1'' \<noteq> []"
    by simp_all
  have row: "find_device (st_roster ex_enrolled) ''d1'' = Some \<lparr>dv_id = ''d1'', dv_model = None, dv_status = ''enrolled'',
      dv_pubkey = Some (ref_hex_encode (replicate 64 6))\<rparr>"
    by (simp add: ex_enrolled_def ex_tower_def find_device_def)
  have pubkey: "device_pubkey (ex_push_transport ?ca) ex_prov_json ''http://ca'' ''d1'' = Inr (ref_hex_encode (replicate 64 6))"
    unfolding ex_push_transport_def
    by (rule device_pubkey_over_http [OF id row _ json apart [unfolded ex_push_base]]) simp
  have parse: "parse_device_pubkey ref_hash suit_offboard (ref_hex_encode (replicate 64 6)) = Inr (replicate 64 6)"
    by code_simp
  from enroll obtain ans where
    ans: "ca_handle ex_ca_crates ex_draw 9 ex_tower (CaEnroll ''d1'' ''device-decrypt'' ex_csr) = (ex_enrolled, Inr ans)"
    by blast
  from push_sealed_for_proven_key [OF ex_push_laws(1) ex_push_state_ok ex_push_laws(2,3) crates(1) json id apart ex_tower_wf ans
      ex_push_plan [OF pubkey parse] list.distinct(2)]
  obtain csr point cose where csr: "possessed ref_x509 ex_csr csr" "subject_public_key (csr_public_key ref_x509 csr) = Some point"
    "sec1_to_cose ref_keystore point = Inr cose"
    and jobs: "wrapped_for ex_push_crates ex_push_state cose ''d1'' ex_push_l2 \<or>
      (\<exists>t seq. disable_build suit_offboard t seq [''vm1''] [77] = Inr ex_push_l2)"
    by (simp add: crates ex_push_job_def ex_push_pool) blast
  from csr(1) have "csr = ex_csr"
    by (simp add: possessed_def ref_x509_def split: if_splits)
  then have "point = butlast ex_csr"
    using csr(2) by (simp add: ref_x509_def)
  then have "cose = replicate 64 6"
    using csr(3) replicate_add [of 32 32 "6 :: u8"] by (simp add: sec1_to_cose_def ref_keystore_def ex_csr_def)
  with jobs show ?thesis
    by (auto simp: suit_offboard_def ex_push_l2_def)
qed

end
