(* ===== verification/Cli_Text.thy ===== *)
theory Cli_Text
  imports Campaign
begin

text \<open>
  \<open>crates/cli/src/main.rs\<close>, what the operator reads: the printers of trees, diffs, plans, bundles
  and results, and the byte count renderer. Text is UTF-8, so a string here is the list of its
  bytes; the width of a format counts characters. A printer yields everything it prints.
\<close>

section \<open>Formatting\<close>

definition EM_DASH :: string where "EM_DASH = [CHR 0xE2, CHR 0x80, CHR 0x94]"
definition ARROW_RIGHT :: string where "ARROW_RIGHT = [CHR 0xE2, CHR 0x86, CHR 0x92]"
definition ARROW_UP :: string where "ARROW_UP = [CHR 0xE2, CHR 0x86, CHR 0x91]"
definition BALLOT_X :: string where "BALLOT_X = [CHR 0xE2, CHR 0x9C, CHR 0x97]"
definition ELLIPSIS :: string where "ELLIPSIS = [CHR 0xE2, CHR 0x80, CHR 0xA6]"
definition QUOTE :: char where "QUOTE = CHR 0x27"

definition line :: "string \<Rightarrow> string" where
  "line s = s @ [NL]"

definition quoted :: "string \<Rightarrow> string" where
  "quoted s = [QUOTE] @ s @ [QUOTE]"

text \<open>\<open>{:<w}\<close>: padded on the right to \<open>w\<close> characters; continuation bytes do not count.\<close>

definition char_count :: "string \<Rightarrow> nat" where
  "char_count s = length (filter (\<lambda>c. \<not> (128 \<le> (of_char c :: nat) \<and> (of_char c :: nat) < 192)) s)"

definition pad :: "nat \<Rightarrow> string \<Rightarrow> string" where
  "pad w s = s @ replicate (w - char_count s) (CHR '' '')"

text \<open>\<open>{:?}\<close> of a list of strings; control characters are escaped, other characters are taken to be
  printable.\<close>

definition hex_text :: "nat \<Rightarrow> string" where
  "hex_text n = (if n < 16 then [] else [hex_digits ! (n div 16)]) @ [hex_digits ! (n mod 16)]"

definition debug_char :: "char \<Rightarrow> string" where
  "debug_char c =
     (if c = DQ then [BACKSLASH, DQ]
      else if c = BACKSLASH then [BACKSLASH, BACKSLASH]
      else if c = NL then [BACKSLASH] @ ''n''
      else if c = CHR 0x0D then [BACKSLASH] @ ''r''
      else if c = CHR 0x09 then [BACKSLASH] @ ''t''
      else if c = NUL then [BACKSLASH] @ ''0''
      else if (of_char c :: nat) < 32 \<or> of_char c = (127 :: nat)
      then [BACKSLASH] @ ''u{'' @ hex_text (of_char c) @ ''}''
      else [c])"

definition debug_str :: "string \<Rightarrow> string" where
  "debug_str s = [DQ] @ concat (map debug_char s) @ [DQ]"

definition debug_strings :: "string list \<Rightarrow> string" where
  "debug_strings ss = ''['' @ join '', '' (map debug_str ss) @ '']''"

section \<open>Byte counts\<close>

text \<open>\<open>human_size\<close> works in \<open>f64\<close>. A \<open>u64\<close> becomes the nearest double (ties to even), an integer;
  dividing by 1024 is exact, so a size is the double over a power of 1024; \<open>{:.1}\<close> rounds the
  exact value to a tenth, ties to even.\<close>

definition div_half_even :: "nat \<Rightarrow> nat \<Rightarrow> nat" where
  "div_half_even a b =
     (let q = a div b; r = a mod b in if 2 * r < b \<or> (2 * r = b \<and> even q) then q else Suc q)"

fun bit_length :: "nat \<Rightarrow> nat" where
  "bit_length n = (if n = 0 then 0 else Suc (bit_length (n div 2)))"

declare bit_length.simps [simp del]

definition f64_of_u64 :: "u64 \<Rightarrow> nat" where
  "f64_of_u64 b = (let n = unat b; k = bit_length n - 53 in div_half_even n (2 ^ k) * 2 ^ k)"

definition UNITS :: "string list" where
  "UNITS = [''B'', ''KB'', ''MB'', ''GB'', ''TB'']"

text \<open>The loop: the size is \<open>m / d\<close>; it ends at the last unit at the latest.\<close>

function human_scale :: "nat \<Rightarrow> nat \<Rightarrow> nat \<Rightarrow> nat \<times> nat" where
  "human_scale m d unit =
     (if 1024 * d \<le> m \<and> unit < length UNITS - 1 then human_scale m (d * 1024) (Suc unit) else (d, unit))"
  by auto
termination by (relation "measure (\<lambda>(m, d, unit). length UNITS - unit)") (auto simp: UNITS_def)

declare human_scale.simps [simp del]

definition human_size :: "u64 \<Rightarrow> string" where
  "human_size b =
     (let m = f64_of_u64 b in
      case human_scale m 1 0 of
        (d, unit) \<Rightarrow>
          if unit = 0 then nat_to_string (unat b) @ '' B''
          else (let t = div_half_even (10 * m) d in
                nat_to_string (t div 10) @ ''.'' @ nat_to_string (t mod 10) @ '' '' @ UNITS ! unit))"

section \<open>Printers\<close>

definition print_device :: "Device \<Rightarrow> string" where
  "print_device d =
     line (''id      '' @ d_id d) @
     (case d_model d of Some m \<Rightarrow> line (''model   '' @ m) | None \<Rightarrow> []) @
     line (''status  '' @ d_status d) @
     line (''pubkey  '' @ (case d_pubkey d of Some k \<Rightarrow> k | None \<Rightarrow> ''(none)''))"

definition print_device_row :: "Device \<Rightarrow> string" where
  "print_device_row d =
     line (pad 20 (d_id d) @ '' '' @ pad 14 (case d_model d of Some m \<Rightarrow> m | None \<Rightarrow> ''-'') @ '' '' @ d_status d)"

definition print_entity :: "'h hash_api \<Rightarrow> string \<times> Entity \<Rightarrow> string" where
  "print_entity H pe =
     (let e = snd pe in
      line (fst pe @ ''  ['' @ e_kind e @ '']'' @
            (case e_version e of Some v \<Rightarrow> '' '' @ EM_DASH @ '' '' @ v | None \<Rightarrow> [])) @
      (if e_parts e = [] then line ''    (no signed manifest)'' else []) @
      concat (map (\<lambda>p. line (''    '' @ pad 16 (p_id p) @ '' '' @ ch_display H (p_content p))) (e_parts e)))"

definition print_tree :: "'h hash_api \<Rightarrow> Tree \<Rightarrow> string" where
  "print_tree H t = concat (map (print_entity H) (entities t))"

fun change_symbol :: "Change \<Rightarrow> string" where
  "change_symbol Added = ''+''"
| "change_symbol Removed = ''-''"
| "change_symbol Changed = ''~''"

definition print_diff :: "TreeDiff \<Rightarrow> string" where
  "print_diff d =
     (if td_is_empty d then line (''up to date '' @ EM_DASH @ '' nothing to flash'')
      else concat (map (\<lambda>e. line (''+ entity '' @ e)) (entities_added d)) @
           concat (map (\<lambda>e. line (''- entity '' @ e)) (entities_removed d)) @
           concat (map (\<lambda>c. line (change_symbol (pc_change c) @ '' '' @ pc_entity c @ ''  '' @ pc_part c @
                                 '' ['' @ pc_kind c @ '']'')) (td_parts d)))"

definition print_ship_line :: "'h hash_api \<Rightarrow> PlannedPart \<Rightarrow> string" where
  "print_ship_line H p =
     (case pp_plan p of
        Ship \<Rightarrow> line (ARROW_UP @ '' ship   '' @ pp_entity p @ '' '' @ pp_part p @ '' ['' @ pp_kind p @ '']  '' @
                      ch_display H (pp_content p))
      | Reuse \<Rightarrow> [])"

definition print_plan :: "'h hash_api \<Rightarrow> FlashPlan \<Rightarrow> string" where
  "print_plan H pl =
     (if fp_is_noop pl then line (''up to date '' @ EM_DASH @ '' every part already in the active bank'')
      else concat (map (print_ship_line H) (fp_parts pl)) @
           line ([NL] @ nat_to_string (length (filter (\<lambda>p. pp_plan p = Ship) (fp_parts pl))) @
                 '' to ship from Tower 2, '' @
                 nat_to_string (length (filter (\<lambda>p. pp_plan p = Reuse) (fp_parts pl))) @
                 '' reused bank-to-bank on-device''))"

definition print_ship_part :: "'h hash_api \<Rightarrow> ShipPart \<Rightarrow> string" where
  "print_ship_part H s =
     (case sp_blob s of
        Some b \<Rightarrow> line (''  '' @ ARROW_UP @ '' '' @ pad 14 (sp_part s) @ '' '' @ ch_display H (sp_content s) @
                        ''  ('' @ human_size (bref_size b) @ '')'')
      | None \<Rightarrow> line (''  '' @ BALLOT_X @ '' '' @ pad 14 (sp_part s) @ '' '' @ ch_display H (sp_content s) @
                      ''  '' @ EM_DASH @ '' NOT in Tower 2''))"

definition print_component_apply :: "'h hash_api \<Rightarrow> ComponentApply \<Rightarrow> string" where
  "print_component_apply H c =
     line (ca_entity c @ (case ca_version c of Some v \<Rightarrow> '' '' @ v | None \<Rightarrow> []) @ ''  '' @ EM_DASH @ '' ship '' @
           nat_to_string (length (ca_ship c)) @ '', reuse '' @ nat_to_string (ca_reuse c)) @
     concat (map (print_ship_part H) (ca_ship c))"

definition print_apply :: "'h hash_api \<Rightarrow> ApplyPlan \<Rightarrow> string" where
  "print_apply H plan =
     (if plan_is_noop plan
      then line (''up to date '' @ EM_DASH @ '' nothing to ship for channel '' @ quoted (ap_channel plan))
      else
        concat (map (print_component_apply H) (ap_components plan)) @
        [NL] @ nat_to_string (sum_list (map (\<lambda>c. length (ca_ship c)) (ap_components plan))) @
        '' part(s) to ship, '' @ human_size (plan_ship_bytes plan) @ '' total'' @
        (if plan_missing plan = [] then line []
         else line ('' '' @ EM_DASH @ '' '' @ nat_to_string (length (plan_missing plan)) @
                    '' unservable (not in Tower 2)'')) @
        line (''flash (per component): SOVD open_update '' @ ARROW_RIGHT @ '' upload manifest + parts '' @
              ARROW_RIGHT @ '' prepare '' @ ARROW_RIGHT @ '' execute '' @ ARROW_RIGHT @ '' commit'') @
        line ''(read-only plan; `rig flash` assembles the signed envelopes)'')"

definition print_component_flash :: "'h hash_api \<Rightarrow> ComponentFlash \<Rightarrow> string" where
  "print_component_flash H c =
     line (''  '' @ cf_entity c @ '' '' @ EM_DASH @ '' signed envelope '' @
           human_size (word_of_nat (cf_envelope_bytes c)) @ '', '' @ nat_to_string (length (cf_payloads c)) @
           '' payload(s):'') @
     concat (map (\<lambda>p. line (''    '' @ pad 14 (plr_uri p) @ '' '' @ ch_display H (plr_outer p) @
                           ''  ('' @ human_size (plr_size p) @ '')'')) (cf_payloads c))"

definition print_bundle :: "'h hash_api \<Rightarrow> FlashBundle \<Rightarrow> string" where
  "print_bundle H b =
     (if fb_components b = []
      then line (''up to date '' @ EM_DASH @ '' nothing to flash for channel '' @ quoted (fb_channel b))
      else
        line (''flash bundle for device '' @ quoted (fb_device b) @ '' (channel '' @ quoted (fb_channel b) @ ''):'') @
        concat (map (print_component_flash H) (fb_components b)) @
        line ([NL] @ nat_to_string (length (fb_components b)) @ '' component(s), '' @
              human_size (sum_list (map plr_size (concat (map cf_payloads (fb_components b))))) @
              '' of payloads to upload'') @
        line (''would flash (per component): SOVD open_update '' @ ARROW_RIGHT @ '' upload manifest + payloads '' @
              ARROW_RIGHT @ '' prepare '' @ ARROW_RIGHT @ '' execute '' @ ARROW_RIGHT @ '' commit'') @
        line (''(dry run '' @ EM_DASH @
              '' no rig flash; the live flash authenticates to SOVD with a sovd-token-helper JWT)''))"

definition in_trial :: "string \<Rightarrow> bool" where
  "in_trial s \<longleftrightarrow> s \<in> {''Staged'', ''AwaitingSystemReboot'', ''Activated''}"

definition print_flash_result :: "FlashResult \<Rightarrow> bool \<Rightarrow> string" where
  "print_flash_result r trial_hint =
     (if fr_components r = []
      then line (''nothing flashed '' @ EM_DASH @ '' up to date for channel '' @ quoted (fr_channel r))
      else
        line (''flashed device '' @ quoted (fr_device r) @ '' (channel '' @ quoted (fr_channel r) @ ''):'') @
        concat (map (\<lambda>c. line (''  '' @ pad 8 (cfr_entity c) @ '' '' @ pad 12 (cfr_state c) @ '' update '' @
                              (case cfr_update_id c of Some i \<Rightarrow> i | None \<Rightarrow> ''-''))) (fr_components r)) @
        (if trial_hint \<and> list_ex (\<lambda>c. in_trial (cfr_state c)) (fr_components r)
         then line ([NL] @ ''in trial '' @ EM_DASH @
                    '' the rig rebooted into the staged bank. When healthy, finalize:'' @ [NL] @
                    ''  ./commit.sh   (or `rig rollback '' @ ELLIPSIS @ ''` to revert)'')
         else []))"

definition print_singleshot_step :: "nat \<times> ComponentApply \<Rightarrow> string" where
  "print_singleshot_step nc =
     line (''  Step '' @ nat_to_string (fst nc) @ '' (singleshot, irreversible): '' @ ca_entity (snd nc) @ '' '' @
           EM_DASH @ '' '' @ nat_to_string (length (ca_ship (snd nc))) @ '' part(s), '' @
           human_size (component_ship_bytes (snd nc)) @ '' '' @ EM_DASH @ '' write-through + node reboot'')"

definition print_campaign ::
    "string \<Rightarrow> string \<Rightarrow> ComponentApply list \<Rightarrow> ComponentApply list \<Rightarrow> string" where
  "print_campaign channel device singleshot banked =
     line (''Campaign '' @ EM_DASH @ '' bring '' @ quoted device @ '' to channel '' @ quoted channel @ '' in '' @
           nat_to_string (length singleshot + (if banked \<noteq> [] then 1 else 0)) @ '' step(s):'') @
     concat (map print_singleshot_step (enumerate 1 singleshot)) @
     (if banked \<noteq> [] then
        line (''  Step '' @ nat_to_string (1 + length singleshot) @ '' (banked, trial): '' @
              join '', '' (map ca_entity banked) @ '' '' @ EM_DASH @ '' '' @
              nat_to_string (sum_list (map (\<lambda>c. length (ca_ship c)) banked)) @ '' part(s), '' @
              human_size (sum_list (map component_ship_bytes banked)) @ '' '' @ EM_DASH @ '' flash '' @
              ARROW_RIGHT @ '' reboot '' @ ARROW_RIGHT @ '' trial '' @ ARROW_RIGHT @ '' commit'')
      else [])"

section \<open>Bounds of a rendered byte count\<close>

lemma div_half_even_close:
  assumes "0 < b"
  shows "2 * (div_half_even a b * b) \<le> 2 * a + b" "2 * a \<le> 2 * (div_half_even a b * b) + b"
proof -
  define q r where "q = a div b" and "r = a mod b"
  have a: "a = q * b + r" and r: "r < b"
    using assms by (simp_all add: q_def r_def)
  have d: "div_half_even a b = (if 2 * r < b \<or> (2 * r = b \<and> even q) then q else Suc q)"
    by (simp add: div_half_even_def q_def r_def Let_def)
  show "2 * (div_half_even a b * b) \<le> 2 * a + b" "2 * a \<le> 2 * (div_half_even a b * b) + b"
    using r unfolding d by (auto simp: a algebra_simps)
qed

lemma bit_length_le: "n < 2 ^ k \<Longrightarrow> bit_length n \<le> k"
proof (induction n arbitrary: k rule: bit_length.induct)
  case (1 n)
  show ?case
  proof (cases "n = 0")
    case True
    then show ?thesis by (simp add: bit_length.simps)
  next
    case False
    with "1.prems" obtain k' where k: "k = Suc k'"
      by (cases k) auto
    with "1.prems" have "n div 2 < 2 ^ k'"
      by (simp add: less_mult_imp_div_less mult.commute)
    with 1 False k show ?thesis
      by (simp add: bit_length.simps [of n])
  qed
qed

lemma f64_of_u64_small: "unat b < 2 ^ 53 \<Longrightarrow> f64_of_u64 b = unat b"
  using bit_length_le [of "unat b" 53] by (simp add: f64_of_u64_def div_half_even_def Let_def)

lemma human_scale_spec:
  assumes "human_scale m d unit = (d', u)" "unit \<le> 4" "d = 1024 ^ unit" "unit = 0 \<or> d \<le> m"
  shows "d' = 1024 ^ u \<and> u \<le> 4 \<and> (u = 0 \<or> d' \<le> m) \<and> (u = 4 \<or> m < 1024 * d')"
  using assms
proof (induction m d unit rule: human_scale.induct)
  case (1 m d unit)
  show ?case
  proof (cases "1024 * d \<le> m \<and> unit < length UNITS - 1")
    case True
    then have "human_scale m d unit = human_scale m (d * 1024) (Suc unit)"
      by (subst human_scale.simps) simp
    then have "human_scale m (d * 1024) (Suc unit) = (d', u)" "Suc unit \<le> 4" "d * 1024 = 1024 ^ Suc unit"
      "Suc unit = 0 \<or> d * 1024 \<le> m"
      using "1.prems" True by (simp_all add: UNITS_def)
    with 1(1) True show ?thesis by blast
  next
    case False
    with "1.prems" show ?thesis
      by (subst (asm) human_scale.simps) (auto simp: UNITS_def)
  qed
qed

end
