(* ===== verification/Vhsm.thy ===== *)
theory Vhsm
  imports Wire
begin

text \<open>
  \<open>crates/cli/src/vhsm.rs\<close>: off-box vHSM enrolment. The CWT mint builds the claims as a CBOR value
  and has them encoded and signed; the encoders of \<open>ciborium\<close> and \<open>coset\<close>, the ECDSA key and the
  labels of \<open>vhsm_proto\<close> are the fields of \<open>vhsm_api\<close>. Random bytes are arguments.
\<close>

section \<open>The CWT mint\<close>

record ValidityWindow =
  vw_iat :: u64
  vw_nbf :: u64
  vw_exp :: u64

definition saturating_add :: "u64 \<Rightarrow> u64 \<Rightarrow> u64" where
  "saturating_add a b = (if a + b < a then - 1 else a + b)"

definition from_now :: "u64 \<Rightarrow> u64 \<Rightarrow> ValidityWindow" where
  "from_now now_unix lifetime_secs =
     \<lparr>vw_iat = now_unix, vw_nbf = now_unix, vw_exp = saturating_add now_unix lifetime_secs\<rparr>"

datatype CborValue =
    CborInteger int
  | CborText string
  | CborBytes bytes
  | CborMap "(CborValue \<times> CborValue) list"

datatype CoseAlg = ES256

datatype CoseKty = EC2

record CoseKeyData =
  ck_kty :: CoseKty
  ck_alg :: "CoseAlg option"
  ck_params :: "(int \<times> CborValue) list"

record 'sk vhsm_api =
  CLAIM_ISS :: int
  CLAIM_SUB :: int
  CLAIM_AUD :: int
  CLAIM_EXP :: int
  CLAIM_NBF :: int
  CLAIM_IAT :: int
  CLAIM_CTI :: int
  CLAIM_CNF :: int
  COSE_KEY_EC2_CRV :: int
  COSE_KEY_EC2_X :: int
  COSE_KEY_EC2_Y :: int
  CURVE_P256 :: int
  VHSM_AUDIENCE :: string
  cose_key_to_cbor :: "CoseKeyData \<Rightarrow> string + CborValue"
  cbor_into_writer :: "CborValue \<Rightarrow> string + bytes"
  cose_sign1_tbs :: "CoseAlg \<Rightarrow> bytes \<Rightarrow> bytes \<Rightarrow> bytes"
  ecdsa_sign :: "'sk \<Rightarrow> bytes \<Rightarrow> bytes"
  cose_sign1_to_vec :: "CoseAlg \<Rightarrow> bytes \<Rightarrow> bytes \<Rightarrow> string + bytes"

definition cnf_cose_key :: "'sk vhsm_api \<Rightarrow> bytes \<Rightarrow> bytes \<Rightarrow> CoseKeyData" where
  "cnf_cose_key V x y =
     \<lparr>ck_kty = EC2, ck_alg = Some ES256,
      ck_params = [(COSE_KEY_EC2_CRV V, CborInteger (CURVE_P256 V)),
                   (COSE_KEY_EC2_X V, CborBytes x), (COSE_KEY_EC2_Y V, CborBytes y)]\<rparr>"

definition cwt_claims ::
    "'sk vhsm_api \<Rightarrow> string \<Rightarrow> string \<Rightarrow> ValidityWindow \<Rightarrow> bytes \<Rightarrow> CborValue \<Rightarrow> CborValue" where
  "cwt_claims V subject issuer validity cti cnf_wrapped = CborMap
     [(CborInteger (CLAIM_ISS V), CborText issuer),
      (CborInteger (CLAIM_SUB V), CborText subject),
      (CborInteger (CLAIM_AUD V), CborText (VHSM_AUDIENCE V)),
      (CborInteger (CLAIM_EXP V), CborInteger (uint (vw_exp validity))),
      (CborInteger (CLAIM_NBF V), CborInteger (uint (vw_nbf validity))),
      (CborInteger (CLAIM_IAT V), CborInteger (uint (vw_iat validity))),
      (CborInteger (CLAIM_CTI V), CborBytes cti),
      (CborInteger (CLAIM_CNF V), cnf_wrapped)]"

text \<open>\<open>cti\<close> are the sixteen random bytes of the token id.\<close>

definition mint_cwt ::
    "'sk vhsm_api \<Rightarrow> bytes \<Rightarrow> 'sk \<Rightarrow> string \<Rightarrow> string \<Rightarrow> bytes \<Rightarrow> bytes \<Rightarrow> ValidityWindow \<Rightarrow> string + bytes" where
  "mint_cwt V cti signing_key subject issuer cnf_pub_x cnf_pub_y validity =
     (if length cnf_pub_x \<noteq> 32 \<or> length cnf_pub_y \<noteq> 32
      then Inl (''cnf pubkey coordinates must be 32 bytes each (x='' @ nat_to_string (length cnf_pub_x) @
                '', y='' @ nat_to_string (length cnf_pub_y) @ '')'')
      else
        try_bind (map_err (\<lambda>e. ''encode cnf COSE_Key: '' @ e)
            (cose_key_to_cbor V (cnf_cose_key V cnf_pub_x cnf_pub_y))) (\<lambda>cnf_val.
        let cnf_wrapped = CborMap [(CborInteger 1, cnf_val)];
            claims = cwt_claims V subject issuer validity cti cnf_wrapped in
        try_bind (map_err (\<lambda>_. ''encode CWT payload'') (cbor_into_writer V claims)) (\<lambda>payload.
        let sig = ecdsa_sign V signing_key (cose_sign1_tbs V ES256 payload []) in
          map_err (\<lambda>e. ''encode COSE_Sign1: '' @ e) (cose_sign1_to_vec V ES256 payload sig))))"

section \<open>Bootstrap tokens\<close>

definition TOKEN_LEN :: nat where "TOKEN_LEN = 32"

text \<open>\<open>generate_token\<close> fills an array of \<open>TOKEN_LEN\<close> bytes from the random stream \<open>rng\<close>.\<close>

definition generate_token :: "(nat \<Rightarrow> u8) \<Rightarrow> bytes" where
  "generate_token rng = map rng [0..<TOKEN_LEN]"

definition token_sha256_hex :: "'h hash_api \<Rightarrow> bytes \<Rightarrow> string" where
  "token_sha256_hex H raw_token = hex_encode H (sha_finalize H (sha_update H (sha_new H) raw_token))"

definition replace_char :: "char \<Rightarrow> string \<Rightarrow> string \<Rightarrow> string" where
  "replace_char c by s = concat (map (\<lambda>x. if x = c then by else [x]) s)"

definition yaml_escape :: "string \<Rightarrow> string" where
  "yaml_escape s = replace_char DQ [BACKSLASH, DQ] (replace_char BACKSLASH [BACKSLASH, BACKSLASH] s)"

definition bootstrap_yaml_fragment :: "string \<Rightarrow> string \<Rightarrow> string" where
  "bootstrap_yaml_fragment vm_id sha256_hex =
     ''  '' @ [DQ] @ yaml_escape vm_id @ [DQ] @ '':'' @ [NL] @
     ''    sha256: '' @ [DQ] @ sha256_hex @ [DQ] @ [NL] @
     ''    consumed: false'' @ [NL]"

definition bootstrap_yaml_document :: "string \<Rightarrow> string \<Rightarrow> string" where
  "bootstrap_yaml_document vm_id sha256_hex =
     ''tokens:'' @ [NL] @ bootstrap_yaml_fragment vm_id sha256_hex"

section \<open>Reading the state file back\<close>

text \<open>
  The reader's side, as far as a bootstrap entry needs it: a YAML double-quoted scalar ends at
  the first quote that is not escaped; a backslash escapes the character after it. A raw line
  break is folded and other control characters are not allowed, so the reader refuses both.
\<close>

fun yaml_scalar :: "string \<Rightarrow> (string \<times> string) option" where
  "yaml_scalar [] = None"
| "yaml_scalar (c # s) =
     (if c = DQ then Some ([], s)
      else if c = BACKSLASH then
        (case s of
           [] \<Rightarrow> None
         | d # s' \<Rightarrow>
             if d = DQ \<or> d = BACKSLASH then map_option (\<lambda>(v, rest). (d # v, rest)) (yaml_scalar s') else None)
      else if (of_char c :: nat) < 32 then None
      else map_option (\<lambda>(v, rest). (c # v, rest)) (yaml_scalar s))"

definition yaml_entry :: "string \<Rightarrow> (string \<times> string) option" where
  "yaml_entry t =
     Option.bind (strip_prefix (''  '' @ [DQ]) t) (\<lambda>s.
     Option.bind (yaml_scalar s) (\<lambda>(vm_id, s1).
     Option.bind (strip_prefix ('':'' @ [NL] @ ''    sha256: '' @ [DQ]) s1) (\<lambda>s2.
     Option.bind (yaml_scalar s2) (\<lambda>(sha, s3).
       if s3 = [NL] @ ''    consumed: false'' @ [NL] then Some (vm_id, sha) else None))))"

definition printable :: "string \<Rightarrow> bool" where
  "printable s \<longleftrightarrow> list_all (\<lambda>c. 32 \<le> (of_char c :: nat)) s"

lemma DQ_BACKSLASH [simp]: "DQ \<noteq> BACKSLASH" "BACKSLASH \<noteq> DQ"
  by (simp_all add: DQ_def BACKSLASH_def)

lemma yaml_escape_Nil [simp]: "yaml_escape [] = []"
  by (simp add: yaml_escape_def replace_char_def)

lemma yaml_escape_Cons:
  "yaml_escape (c # s) =
     (if c = BACKSLASH then [BACKSLASH, BACKSLASH] else if c = DQ then [BACKSLASH, DQ] else [c]) @ yaml_escape s"
  by (simp add: yaml_escape_def replace_char_def)

lemma yaml_scalar_escape:
  "printable s \<Longrightarrow> yaml_scalar (yaml_escape s @ DQ # rest) = Some (s, rest)"
  by (induction s) (auto simp: yaml_escape_Cons printable_def)

lemma yaml_entry_fragment:
  assumes "printable vm_id" "printable sha" "yaml_escape sha = sha"
  shows "yaml_entry (bootstrap_yaml_fragment vm_id sha) = Some (vm_id, sha)"
proof -
  have 1: "yaml_scalar (yaml_escape vm_id @ DQ # s) = Some (vm_id, s)" for s
    by (rule yaml_scalar_escape [OF assms(1)])
  have 2: "yaml_scalar (sha @ DQ # s) = Some (sha, s)" for s
    using yaml_scalar_escape [OF assms(2)] by (simp add: assms(3))
  show ?thesis
    by (simp add: yaml_entry_def bootstrap_yaml_fragment_def strip_prefix_def 1 2)
qed

lemma hex_text_plain:
  assumes "set s \<subseteq> set hex_digits"
  shows "printable s" "yaml_escape s = s"
proof -
  have d: "\<forall>c \<in> set hex_digits. 32 \<le> (of_char c :: nat) \<and> c \<noteq> DQ \<and> c \<noteq> BACKSLASH"
    by (simp add: hex_digits_def DQ_def BACKSLASH_def)
  then show "printable s"
    using assms by (auto simp: printable_def list_all_iff)
  show "yaml_escape s = s"
    using assms
  proof (induction s)
    case (Cons c s)
    then show ?case
      using d by (auto simp: yaml_escape_Cons)
  qed simp
qed

section \<open>The validity window\<close>

lemma saturating_add_exact:
  "unat (saturating_add a b) = min (unat a + unat b) (2 ^ 64 - 1)"
proof (cases "unat a + unat b < 2 ^ 64")
  case True
  then have s: "unat (a + b) = unat a + unat b"
    by (simp add: unat_word_ariths)
  then have "\<not> a + b < a"
    by (simp add: word_less_nat_alt)
  then show ?thesis
    using True s by (simp add: saturating_add_def)
next
  case False
  have "unat a < 2 ^ 64" "unat b < 2 ^ 64"
    using unsigned_less [of a] unsigned_less [of b] by simp_all
  with False have "unat (a + b) = unat a + unat b - 2 ^ 64"
    by (simp add: unat_word_ariths mod_if)
  then have "a + b < a"
    using False \<open>unat b < 2 ^ 64\<close> by (simp add: word_less_nat_alt)
  then show ?thesis
    using False by (simp add: saturating_add_def unsigned_minus_1_eq_mask mask_eq_exp_minus_1)
qed

end
