(* ===== verification/Cli.thy ===== *)
theory Cli
  imports Cli_Text Vhsm Authority
begin

text \<open>
  \<open>crates/cli/src/main.rs\<close>: the operator's commands. A command runs on a state with the operator's
  files, the two output streams and the world behind the flash engine, and ends with an error or
  normally. The network is seen through \<open>cli_env\<close>: the \<open>i\<close>-th call of a command meets the rig and
  the towers as they answer at that moment (\<open>cv_rig i\<close>, \<open>cv_net i\<close>), so two calls of one command
  need not see the same state. Argument parsing (\<open>clap\<close>) and logging are not modelled.
\<close>

section \<open>Commands\<close>

datatype HubCmd =
    HubPing
  | HubPublishFile string
  | HubGet string "string option"
  | HubChannel string "string option" "string option" bool

datatype CaCmd =
    CaPing
  | CaRegisterCmd string "string option" "string option"
  | CaDevicesCmd
  | CaDeviceCmd string
  | CaEnrollCmd string string string "string option"
  | CaMintKeystoreCmd string string "string option"
  | CaCertCmd "string option"
  | CaTrustBundleCmd string
  | VhsmBootstrapToken string string "string option" bool
  | VhsmMintCwt string string string string u64 string

record ChannelSel =
  sel_channel :: string
  sel_device :: "string option"
  sel_architecture :: "string option"

record AuthArgs =
  auth_device_id :: string
  auth_token :: "string option"
  auth_minter_url :: "string option"
  auth_operator_token :: "string option"

datatype RigCmd =
    RigState bool
  | RigDiff "string option" "string option" "string option" "string option" string bool
  | RigApply ChannelSel string bool
  | RigFlash ChannelSel string string AuthArgs "string option" bool bool
  | RigCampaign ChannelSel string string AuthArgs bool bool "string option"
  | RigCommit string string AuthArgs
  | RigRollback string string AuthArgs
  | RigCommitTrials AuthArgs
  | RigRollbackTrials AuthArgs
  | RigReset string string AuthArgs
  | RigInstallKeystore string string AuthArgs

datatype Command =
    HubC string HubCmd
  | CaC string CaCmd
  | RigC string RigCmd

record CliArgs =
  cli_insecure :: bool
  cli_cacert :: "string option"
  cli_command :: Command

definition sel_target :: "ChannelSel \<Rightarrow> ChannelTarget" where
  "sel_target s = \<lparr>tgt_channel = sel_channel s, tgt_device = sel_device s,
     tgt_architecture = sel_architecture s, tgt_vehicle_release_id = None, tgt_tree_hash = None\<rparr>"

section \<open>Running a command\<close>

datatype cli_error =
    Bail string
  | FileError string
  | JsonError string
  | CliClient ClientError
  | CliOrch Error
  | CliPanic string

record 'w cli_state =
  cli_files :: ca_fs
  cli_out :: bytes
  cli_err :: bytes
  cli_world :: 'w

type_synonym ('w, 'a) cli = "'w cli_state \<Rightarrow> 'w cli_state \<times> (cli_error + 'a)"

record ('h, 'sk, 'w) cli_env =
  cv_hash :: "'h hash_api"
  cv_net :: "nat \<Rightarrow> transport"
  cv_json :: json_api
  cv_rig :: "nat \<Rightarrow> rig_api"
  cv_suit :: suit_api
  cv_engine :: "'w engine_api"
  cv_fault :: ca_faults
  cv_utf8 :: "bytes \<Rightarrow> string + string"
  cv_tree_of_json :: "bytes \<Rightarrow> string + Tree"
  cv_tree_json :: "Tree \<Rightarrow> string + string"
  cv_plan_json :: "ApplyPlan \<Rightarrow> string + string"
  cv_bundle_json :: "FlashBundle \<Rightarrow> string + string"
  cv_result_json :: "FlashResult \<Rightarrow> string + string"
  cv_vhsm :: "'sk vhsm_api"
  cv_cose_signing_key :: "bytes \<Rightarrow> string + 'sk"
  cv_cose_public_xy :: "bytes \<Rightarrow> string + bytes \<times> bytes"
  cv_rng :: "nat \<Rightarrow> u8"
  cv_clock :: "string + u64"

definition cli_return :: "'a \<Rightarrow> ('w, 'a) cli" where
  "cli_return x s = (s, Inr x)"

definition cli_fail :: "cli_error \<Rightarrow> ('w, 'a) cli" where
  "cli_fail e s = (s, Inl e)"

definition cli_bind :: "('w, 'a) cli \<Rightarrow> ('a \<Rightarrow> ('w, 'b) cli) \<Rightarrow> ('w, 'b) cli" where
  "cli_bind m f s = (case m s of (s', Inl e) \<Rightarrow> (s', Inl e) | (s', Inr x) \<Rightarrow> f x s')"

definition cli_then :: "('w, unit) cli \<Rightarrow> ('w, 'b) cli \<Rightarrow> ('w, 'b) cli" where
  "cli_then m k = cli_bind m (\<lambda>_. k)"

definition lift_res :: "('e \<Rightarrow> cli_error) \<Rightarrow> 'e + 'a \<Rightarrow> ('w, 'a) cli" where
  "lift_res f r s = (s, map_err f r)"

definition print_raw :: "bytes \<Rightarrow> ('w, unit) cli" where
  "print_raw b s = (s\<lparr>cli_out := cli_out s @ b\<rparr>, Inr ())"

definition print_text :: "string \<Rightarrow> ('w, unit) cli" where
  "print_text t = print_raw (as_bytes t)"

definition eprintln :: "string \<Rightarrow> ('w, unit) cli" where
  "eprintln t s = (s\<lparr>cli_err := cli_err s @ as_bytes (line t)\<rparr>, Inr ())"

definition read_file :: "('h, 'sk, 'w) cli_env \<Rightarrow> string \<Rightarrow> ('w, bytes) cli" where
  "read_file C p s = (s, map_err FileError (ca_fs_read (cv_fault C) (cli_files s) p))"

definition write_file :: "('h, 'sk, 'w) cli_env \<Rightarrow> string \<Rightarrow> bytes \<Rightarrow> ('w, unit) cli" where
  "write_file C p b s =
     (case ca_fs_write (cv_fault C) (cli_files s) p b of
        (fs, r) \<Rightarrow> (s\<lparr>cli_files := fs\<rparr>, map_err FileError r))"

definition run_engine :: "('w \<Rightarrow> 'w \<times> (Error + 'a)) \<Rightarrow> ('w, 'a) cli" where
  "run_engine f s = (case f (cli_world s) of (w, r) \<Rightarrow> (s\<lparr>cli_world := w\<rparr>, map_err CliOrch r))"

text \<open>\<open>--out\<close>: into the file with a note on stderr, or to stdout.\<close>

definition write_or_print ::
    "('h, 'sk, 'w) cli_env \<Rightarrow> string option \<Rightarrow> bytes \<Rightarrow> (string \<Rightarrow> string) \<Rightarrow> ('w, unit) cli" where
  "write_or_print C out b note =
     (case out of
        Some p \<Rightarrow> cli_then (write_file C p b) (eprintln (note p))
      | None \<Rightarrow> print_raw b)"

definition print_json :: "string + string \<Rightarrow> ('w, unit) cli" where
  "print_json r = cli_bind (lift_res JsonError r) (\<lambda>t. print_text (line t))"

definition ping :: "('h, 'sk, 'w) cli_env \<Rightarrow> string \<Rightarrow> string \<Rightarrow> ('w, unit) cli" where
  "ping C base url =
     cli_bind (lift_res CliClient (healthy (cv_net C 0) (cv_json C) base)) (\<lambda>up.
     cli_bind (lift_res CliClient (tower_version (cv_net C 1) (cv_json C) base)) (\<lambda>v.
       print_text (line (url @ '' '' @ EM_DASH @ '' '' @ v_service v @ '' v'' @ v_version v @ '' ('' @
         (if up then ''healthy'' else ''unhealthy'') @ '')''))))"

section \<open>\<open>hub\<close>\<close>

definition run_hub :: "('h, 'sk, 'w) cli_env \<Rightarrow> string \<Rightarrow> HubCmd \<Rightarrow> ('w, unit) cli" where
  "run_hub C url cmd =
     (let H = cv_hash C; T = cv_net C 0; J = cv_json C; hub = TowerClient_new url in
      case cmd of
        HubPing \<Rightarrow> ping C hub url
      | HubPublishFile p \<Rightarrow>
          cli_bind (read_file C p) (\<lambda>b.
          cli_bind (lift_res CliClient (sc_publish_artifact T J hub b)) (\<lambda>aref.
            print_text (line (''inner '' @ ch_display H (ar_inner aref)) @
                        line (''outer '' @ ch_display H (ar_outer aref)) @
                        line (''size  '' @ nat_to_string (unat (ar_size aref))))))
      | HubGet hash out \<Rightarrow>
          cli_bind (lift_res (\<lambda>_. Bail (''invalid hash: '' @ hash)) (ch_from_str H hash)) (\<lambda>outer.
          cli_bind (lift_res CliClient (sc_get_blob H T hub outer)) (\<lambda>found.
          cli_bind (lift_res Bail (ok_or (''no blob '' @ ch_display H outer) found)) (\<lambda>b.
            write_or_print C out b (\<lambda>p. ''wrote '' @ nat_to_string (length b) @ '' bytes to '' @ p))))
      | HubChannel name device architecture json \<Rightarrow>
          cli_bind (lift_res CliClient (sc_channel_target_tree T J hub name device architecture)) (\<lambda>found.
          cli_bind (lift_res Bail (ok_or (''channel '' @ quoted name @ '' not found on '' @ url) found)) (\<lambda>tree.
            if json then print_json (cv_tree_json C tree) else print_text (print_tree H tree))))"

section \<open>\<open>ca\<close>\<close>

definition path_join :: "string \<Rightarrow> string \<Rightarrow> string" where
  "path_join d f =
     (if f \<noteq> [] \<and> hd f = CHR ''/'' then f
      else if d = [] \<or> last d = CHR ''/'' then d @ f
      else d @ ''/'' @ f)"

fun write_anchors ::
    "('h, 'sk, 'w) cli_env \<Rightarrow> string \<Rightarrow> (string \<times> string) list \<Rightarrow> string list \<Rightarrow> ('w, string list) cli" where
  "write_anchors C out [] written = cli_return written"
| "write_anchors C out ((name, pem) # as) written =
     (let path = path_join out (name @ ''-root.pem'') in
      cli_then (write_file C path (as_bytes pem)) (write_anchors C out as (written @ [path])))"

definition enroll_note :: "EnrollResponse \<Rightarrow> string" where
  "enroll_note resp =
     ''enrolled '' @ quoted (er_id resp) @ '' key '' @ quoted (er_key_id resp) @
     (case (er_serial resp, er_not_after resp) of
        (Some serial, Some na) \<Rightarrow> '' '' @ EM_DASH @ '' cert serial '' @ serial @ '' (expires '' @ na @ '')''
      | _ \<Rightarrow> '' (registration, no cert)'')"

definition run_enroll ::
    "('h, 'sk, 'w) cli_env \<Rightarrow> string \<Rightarrow> string \<Rightarrow> string \<Rightarrow> string \<Rightarrow> string option \<Rightarrow> ('w, unit) cli" where
  "run_enroll C ca i key_id csr out =
     cli_bind (read_file C csr) (\<lambda>csr_der.
     cli_bind (lift_res CliClient (ic_enroll (cv_net C 0) (cv_json C) ca i key_id csr_der)) (\<lambda>resp.
     cli_then
       (case er_certificate_pem resp of
          Some pem \<Rightarrow> write_or_print C out (as_bytes pem) (\<lambda>p. ''wrote device cert to '' @ p)
        | None \<Rightarrow> cli_return ())
       (eprintln (enroll_note resp))))"

text \<open>A failing \<open>chmod\<close> of the token file warns and goes on.\<close>

definition restrict_token :: "('h, 'sk, 'w) cli_env \<Rightarrow> string \<Rightarrow> ('w, unit) cli" where
  "restrict_token C p s =
     (case ca_fs_set_mode (cv_fault C) (cli_files s) p 384 of
        (fs, Inr _) \<Rightarrow> (s\<lparr>cli_files := fs\<rparr>, Inr ())
      | (fs, Inl e) \<Rightarrow>
          eprintln (''warning: failed to set 0600 on '' @ p @ '': '' @ e) (s\<lparr>cli_files := fs\<rparr>))"

definition run_bootstrap_token ::
    "('h, 'sk, 'w) cli_env \<Rightarrow> string \<Rightarrow> string \<Rightarrow> string option \<Rightarrow> bool \<Rightarrow> ('w, unit) cli" where
  "run_bootstrap_token C vm_id token_out state_out standalone =
     (let tok = generate_token (cv_rng C); sha = token_sha256_hex (cv_hash C) tok;
          yaml = (if standalone then bootstrap_yaml_document vm_id sha else bootstrap_yaml_fragment vm_id sha) in
      cli_then (write_file C token_out tok)
      (cli_then (restrict_token C token_out)
      (cli_then (eprintln (''wrote bootstrap token ('' @ nat_to_string (length tok) @ ''B) to '' @ token_out))
        (write_or_print C state_out (as_bytes yaml) (\<lambda>p. ''wrote '' @
           (if standalone then ''bootstrap.yaml'' else ''yaml fragment'') @ '' for vm_id='' @ vm_id @ '' ('' @
           nat_to_string (length yaml) @ '' bytes) to '' @ p)))))"

definition run_mint_cwt ::
    "('h, 'sk, 'w) cli_env \<Rightarrow> string \<Rightarrow> string \<Rightarrow> string \<Rightarrow> string \<Rightarrow> u64 \<Rightarrow> string \<Rightarrow> ('w, unit) cli" where
  "run_mint_cwt C signing_key vm_id issuer cnf_pub lifetime_secs output =
     cli_bind (read_file C signing_key) (\<lambda>signer_bytes.
     cli_bind (lift_res Bail (cv_cose_signing_key C signer_bytes)) (\<lambda>signer_sk.
     cli_bind (read_file C cnf_pub) (\<lambda>cnf_bytes.
     cli_bind (lift_res Bail (cv_cose_public_xy C cnf_bytes)) (\<lambda>(x, y).
     cli_bind (lift_res (\<lambda>e. Bail (''system time before epoch: '' @ e)) (cv_clock C)) (\<lambda>now_unix.
     let validity = from_now now_unix lifetime_secs; cti = map (cv_rng C) [0..<16] in
     cli_bind (lift_res Bail (mint_cwt (cv_vhsm C) cti signer_sk vm_id issuer x y validity)) (\<lambda>cwt.
     cli_then (write_file C output cwt)
     (cli_then (eprintln (''wrote CWT cert ('' @ nat_to_string (length cwt) @ '' bytes) for vm_id='' @ vm_id @
                          '' to '' @ output))
       (eprintln (''  issuer='' @ issuer @ ''  iat='' @ nat_to_string (unat (vw_iat validity)) @ ''  exp='' @
                  nat_to_string (unat (vw_exp validity)))))))))))"

definition run_ca :: "('h, 'sk, 'w) cli_env \<Rightarrow> string \<Rightarrow> CaCmd \<Rightarrow> ('w, unit) cli" where
  "run_ca C url cmd =
     (let H = cv_hash C; T = cv_net C 0; J = cv_json C; ca = TowerClient_new url in
      case cmd of
        CaPing \<Rightarrow> ping C ca url
      | CaRegisterCmd i model pubkey_file \<Rightarrow>
          cli_bind
            (case pubkey_file of
               Some p \<Rightarrow> cli_bind (read_file C p) (\<lambda>b.
                           cli_bind (lift_res FileError (cv_utf8 C b)) (\<lambda>t. cli_return (Some (trim t))))
             | None \<Rightarrow> cli_return None) (\<lambda>pubkey.
          cli_bind (lift_res CliClient
              (ic_register_device T J ca \<lparr>rd_id = i, rd_model = model, rd_pubkey = pubkey\<rparr>)) (\<lambda>dev.
            print_text (print_device dev)))
      | CaDevicesCmd \<Rightarrow>
          cli_bind (lift_res CliClient (ic_list_devices T J ca)) (\<lambda>devices.
            if devices = [] then print_text (line ''(no devices registered)'')
            else print_text (concat (map print_device_row devices)))
      | CaDeviceCmd i \<Rightarrow>
          cli_bind (lift_res CliClient (ic_get_device T J ca i)) (\<lambda>found.
          cli_bind (lift_res Bail (ok_or (''device '' @ quoted i @ '' not registered'') found)) (\<lambda>dev.
            print_text (print_device dev)))
      | CaEnrollCmd i key_id csr out \<Rightarrow> run_enroll C ca i key_id csr out
      | CaMintKeystoreCmd i hub_url out \<Rightarrow>
          cli_bind (lift_res CliClient (sc_signer_pubkey T (TowerClient_new hub_url))) (\<lambda>sw_pubkey.
          cli_bind (lift_res CliClient (ic_mint_keystore (cv_net C 1) ca i (hex_encode H sw_pubkey))) (\<lambda>suit.
            write_or_print C out suit (\<lambda>p.
              ''wrote keystore SUIT ('' @ nat_to_string (length suit) @ '' bytes) to '' @ p)))
      | CaCertCmd out \<Rightarrow>
          cli_bind (lift_res CliClient (ic_ca_cert T J ca)) (\<lambda>pem.
            write_or_print C out (as_bytes pem) (\<lambda>p. ''wrote identity-root CA cert to '' @ p))
      | CaTrustBundleCmd out \<Rightarrow>
          cli_bind (lift_res CliClient (ic_trust_bundle T J ca)) (\<lambda>bundle.
          cli_bind (case cv_fault C (CaCreateDir out) of
                      Some (e, _) \<Rightarrow> cli_fail (FileError e) | None \<Rightarrow> cli_return ()) (\<lambda>_.
          cli_bind (write_anchors C out (anchors bundle) []) (\<lambda>written.
          cli_then (eprintln (''wrote '' @ nat_to_string (length written) @ '' trust anchor(s) to '' @ out @ '':''))
            (foldr (\<lambda>p k. cli_then (eprintln (''  '' @ p)) k) written (cli_return ())))))
      | VhsmBootstrapToken vm_id token_out state_out standalone \<Rightarrow>
          run_bootstrap_token C vm_id token_out state_out standalone
      | VhsmMintCwt signing_key vm_id issuer cnf_pub lifetime_secs output \<Rightarrow>
          run_mint_cwt C signing_key vm_id issuer cnf_pub lifetime_secs output)"

section \<open>\<open>rig\<close>\<close>

definition unauthenticated_warning :: "string \<Rightarrow> string" where
  "unauthenticated_warning device_id =
     ''[sumo-provision] WARNING: no --token/--minter-url for device '' @ quoted device_id @ '' '' @ EM_DASH @
     '' connecting UNAUTHENTICATED. Unenforced ops go through; High-consequence '' @
     ''ops (reset) will 403. Provide --token <jwt> or --minter-url + '' @
     ''--operator-token to authenticate.''"

definition rig_token :: "AuthArgs \<Rightarrow> string \<Rightarrow> bool \<Rightarrow> bytes option \<Rightarrow> ('w, RigToken) cli" where
  "rig_token auth rig_url insecure ca_cert_pem =
     (case auth_token auth of
        Some t \<Rightarrow> cli_return (RigToken_fixed t)
      | None \<Rightarrow>
          (case auth_minter_url auth of
             Some minter_url \<Rightarrow>
               cli_bind (lift_res Bail (ok_or ''--minter-url requires --operator-token'' (auth_operator_token auth)))
                 (\<lambda>operator_token.
                    cli_return (RigToken_minting minter_url operator_token rig_url None insecure ca_cert_pem))
           | None \<Rightarrow>
               cli_then (eprintln (unauthenticated_warning (auth_device_id auth)))
                 (cli_return (RigToken_fixed []))))"

definition is_none_or :: "('a \<Rightarrow> bool) \<Rightarrow> 'a option \<Rightarrow> bool" where
  "is_none_or f x = (case x of None \<Rightarrow> True | Some y \<Rightarrow> f y)"

definition campaign_has_work :: "ApplyPlan \<Rightarrow> string option \<Rightarrow> bool" where
  "campaign_has_work plan only \<longleftrightarrow>
     list_ex (\<lambda>c. ca_ship c \<noteq> [] \<and> is_none_or (\<lambda>i. i = ca_entity c) only) (ap_components plan) \<or>
     list_ex (\<lambda>c. is_none_or (\<lambda>i. i = c) only) (ca_components (ap_assessment plan))"

definition campaign_deferred :: "ApplyPlan \<Rightarrow> string option \<Rightarrow> bool" where
  "campaign_deferred plan only \<longleftrightarrow>
     outcome (ap_assessment plan) = Deferred \<and>
     is_none_or (\<lambda>i. list_ex (\<lambda>c. c = i) (ca_components (ap_assessment plan))) only"

text \<open>What the operator is shown of the plan before anything is run.\<close>

definition campaign_report :: "ChannelSel \<Rightarrow> AuthArgs \<Rightarrow> ApplyPlan \<Rightarrow> string option \<Rightarrow> string" where
  "campaign_report sel auth plan only =
     (let shipping = filter (\<lambda>c. ca_ship c \<noteq> [] \<and> is_none_or (\<lambda>i. i = ca_entity c) only) (ap_components plan);
          singleshot = filter (\<lambda>c. ca_supports_rollback c = Some False) shipping;
          banked = filter (\<lambda>c. ca_supports_rollback c \<noteq> Some False) shipping in
      if shipping = []
      then line (''administrative-only or removal drift '' @ EM_DASH @ '' signed campaign still required'') @
           line (''Campaign '' @ EM_DASH @ '' apply administrative/removal change(s) to '' @
                 debug_strings (ca_components (ap_assessment plan)))
      else print_campaign (sel_channel sel) (auth_device_id auth) singleshot banked)"

definition unresolved_message :: "NodeUpdateState \<Rightarrow> string" where
  "unresolved_message ns =
     ''rig has an unresolved update transaction (phase '' @ nus_phase ns @ '', components '' @
     debug_strings (nus_components ns) @ '') '' @ EM_DASH @
     '' reboot the node, or commit/rollback the pending update (./commit.sh or '' @
     ''`rig rollback '' @ ELLIPSIS @ ''`), before re-running the campaign''"

definition campaign_closing :: "bool \<Rightarrow> ComponentFlashResult list \<Rightarrow> string" where
  "campaign_closing no_commit results =
     concat (map (\<lambda>r. line (''  '' @ cfr_entity r @ '' '' @ ARROW_RIGHT @ '' '' @ cfr_state r)) results) @
     line ([NL] @ ''campaign complete '' @ EM_DASH @ '' '' @
       (if no_commit then ''banked components in trial; commit when healthy (./commit.sh).''
        else ''each healthy step committed.''))"

text \<open>The part behind \<open>--execute\<close>: the node must have no open transaction.\<close>

definition campaign_run ::
    "('h, 'sk, 'w) cli_env \<Rightarrow> string \<Rightarrow> bool \<Rightarrow> bytes option \<Rightarrow> ChannelSel \<Rightarrow> string \<Rightarrow> string \<Rightarrow> AuthArgs \<Rightarrow> bool
      \<Rightarrow> string option \<Rightarrow> ('w, unit) cli" where
  "campaign_run C url insecure pem sel hub_url ca_url auth no_commit only =
     cli_bind (lift_res CliOrch (node_update_state (cv_rig C 1) url insecure pem)) (\<lambda>ns.
     if is_unresolved ns then cli_fail (Bail (unresolved_message ns))
     else
       cli_bind (rig_token auth url insecure pem) (\<lambda>tok.
       cli_bind (run_engine (campaign_execute (cv_hash C) (cv_rig C 2) (cv_suit C) (cv_net C 2) (cv_json C)
           (cv_engine C) url hub_url ca_url (sel_target sel) (auth_device_id auth) no_commit tok insecure pem
           (map_option (\<lambda>i. [i]) only))) (\<lambda>results.
         print_text (campaign_closing no_commit results))))"

definition run_campaign_cmd ::
    "('h, 'sk, 'w) cli_env \<Rightarrow> string \<Rightarrow> bool \<Rightarrow> bytes option \<Rightarrow> ChannelSel \<Rightarrow> string \<Rightarrow> string \<Rightarrow> AuthArgs \<Rightarrow> bool
      \<Rightarrow> bool \<Rightarrow> string option \<Rightarrow> ('w, unit) cli" where
  "run_campaign_cmd C url insecure pem sel hub_url ca_url auth execute no_commit only =
     cli_bind (lift_res CliOrch (apply_plan (cv_hash C) (cv_rig C 0) (cv_net C 0) (cv_json C) url hub_url
         (sel_target sel) None insecure pem)) (\<lambda>plan.
     if campaign_deferred plan only
     then cli_fail (Bail (''campaign deferred: desired component(s) '' @
            debug_strings (ca_components (ap_assessment plan)) @ '' are not advertised by the device''))
     else if \<not> campaign_has_work plan only
     then print_text (line (''up to date '' @ EM_DASH @ '' nothing to flash for channel '' @
            quoted (sel_channel sel)))
     else
       cli_then (print_text (campaign_report sel auth plan only))
         (if \<not> execute
          then print_text (line ([NL] @ ''(plan only '' @ EM_DASH @
                 '' re-run with --execute to run the campaign)''))
          else campaign_run C url insecure pem sel hub_url ca_url auth no_commit only))"

definition run_flash_cmd ::
    "('h, 'sk, 'w) cli_env \<Rightarrow> string \<Rightarrow> bool \<Rightarrow> bytes option \<Rightarrow> ChannelSel \<Rightarrow> string \<Rightarrow> string \<Rightarrow> AuthArgs
      \<Rightarrow> string option \<Rightarrow> bool \<Rightarrow> bool \<Rightarrow> ('w, unit) cli" where
  "run_flash_cmd C url insecure pem sel hub_url ca_url auth only execute json =
     (let H = cv_hash C; R = cv_rig C 0; T = cv_net C 0; J = cv_json C; target = sel_target sel;
          only_slice = map_option (\<lambda>i. [i]) only in
      if execute then
        cli_bind (rig_token auth url insecure pem) (\<lambda>tok.
        cli_bind (run_engine (flash_execute H R (cv_suit C) T J (cv_engine C) url hub_url ca_url target
            (auth_device_id auth) only_slice False tok insecure pem)) (\<lambda>result.
          if json then print_json (cv_result_json C result) else print_text (print_flash_result result True)))
      else
        cli_bind (lift_res CliOrch (flash_bundle H R T J url hub_url ca_url target (auth_device_id auth)
            only_slice insecure pem)) (\<lambda>bundle.
          if json then print_json (cv_bundle_json C bundle) else print_text (print_bundle H bundle)))"

definition run_diff_cmd ::
    "('h, 'sk, 'w) cli_env \<Rightarrow> string \<Rightarrow> bool \<Rightarrow> bytes option \<Rightarrow> string option \<Rightarrow> string option \<Rightarrow> string option
      \<Rightarrow> string option \<Rightarrow> string \<Rightarrow> bool \<Rightarrow> ('w, unit) cli" where
  "run_diff_cmd C url insecure pem release channel device architecture hub_url plan =
     cli_bind (lift_res CliOrch (read_rig_state (cv_hash C) (cv_rig C 0) url insecure pem)) (\<lambda>observed.
     cli_bind
       (case (release, channel) of
          (Some path, _) \<Rightarrow> cli_bind (read_file C path) (\<lambda>b. lift_res JsonError (cv_tree_of_json C b))
        | (None, Some name) \<Rightarrow>
            cli_bind (lift_res CliClient (sc_channel_target_tree (cv_net C 1) (cv_json C)
                (TowerClient_new hub_url) name device architecture)) (\<lambda>found.
              lift_res Bail (ok_or (''channel '' @ quoted name @ '' not found on '' @ hub_url) found))
        | (None, None) \<Rightarrow> cli_fail (CliPanic ''clap requires --release or --channel'')) (\<lambda>desired.
       if plan then print_text (print_plan (cv_hash C) (flash_plan observed desired))
       else print_text (print_diff (diff observed desired))))"

text \<open>The verdict commands share their shape: a token, one engine call, one line.\<close>

definition run_verdict ::
    "AuthArgs \<Rightarrow> string \<Rightarrow> bool \<Rightarrow> bytes option \<Rightarrow> (RigToken \<Rightarrow> 'w \<Rightarrow> 'w \<times> (Error + 'a)) \<Rightarrow> ('a \<Rightarrow> string)
      \<Rightarrow> ('w, unit) cli" where
  "run_verdict auth url insecure pem act note =
     cli_bind (rig_token auth url insecure pem) (\<lambda>tok.
     cli_bind (run_engine (act tok)) (\<lambda>r. print_text (line (note r))))"

definition run_install_keystore ::
    "('h, 'sk, 'w) cli_env \<Rightarrow> string \<Rightarrow> bool \<Rightarrow> bytes option \<Rightarrow> string \<Rightarrow> string \<Rightarrow> AuthArgs \<Rightarrow> ('w, unit) cli" where
  "run_install_keystore C url insecure pem suit hub_url auth =
     cli_bind (rig_token auth url insecure pem) (\<lambda>tok.
     cli_bind (read_file C suit) (\<lambda>suit_bytes.
     cli_bind (lift_res CliClient (sc_signer_pubkey (cv_net C 0) (TowerClient_new hub_url))) (\<lambda>trust_anchor.
     cli_bind (run_engine (flash_keystore (cv_engine C) url suit_bytes trust_anchor tok insecure pem)) (\<lambda>result.
       print_text (concat (map (\<lambda>c. line (''hsm keystore '' @ ARROW_RIGHT @ '' '' @ cfr_state c))
                     (fr_components result)) @
                   line (''keystore installed '' @ EM_DASH @
                         '' the rig now trusts Tower 2'' @ [QUOTE] @ ''s signer; flash firmware next.''))))))"

definition run_rig ::
    "('h, 'sk, 'w) cli_env \<Rightarrow> string \<Rightarrow> RigCmd \<Rightarrow> bool \<Rightarrow> bytes option \<Rightarrow> ('w, unit) cli" where
  "run_rig C url cmd insecure pem =
     (let H = cv_hash C; R = cv_rig C 0; E = cv_engine C in
      case cmd of
        RigState json \<Rightarrow>
          cli_bind (lift_res CliOrch (read_rig_state H R url insecure pem)) (\<lambda>observed.
            if json then print_json (cv_tree_json C observed) else print_text (print_tree H observed))
      | RigDiff release channel device architecture hub_url plan \<Rightarrow>
          run_diff_cmd C url insecure pem release channel device architecture hub_url plan
      | RigApply sel hub_url json \<Rightarrow>
          cli_bind (lift_res CliOrch (apply_plan H R (cv_net C 0) (cv_json C) url hub_url (sel_target sel) None
              insecure pem)) (\<lambda>plan.
            if json then print_json (cv_plan_json C plan) else print_text (print_apply H plan))
      | RigFlash sel hub_url ca_url auth only execute json \<Rightarrow>
          run_flash_cmd C url insecure pem sel hub_url ca_url auth only execute json
      | RigCampaign sel hub_url ca_url auth execute no_commit only \<Rightarrow>
          run_campaign_cmd C url insecure pem sel hub_url ca_url auth execute no_commit only
      | RigCommit component update auth \<Rightarrow>
          run_verdict auth url insecure pem (\<lambda>tok. flash_commit E url component update tok insecure pem)
            (\<lambda>st. component @ '' committed '' @ ARROW_RIGHT @ '' '' @ st)
      | RigRollback component update auth \<Rightarrow>
          run_verdict auth url insecure pem (\<lambda>tok. flash_rollback E url component update tok insecure pem)
            (\<lambda>st. component @ '' rolled back '' @ ARROW_RIGHT @ '' '' @ st)
      | RigCommitTrials auth \<Rightarrow>
          run_verdict auth url insecure pem (\<lambda>tok. flash_commit_trials E url tok insecure pem)
            (\<lambda>_. ''node trials committed (the update session is the commit unit)'')
      | RigRollbackTrials auth \<Rightarrow>
          run_verdict auth url insecure pem (\<lambda>tok. flash_rollback_trials E url tok insecure pem)
            (\<lambda>_. ''node trials rolled back'')
      | RigReset component update auth \<Rightarrow>
          run_verdict auth url insecure pem (\<lambda>tok. flash_reset E url component update tok insecure pem)
            (\<lambda>st. component @ '' reset '' @ ARROW_RIGHT @ '' '' @ st)
      | RigInstallKeystore suit hub_url auth \<Rightarrow>
          run_install_keystore C url insecure pem suit hub_url auth)"

section \<open>\<open>main\<close>\<close>

text \<open>The pinned CA root is read before anything else.\<close>

definition cli_main :: "('h, 'sk, 'w) cli_env \<Rightarrow> CliArgs \<Rightarrow> ('w, unit) cli" where
  "cli_main C a =
     cli_bind
       (case cli_cacert a of
          Some path \<Rightarrow> (\<lambda>s. (s, map_err (\<lambda>e. Bail (''reading --cacert '' @ path @ '': '' @ e))
                              (try_bind (ca_fs_read (cv_fault C) (cli_files s) path) (\<lambda>b. Inr (Some b)))))
        | None \<Rightarrow> cli_return None) (\<lambda>pem.
     case cli_command a of
       HubC url cmd \<Rightarrow> run_hub C url cmd
     | CaC url cmd \<Rightarrow> run_ca C url cmd
     | RigC url cmd \<Rightarrow> run_rig C url cmd (cli_insecure a) pem)"

end
