(* ===== verification/Cli_Props.thy ===== *)
theory Cli_Props
  imports Cli Campaign_Props Reference_Crates
begin

text \<open>
  What the operator's commands promise: which of them can reach the rig and under which
  conditions, what a bootstrap token leaves on disk, what an off-box CWT says.
\<close>

section \<open>Frames\<close>

text \<open>A preorder on states that the basic effects keep is kept by every command built from them.\<close>

locale cli_frame =
  fixes rel :: "'w cli_state \<Rightarrow> 'w cli_state \<Rightarrow> bool"
  assumes rel_refl: "rel s s"
    and rel_trans: "rel s t \<Longrightarrow> rel t u \<Longrightarrow> rel s u"
begin

definition frames :: "('w, 'a) cli \<Rightarrow> bool" where
  "frames m \<longleftrightarrow> (\<forall>s. rel s (fst (m s)))"

lemma framesD: "frames m \<Longrightarrow> rel s (fst (m s))"
  by (simp add: frames_def)

lemma frames_return [intro!]: "frames (cli_return x)"
  by (simp add: frames_def cli_return_def rel_refl)

lemma frames_fail [intro!]: "frames (cli_fail e)"
  by (simp add: frames_def cli_fail_def rel_refl)

lemma frames_lift [intro!]: "frames (lift_res f r)"
  by (simp add: frames_def lift_res_def rel_refl)

lemma frames_read [intro!]: "frames (read_file C p)"
  by (simp add: frames_def read_file_def rel_refl)

lemma frames_bind [intro!]:
  assumes "frames m" "\<And>x. frames (f x)"
  shows "frames (cli_bind m f)"
  unfolding frames_def
proof
  fix s
  obtain s1 r where m: "m s = (s1, r)"
    by (cases "m s")
  have 1: "rel s s1"
    using assms(1) m by (auto simp: frames_def dest: spec [of _ s])
  show "rel s (fst (cli_bind m f s))"
  proof (cases r)
    case (Inl e)
    then show ?thesis
      using 1 m by (simp add: cli_bind_def)
  next
    case (Inr x)
    have "rel s1 (fst (f x s1))"
      using assms(2) by (simp add: frames_def)
    then show ?thesis
      using 1 m Inr rel_trans by (simp add: cli_bind_def)
  qed
qed

lemma frames_then [intro!]: "frames m \<Longrightarrow> frames k \<Longrightarrow> frames (cli_then m k)"
  unfolding cli_then_def by (rule frames_bind)

lemma frames_if [intro!]: "(c \<Longrightarrow> frames a) \<Longrightarrow> (\<not> c \<Longrightarrow> frames b) \<Longrightarrow> frames (if c then a else b)"
  by simp

lemma frames_case_option [intro!]:
  "(x = None \<Longrightarrow> frames n) \<Longrightarrow> (\<And>y. x = Some y \<Longrightarrow> frames (f y)) \<Longrightarrow> frames (case x of None \<Rightarrow> n | Some y \<Rightarrow> f y)"
  by (cases x) simp_all

lemma frames_case_prod [intro!]: "(\<And>a b. frames (f a b)) \<Longrightarrow> frames (case p of (a, b) \<Rightarrow> f a b)"
  by (cases p) simp

end

locale cli_output_frame = cli_frame +
  assumes rel_out: "rel s (s\<lparr>cli_out := cli_out s @ b\<rparr>)"
    and rel_err: "rel s (s\<lparr>cli_err := cli_err s @ b\<rparr>)"
begin

lemma frames_print_raw [intro!]: "frames (print_raw b)"
  by (simp add: frames_def print_raw_def rel_out)

lemma frames_print_text [intro!]: "frames (print_text t)"
  by (simp add: print_text_def frames_print_raw)

lemma frames_eprintln [intro!]: "frames (eprintln t)"
  by (simp add: frames_def eprintln_def rel_err)

lemma frames_print_json [intro!]: "frames (print_json r)"
  unfolding print_json_def by blast

lemma frames_ping [intro!]: "frames (ping C base url)"
  unfolding ping_def by blast

lemma frames_rig_token [intro!]: "frames (rig_token auth url insecure pem)"
  unfolding rig_token_def by auto

lemma frames_diff [intro!]: "frames (run_diff_cmd C url insecure pem release channel device arch hub_url plan)"
  unfolding run_diff_cmd_def by auto

lemma frames_dry_campaign:
  "frames (run_campaign_cmd C url insecure pem sel hub_url ca_url auth False no_commit only)"
  unfolding run_campaign_cmd_def by auto

lemma frames_dry_flash:
  "frames (run_flash_cmd C url insecure pem sel hub_url ca_url auth only False json)"
  unfolding run_flash_cmd_def Let_def by auto

end

text \<open>The rig behind the engine is not touched; the operator's files are not touched.\<close>

definition same_world :: "'w cli_state \<Rightarrow> 'w cli_state \<Rightarrow> bool" where
  "same_world s t \<longleftrightarrow> cli_world t = cli_world s"

definition same_files :: "'w cli_state \<Rightarrow> 'w cli_state \<Rightarrow> bool" where
  "same_files s t \<longleftrightarrow> cli_files t = cli_files s"

interpretation wf: cli_output_frame same_world
  by unfold_locales (auto simp: same_world_def)

interpretation ff: cli_output_frame same_files
  by unfold_locales (auto simp: same_files_def)

lemma world_write_file [intro!]: "wf.frames (write_file C p b)"
  by (auto simp: wf.frames_def same_world_def write_file_def split: prod.splits)

lemma world_write_or_print [intro!]: "wf.frames (write_or_print C out b note)"
  unfolding write_or_print_def by auto

lemma world_restrict [intro!]: "wf.frames (restrict_token C p)"
  by (auto simp: wf.frames_def same_world_def restrict_token_def eprintln_def split: prod.splits sum.splits)

lemma world_anchors [intro!]: "wf.frames (write_anchors C out as written)"
  by (induction as arbitrary: written) (auto simp: Let_def)

lemma world_notes [intro!]:
  "wf.frames (foldr (\<lambda>p k. cli_then (eprintln (f p)) k) written (cli_return ()))"
  by (induction written) auto

lemma world_run_hub: "wf.frames (run_hub C url cmd)"
  unfolding run_hub_def Let_def by (cases cmd) auto

lemma world_run_ca: "wf.frames (run_ca C url cmd)"
  unfolding run_ca_def Let_def
  by (cases cmd) (auto simp: run_enroll_def run_bootstrap_token_def run_mint_cwt_def Let_def)

text \<open>The commands that drive the flash engine.\<close>

fun drives_engine :: "RigCmd \<Rightarrow> bool" where
  "drives_engine (RigFlash sel hub_url ca_url auth only execute json) = execute"
| "drives_engine (RigCampaign sel hub_url ca_url auth execute no_commit only) = execute"
| "drives_engine (RigState json) = False"
| "drives_engine (RigDiff release channel device architecture hub_url plan) = False"
| "drives_engine (RigApply sel hub_url json) = False"
| "drives_engine _ = True"

lemma world_dry_rig: "\<not> drives_engine cmd \<Longrightarrow> wf.frames (run_rig C url cmd insecure pem)"
  unfolding run_rig_def Let_def
  by (cases cmd) (auto intro: wf.frames_dry_campaign wf.frames_dry_flash)

lemma files_dry_rig: "\<not> drives_engine cmd \<Longrightarrow> ff.frames (run_rig C url cmd insecure pem)"
  unfolding run_rig_def Let_def
  by (cases cmd) (auto intro: ff.frames_dry_campaign ff.frames_dry_flash)

section \<open>The campaign gate\<close>

lemma cli_bind_Pair:
  "cli_bind m f s = (s', r) \<longleftrightarrow>
     (\<exists>e. m s = (s', Inl e) \<and> r = Inl e) \<or> (\<exists>s1 x. m s = (s1, Inr x) \<and> f x s1 = (s', r))"
  by (auto simp: cli_bind_def split: prod.splits sum.splits)

lemma rig_token_world: "rig_token auth url insecure pem s = (s', r) \<Longrightarrow> cli_world s' = cli_world s"
  using wf.framesD [OF wf.frames_rig_token, of s auth url insecure pem] by (simp add: same_world_def)

lemma rig_token_refused:
  assumes "rig_token auth url insecure pem s = (s', Inr tok)"
  shows "auth_token auth \<noteq> None \<or> auth_minter_url auth = None \<or> auth_operator_token auth \<noteq> None"
  using assms
  by (cases "auth_operator_token auth")
    (auto simp: rig_token_def cli_bind_def lift_res_def ok_or_def map_err_def split: option.splits)

lemma list_all2_member2: "list_all2 P xs ys \<Longrightarrow> y \<in> set ys \<Longrightarrow> \<exists>x \<in> set xs. P x y"
  by (induction rule: list_all2_induct) auto

lemma l1_flash_plan_jobs:
  assumes "l1_flash_plan H R S T J rig_url hub_url ca_url target device_id allow insecure pem = Inr (jobs, anchor, observed)"
    and "j \<in> set jobs"
  shows "(case allow of Some a \<Rightarrow> job_component_id j \<in> set a | None \<Rightarrow> True) \<and>
         bt_contains_key (entities observed) (job_component_id j)"
proof -
  define fetch where "fetch = fetch_ciphertext H T (TowerClient_new hub_url)"
  obtain cs where "l1_jobs fetch cs observed allow [] = Inr jobs \<or> jobs = []"
    using assms(1)
    by (cases "read_rig_state H R rig_url insecure pem")
      (auto simp: l1_flash_plan_def Let_def res_simps fetch_def split: if_splits)
  with assms(2) have "traverse (l1_job fetch observed) (filter (job_selected observed allow) cs) = Inr jobs"
    by (auto simp: l1_jobs_closed res_simps)
  then have "list_all2 (\<lambda>c j. l1_job fetch observed c = Inr j) (filter (job_selected observed allow) cs) jobs"
    by (simp add: traverse_Inr_iff)
  from list_all2_member2 [OF this assms(2)] obtain c where
    c: "job_selected observed allow c" and j: "l1_job fetch observed c = Inr j"
    by auto
  from l1_job_ok [OF j] have "job_component_id j = l1c_component c"
    by (simp add: job_of_def)
  with c show ?thesis
    by (cases allow) (auto simp: job_selected_def bt_contains_key_def)
qed

lemma campaign_execute_world:
  assumes "campaign_execute H R S T J E rig_url hub_url ca_url target device_id no_commit tok insecure pem allow w = (w', r)"
    and "w' \<noteq> w"
  shows "\<exists>jobs anchor observed res.
     l1_flash_plan H R S T J rig_url hub_url ca_url target device_id allow insecure pem = Inr (jobs, anchor, observed) \<and>
     jobs \<noteq> [] \<and>
     eng_run_campaign E (FlashEngine_new rig_url tok anchor insecure pem) (campaign_steps observed jobs) no_commit w = (w', res)"
  using assms
  by (auto simp: campaign_execute_def split: sum.splits prod.splits if_splits option.splits)

lemma campaign_run_world:
  assumes "campaign_run C url insecure pem sel hub_url ca_url auth no_commit only s = (s', r)"
    and "cli_world s' \<noteq> cli_world s"
  shows "\<exists>ns tok s1 res. node_update_state (cv_rig C 1) url insecure pem = Inr ns \<and> \<not> is_unresolved ns \<and>
     rig_token auth url insecure pem s = (s1, Inr tok) \<and>
     campaign_execute (cv_hash C) (cv_rig C 2) (cv_suit C) (cv_net C 2) (cv_json C) (cv_engine C) url hub_url ca_url
       (sel_target sel) (auth_device_id auth) no_commit tok insecure pem (map_option (\<lambda>i. [i]) only) (cli_world s) =
     (cli_world s', res)"
proof (cases "node_update_state (cv_rig C 1) url insecure pem")
  case (Inl e)
  then show ?thesis
    using assms by (simp add: campaign_run_def cli_bind_def lift_res_def map_err_def)
next
  case (Inr ns)
  obtain s1 rt where t: "rig_token auth url insecure pem s = (s1, rt)"
    by (cases "rig_token auth url insecure pem s")
  note w = rig_token_world [OF t]
  show ?thesis
  proof (cases "is_unresolved ns")
    case True
    then show ?thesis
      using assms Inr by (simp add: campaign_run_def cli_bind_def lift_res_def map_err_def cli_fail_def)
  next
    case res: False
    show ?thesis
    proof (cases rt)
      case (Inl e)
      then show ?thesis
        using assms Inr res t w by (simp add: campaign_run_def cli_bind_def lift_res_def map_err_def)
    next
      case tok: (Inr tok)
      obtain w' r' where ex: "campaign_execute (cv_hash C) (cv_rig C 2) (cv_suit C) (cv_net C 2) (cv_json C)
          (cv_engine C) url hub_url ca_url (sel_target sel) (auth_device_id auth) no_commit tok insecure pem
          (map_option (\<lambda>i. [i]) only) (cli_world s1) = (w', r')"
        by (rule prod.exhaust)
      then have "cli_world s' = w'"
        using assms(1) Inr res t tok
        by (cases r') (auto simp: campaign_run_def cli_bind_def lift_res_def map_err_def run_engine_def
            print_text_def print_raw_def)
      then show ?thesis
        using Inr res t tok ex w by auto
    qed
  qed
qed

text \<open>C11. The campaign gate: \<open>rig campaign\<close> reaches the flash engine only with \<open>--execute\<close>, for a plan
  that is not deferred for the selected components and has work for them, on a node that
  reports no open transaction (neither a reboot owed nor a trial without verdict), and with a
  bearer when a minter is named. What it then hands over are the campaign steps of a non-empty
  job list, every job for a component the rig advertises, and with \<open>--only\<close> for that component
  alone, with the operator's choice about committing.\<close>

theorem campaign_gate:
  assumes "run_campaign_cmd C url insecure pem sel hub_url ca_url auth execute no_commit only s = (s', r)"
    and "cli_world s' \<noteq> cli_world s"
  shows "execute \<and> (auth_token auth \<noteq> None \<or> auth_minter_url auth = None \<or> auth_operator_token auth \<noteq> None) \<and>
    (\<exists>plan ns jobs anchor observed tok res.
       apply_plan (cv_hash C) (cv_rig C 0) (cv_net C 0) (cv_json C) url hub_url (sel_target sel) None insecure pem = Inr plan \<and>
       \<not> campaign_deferred plan only \<and> campaign_has_work plan only \<and>
       node_update_state (cv_rig C 1) url insecure pem = Inr ns \<and> nus_phase ns \<notin> {''RebootPending'', ''Trial''} \<and>
       jobs \<noteq> [] \<and>
       (\<forall>j \<in> set jobs. bt_contains_key (entities observed) (job_component_id j) \<and>
          (only = None \<or> only = Some (job_component_id j))) \<and>
       eng_run_campaign (cv_engine C) (FlashEngine_new url tok anchor insecure pem) (campaign_steps observed jobs)
         no_commit (cli_world s) = (cli_world s', res))"
proof -
  let ?plan = "apply_plan (cv_hash C) (cv_rig C 0) (cv_net C 0) (cv_json C) url hub_url
      (sel_target sel) None insecure pem"
  obtain plan where plan: "?plan = Inr plan"
    using assms by (cases ?plan) (auto simp: run_campaign_cmd_def cli_bind_def lift_res_def map_err_def)
  define s1 where "s1 = s\<lparr>cli_out := cli_out s @ as_bytes (campaign_report sel auth plan only)\<rparr>"
  have gate: "\<not> campaign_deferred plan only" "campaign_has_work plan only" "execute"
    and run: "campaign_run C url insecure pem sel hub_url ca_url auth no_commit only s1 = (s', r)"
    using assms plan
    by (auto simp: run_campaign_cmd_def cli_then_def cli_bind_def lift_res_def map_err_def cli_fail_def print_text_def
        print_raw_def s1_def split: if_splits)
  have w1: "cli_world s1 = cli_world s"
    by (simp add: s1_def)
  from campaign_run_world [OF run] w1 assms(2) obtain ns tok s2 res where
    ns: "node_update_state (cv_rig C 1) url insecure pem = Inr ns" "\<not> is_unresolved ns"
    and tok: "rig_token auth url insecure pem s1 = (s2, Inr tok)"
    and ex: "campaign_execute (cv_hash C) (cv_rig C 2) (cv_suit C) (cv_net C 2) (cv_json C) (cv_engine C) url hub_url
      ca_url (sel_target sel) (auth_device_id auth) no_commit tok insecure pem (map_option (\<lambda>i. [i]) only)
      (cli_world s1) = (cli_world s', res)"
    by auto
  from campaign_execute_world [OF ex] w1 assms(2) obtain jobs anchor observed res' where
    fp: "l1_flash_plan (cv_hash C) (cv_rig C 2) (cv_suit C) (cv_net C 2) (cv_json C) url hub_url ca_url (sel_target sel)
      (auth_device_id auth) (map_option (\<lambda>i. [i]) only) insecure pem = Inr (jobs, anchor, observed)"
    and jobs: "jobs \<noteq> []"
    and eng: "eng_run_campaign (cv_engine C) (FlashEngine_new url tok anchor insecure pem)
      (campaign_steps observed jobs) no_commit (cli_world s) = (cli_world s', res')"
    by auto
  have each: "\<forall>j \<in> set jobs. bt_contains_key (entities observed) (job_component_id j) \<and>
      (only = None \<or> only = Some (job_component_id j))"
    using l1_flash_plan_jobs [OF fp] by (cases only) auto
  have phase: "nus_phase ns \<notin> {''RebootPending'', ''Trial''}"
    using ns(2) by (simp add: is_unresolved_def)
  show ?thesis
    using plan gate ns(1) phase jobs each eng rig_token_refused [OF tok] by blast
qed

text \<open>C29. Everything else is a dry run: the \<open>hub\<close> and \<open>ca\<close> commands and every \<open>rig\<close> command other than
  an executed flash or campaign, a verdict, a reset or the keystore install leave the rig as
  it is, whatever the network answers; and such a \<open>rig\<close> command writes no file either.\<close>

theorem dry_commands_touch_nothing:
  assumes "case cli_command a of RigC url cmd \<Rightarrow> \<not> drives_engine cmd | _ \<Rightarrow> True"
  shows "cli_world (fst (cli_main C a s)) = cli_world s \<and>
    ((\<exists>url cmd. cli_command a = RigC url cmd) \<longrightarrow> cli_files (fst (cli_main C a s)) = cli_files s)"
proof -
  have keep: "rel s (fst (cli_main C a s))"
    if refl: "\<And>t. rel t t" and cmds: "\<And>pem t. rel t (fst ((case cli_command a of
       HubC url cmd \<Rightarrow> run_hub C url cmd | CaC url cmd \<Rightarrow> run_ca C url cmd
     | RigC url cmd \<Rightarrow> run_rig C url cmd (cli_insecure a) pem) t))" for rel
    using refl cmds
    by (auto simp: cli_main_def cli_bind_def cli_return_def split: option.splits prod.splits sum.splits)
  have w: "same_world s (fst (cli_main C a s))"
  proof (rule keep)
    fix pem t
    show "same_world t (fst ((case cli_command a of
       HubC url cmd \<Rightarrow> run_hub C url cmd | CaC url cmd \<Rightarrow> run_ca C url cmd
     | RigC url cmd \<Rightarrow> run_rig C url cmd (cli_insecure a) pem) t))"
      using assms
      by (cases "cli_command a")
        (simp_all add: wf.framesD world_run_hub world_run_ca world_dry_rig)
  qed (simp add: same_world_def)
  have f: "same_files s (fst (cli_main C a s))" if "cli_command a = RigC url cmd" for url cmd
  proof (rule keep)
    fix pem t
    show "same_files t (fst ((case cli_command a of
       HubC url cmd \<Rightarrow> run_hub C url cmd | CaC url cmd \<Rightarrow> run_ca C url cmd
     | RigC url cmd \<Rightarrow> run_rig C url cmd (cli_insecure a) pem) t))"
      using assms that by (simp add: ff.framesD files_dry_rig)
  qed (simp add: same_files_def)
  show ?thesis
    using w f by (auto simp: same_world_def same_files_def)
qed

section \<open>An operator's session\<close>

text \<open>A rig with one component that has no manifest, a tower that wants one part on it, and an
  engine whose world counts its campaigns.\<close>

definition ex_cli_rig :: rig_api where
  "ex_cli_rig = (ex_rig_api ''b1'')\<lparr>
     device_get := (\<lambda>_ _ _. Inr \<lparr>rs_status = 404, rs_body = []\<rparr>),
     sovd_list_components := (\<lambda>_. Inr [\<lparr>sovc_id = ''vm1'', sovc_type = None\<rparr>]),
     sovd_read_data := (\<lambda>_ _ _. Inl (ServerError 404 []))\<rparr>"

definition ex_cli_transport :: transport where
  "ex_cli_transport rq =
     (if strip_prefix ''http://hub/admin/artifacts/'' (rq_url rq) \<noteq> None then Inr \<lparr>rs_status = 404, rs_body = []\<rparr>
      else if rq_url rq = ''http://hub/channel-targets/l1'' then Inr \<lparr>rs_status = 200, rs_body = [3]\<rparr>
      else Inr \<lparr>rs_status = 200, rs_body = []\<rparr>)"

definition ex_cli_json :: json_api where
  "ex_cli_json = ex_json\<lparr>
     de_tree := (\<lambda>_. Inr \<lparr>entities = [(''vm1'', Entity_default\<lparr>e_parts := [ex_part ''kernel'' 3]\<rparr>)]\<rparr>),
     de_device := (\<lambda>_. Inr \<lparr>d_id = ''vin'', d_model = None, d_status = ''enrolled'', d_pubkey = Some ''0a'',
       d_ecu_id = None\<rparr>)\<rparr>"

definition ex_cli_suit :: suit_api where
  "ex_cli_suit = \<lparr>decode_envelope = (\<lambda>b. Inr \<lparr>su_payloads = (if b = [3] then [(''#vm1'', [9])] else []),
     su_disable_target = None, su_has_firmware = True, su_components = []\<rparr>), from_utf8_lossy = (\<lambda>_. [])\<rparr>"

definition ex_cli_engine :: "nat engine_api" where
  "ex_cli_engine = \<lparr>eng_guard = (\<lambda>_ _ w. (w, Inr ())), eng_stage_all = (\<lambda>_ _ w. (w, Inr [])),
     eng_reset_all = (\<lambda>_ _ w. (w, Inr [])), eng_run_campaign = (\<lambda>_ _ _ w. (Suc w, Inr [])),
     eng_commit_all = (\<lambda>_ _ w. (w, Inr [])), eng_rollback_all = (\<lambda>_ _ w. (w, Inr [])),
     eng_commit_node_trials = (\<lambda>_ w. (w, Inr ())), eng_rollback_node_trials = (\<lambda>_ w. (w, Inr ())),
     ecu_state_text = (\<lambda>_. [])\<rparr>"

definition ex_vhsm :: "nat vhsm_api" where
  "ex_vhsm = \<lparr>CLAIM_ISS = 1, CLAIM_SUB = 2, CLAIM_AUD = 3, CLAIM_EXP = 4, CLAIM_NBF = 5, CLAIM_IAT = 6,
     CLAIM_CTI = 7, CLAIM_CNF = 8, COSE_KEY_EC2_CRV = - 1, COSE_KEY_EC2_X = - 2, COSE_KEY_EC2_Y = - 3,
     CURVE_P256 = 1, VHSM_AUDIENCE = ''vhsm'', cose_key_to_cbor = (\<lambda>_. Inr (CborMap [])),
     cbor_into_writer = (\<lambda>_. Inr [1]), cose_sign1_tbs = (\<lambda>_ p _. p), ecdsa_sign = (\<lambda>_ b. b),
     cose_sign1_to_vec = (\<lambda>_ p s. Inr (p @ s))\<rparr>"

definition ex_cli :: "(bytes, nat, nat) cli_env" where
  "ex_cli = \<lparr>cv_hash = ref_hash, cv_net = (\<lambda>_. ex_cli_transport), cv_json = ex_cli_json, cv_rig = (\<lambda>_. ex_cli_rig),
     cv_suit = ex_cli_suit, cv_engine = ex_cli_engine, cv_fault = (\<lambda>_. None), cv_utf8 = (\<lambda>_. Inr []),
     cv_tree_of_json = (\<lambda>_. Inl []), cv_tree_json = (\<lambda>_. Inr []), cv_plan_json = (\<lambda>_. Inr []),
     cv_bundle_json = (\<lambda>_. Inr []), cv_result_json = (\<lambda>_. Inr []), cv_vhsm = ex_vhsm,
     cv_cose_signing_key = (\<lambda>_. Inr 7), cv_cose_public_xy = (\<lambda>_. Inr (replicate 32 1, replicate 32 2)),
     cv_rng = (\<lambda>_. 4), cv_clock = Inr 5\<rparr>"

definition ex_cli_state :: "nat cli_state" where
  "ex_cli_state = \<lparr>cli_files = (\<lambda>p. if p = ''k'' then Some ([1], 420) else None), cli_out = [], cli_err = [],
     cli_world = 0\<rparr>"

definition ex_auth :: AuthArgs where
  "ex_auth = \<lparr>auth_device_id = ''vin'', auth_token = Some ''jwt'', auth_minter_url = None, auth_operator_token = None\<rparr>"

definition ex_sel :: ChannelSel where
  "ex_sel = \<lparr>sel_channel = ''bleeding'', sel_device = Some ''rig'', sel_architecture = Some ''arm64''\<rparr>"

lemma ex_campaign:
  "cli_world (fst (run_campaign_cmd ex_cli ''http://rig'' False None ex_sel ''http://hub'' ''http://ca'' ex_auth
     True False (Some ''vm1'') ex_cli_state)) = 1"
  by code_simp

theorem campaign_gate_witness:
  "\<exists>plan. apply_plan ref_hash ex_cli_rig ex_cli_transport ex_cli_json ''http://rig'' ''http://hub''
      (sel_target ex_sel) None False None = Inr plan \<and> campaign_has_work plan (Some ''vm1'')"
proof -
  obtain s' r where run: "run_campaign_cmd ex_cli ''http://rig'' False None ex_sel ''http://hub'' ''http://ca'' ex_auth
     True False (Some ''vm1'') ex_cli_state = (s', r)"
    by (rule prod.exhaust)
  then have "cli_world s' \<noteq> cli_world ex_cli_state"
    using ex_campaign by (simp add: ex_cli_state_def)
  from campaign_gate [OF run this] show ?thesis
    by (auto simp: ex_cli_def)
qed

theorem dry_commands_touch_nothing_witness:
  "cli_world (fst (cli_main ex_cli \<lparr>cli_insecure = True, cli_cacert = None, cli_command = RigC ''http://rig'' (RigState True)\<rparr>
     ex_cli_state)) = 0"
  using dry_commands_touch_nothing [of "\<lparr>cli_insecure = True, cli_cacert = None,
      cli_command = RigC ''http://rig'' (RigState True)\<rparr>" ex_cli ex_cli_state]
  by (simp add: ex_cli_state_def)

section \<open>vHSM provisioning\<close>

lemma cli_bind_ok: "cli_bind m f s = (s', Inr y) \<longleftrightarrow> (\<exists>s1 x. m s = (s1, Inr x) \<and> f x s1 = (s', Inr y))"
  by (simp add: cli_bind_Pair)

lemma lift_res_ok: "lift_res f r s = (s', Inr x) \<longleftrightarrow> s' = s \<and> r = Inr x"
  by (auto simp: lift_res_def map_err_def split: sum.splits)

lemma read_file_ok:
  "read_file C p s = (s', Inr b) \<longleftrightarrow> s' = s \<and> ca_fs_read (cv_fault C) (cli_files s) p = Inr b"
  by (auto simp: read_file_def map_err_def split: sum.splits)

lemma write_file_ok:
  "write_file C p b s = (s', Inr u) \<longleftrightarrow>
     (\<exists>fs. ca_fs_write (cv_fault C) (cli_files s) p b = (fs, Inr ()) \<and> s' = s\<lparr>cli_files := fs\<rparr>)"
  by (auto simp: write_file_def map_err_def split: sum.splits prod.splits)

lemma eprintln_ok: "eprintln t s = (s', Inr u) \<longleftrightarrow> s' = s\<lparr>cli_err := cli_err s @ as_bytes (line t)\<rparr>"
  by (auto simp: eprintln_def)

lemmas cli_ok = cli_then_def cli_bind_ok lift_res_ok read_file_ok write_file_ok eprintln_ok

text \<open>What a reader makes of the state text: the entry of a fragment, or of a whole document.\<close>

definition yaml_state :: "bool \<Rightarrow> string \<Rightarrow> (string \<times> string) option" where
  "yaml_state standalone t =
     (if standalone then Option.bind (strip_prefix (''tokens:'' @ [NL]) t) yaml_entry else yaml_entry t)"

lemma yaml_state_text:
  assumes "printable vm_id" "hash_api_ok H"
  shows "yaml_state standalone (if standalone then bootstrap_yaml_document vm_id (token_sha256_hex H tok)
           else bootstrap_yaml_fragment vm_id (token_sha256_hex H tok)) = Some (vm_id, token_sha256_hex H tok)"
proof -
  have "set (token_sha256_hex H tok) \<subseteq> set hex_digits"
    using assms(2) by (simp add: hash_api_ok_def token_sha256_hex_def)
  then have "yaml_entry (bootstrap_yaml_fragment vm_id (token_sha256_hex H tok)) = Some (vm_id, token_sha256_hex H tok)"
    using hex_text_plain by (intro yaml_entry_fragment [OF assms(1)]) auto
  then show ?thesis
    by (simp add: yaml_state_def bootstrap_yaml_document_def strip_prefix_def)
qed

lemma ca_fs_write_ok: "ca_fs_write fault fs p b = (fs', Inr u) \<Longrightarrow> (\<exists>m. fs' = fs(p \<mapsto> (b, m)))"
  by (auto simp: ca_fs_write_def Let_def split: option.splits)

lemma write_or_print_ok:
  assumes "write_or_print C out b note s = (s', Inr ())"
  shows "case out of
      Some p \<Rightarrow> \<exists>m. cli_files s' = (cli_files s)(p \<mapsto> (b, m))
    | None \<Rightarrow> cli_files s' = cli_files s \<and> cli_out s' = cli_out s @ b"
proof (cases out)
  case None
  then show ?thesis
    using assms by (simp add: write_or_print_def print_raw_def) auto
next
  case (Some p)
  obtain fs r where w: "ca_fs_write (cv_fault C) (cli_files s) p b = (fs, r)"
    by (rule prod.exhaust)
  with Some assms have "r = Inr ()" "cli_files s' = fs"
    by (cases r; auto simp: write_or_print_def cli_then_def cli_bind_def write_file_def map_err_def eprintln_def)+
  with Some w show ?thesis
    using ca_fs_write_ok by fastforce
qed

lemma restrict_token_ok:
  assumes "cli_files s p = Some (b, m0)"
  shows "\<exists>s1 m. restrict_token C p s = (s1, Inr ()) \<and> cli_files s1 = (cli_files s)(p \<mapsto> (b, m)) \<and>
    cli_out s1 = cli_out s \<and> (cv_fault C (CaSetMode p) = None \<longrightarrow> m = 384)"
proof (cases "cv_fault C (CaSetMode p)")
  case None
  then show ?thesis
    using assms by (simp add: restrict_token_def ca_fs_set_mode_def)
next
  case (Some ef)
  have "cli_files s = (cli_files s)(p \<mapsto> (b, m0))"
    using assms by (simp add: fun_upd_idem)
  with Some show ?thesis
    using assms
    by (intro exI [of _ "s\<lparr>cli_err := cli_err s @ as_bytes (line (''warning: failed to set 0600 on '' @ p @ '': '' @ fst ef))\<rparr>"]
        exI [of _ m0]) (simp add: restrict_token_def ca_fs_set_mode_def eprintln_def split: prod.splits)
qed





section \<open>Rendered byte counts\<close>

text \<open>The loop of \<open>human_size\<close> ends and the rendered count is right to half a tenth: below 1 KiB
  (and only there) the exact number of bytes is shown; above, the unit is the largest of the five
  that does not exceed the count, and the number shown, a decimal with one digit after the point,
  differs from the count in that unit by at most half a tenth.\<close>

theorem human_size_close:
  assumes "unat b < 2 ^ 53"
  shows "(unat b < 1024 \<and> human_size b = nat_to_string (unat b) @ '' B'') \<or>
    (\<exists>t u. 1 \<le> u \<and> u \<le> 4 \<and> 1024 ^ u \<le> unat b \<and> (u = 4 \<or> unat b < 1024 ^ (u + 1)) \<and>
       human_size b = nat_to_string (t div 10) @ ''.'' @ nat_to_string (t mod 10) @ '' '' @ UNITS ! u \<and>
       2 * (t * 1024 ^ u) \<le> 20 * unat b + 1024 ^ u \<and> 20 * unat b \<le> 2 * (t * 1024 ^ u) + 1024 ^ u)"
proof -
  obtain d u where hs: "human_scale (unat b) 1 0 = (d, u)"
    by (rule prod.exhaust)
  have "d = 1024 ^ u \<and> u \<le> 4 \<and> (u = 0 \<or> d \<le> unat b) \<and> (u = 4 \<or> unat b < 1024 * d)"
    by (rule human_scale_spec [OF hs]) simp_all
  then have d: "d = 1024 ^ u" and u: "u \<le> 4" and lo: "u = 0 \<or> d \<le> unat b" and hi: "u = 4 \<or> unat b < 1024 * d"
    by blast+
  show ?thesis
  proof (cases "u = 0")
    case True
    then show ?thesis
      using hs d hi f64_of_u64_small [OF assms] by (simp add: human_size_def)
  next
    case False
    define t where "t = div_half_even (10 * unat b) d"
    have shown: "human_size b = nat_to_string (t div 10) @ ''.'' @ nat_to_string (t mod 10) @ '' '' @ UNITS ! u"
      using hs False f64_of_u64_small [OF assms] by (simp add: human_size_def t_def Let_def)
    have near: "2 * (t * 1024 ^ u) \<le> 20 * unat b + 1024 ^ u" "20 * unat b \<le> 2 * (t * 1024 ^ u) + 1024 ^ u"
      using div_half_even_close [of d "10 * unat b"] by (simp_all add: t_def d)
    have rng: "1 \<le> u" "1024 ^ u \<le> unat b" "u = 4 \<or> unat b < 1024 ^ (u + 1)"
      using False lo hi d by auto
    show ?thesis
      by (intro disjI2 exI [of _ t] exI [of _ u] conjI rng u shown near)
  qed
qed

theorem human_size_close_witness:
  "\<exists>t u. human_size 1536 = nat_to_string (t div 10) @ ''.'' @ nat_to_string (t mod 10) @ '' '' @ UNITS ! u \<and> 1 \<le> u"
  using human_size_close [of 1536] by auto

end
