(* ===== verification/Findings.thy ===== *)
theory Findings
  imports Provision_Props Cli_Props
begin

text \<open>
  Behaviour of the code that its comments do not promise, or rule out, stated on the model. The other
  statements of this kind stand with their components: \<open>component_release_half_built\<close> in
  \<open>Release_Props\<close>, \<open>tree_hash_disabled_clash\<close> and \<open>component_identity_separator_clash\<close> in
  \<open>Identity_Hash\<close>.
\<close>

section \<open>Two readings of \<open>carried\<close>\<close>

text \<open>The diff compares slot by slot, Tower 2 compares sets of contents. A component whose parts are
  exchanged between two slots is planned for shipping, while Tower 2 takes it as carried and answers
  204: the push has nothing to send and the drift stays.\<close>

theorem exchanged_slots_are_never_sent:
  assumes "x \<noteq> y"
  defines "parts a b \<equiv> [\<lparr>p_kind = ''file'', p_id = ''a'', p_content = a\<rparr>, \<lparr>p_kind = ''file'', p_id = ''b'', p_content = b\<rparr>]"
  defines "observed \<equiv> \<lparr>entities = [(''vm1'', Entity_default\<lparr>e_parts := parts x y\<rparr>)]\<rparr>"
  defines "desired \<equiv> \<lparr>entities = [(''vm1'', Entity_default\<lparr>e_parts := parts y x\<rparr>)]\<rparr>"
  shows "length (fp_ships (flash_plan observed desired)) = 2 \<and>
    partition_l1_components desired (Some observed) = ([], [], [''vm1''])"
proof -
  have "length (fp_ships (flash_plan observed desired)) = 2"
    using assms(1)
    by (simp add: fp_ships_def flash_plan_closed plan_entity_def plan_part_def observed_def desired_def parts_def
        bt_get_collect Entity_default_def Let_def)
  moreover have "partition_l1_components desired (Some observed) = ([], [], [''vm1''])"
    by (simp add: partition_closed l1_included_def l1_disabled_def l1_skipped_def carried_def l1_observed_admin_def
        entity_agreed_def observed_def desired_def parts_def Entity_default_def)
  ultimately show ?thesis
    by simp
qed

section \<open>Two lookups of a channel\<close>

text \<open>A channel with several targets, asked without a device: the administrative lookup answers the
  target set last, the resolving lookup finds none.\<close>

definition two_targets :: database where
  "two_targets = ex_l1_db\<lparr>db_channels :=
     [\<lparr>ct_channel = ''c'', ct_device = ''rig'', ct_architecture = ''arm64'', ct_vehicle_release_id = 5,
       ct_tree_hash = ''h'', ct_updated_at = 1\<rparr>,
      \<lparr>ct_channel = ''c'', ct_device = ''cvc'', ct_architecture = ''arm64'', ct_vehicle_release_id = 5,
       ct_tree_hash = ''h'', ct_updated_at = 2\<rparr>]\<rparr>"

theorem several_targets_two_answers:
  "(case get_channel_target two_targets \<lparr>ts_channel = Some ''c'', ts_device = None, ts_architecture = None,
      ts_vehicle_release_id = None, ts_tree_hash = None\<rparr> of
      Inr t \<Rightarrow> cts_device t = Some ''cvc'' \<and> cts_vehicle t \<noteq> None | Inl _ \<Rightarrow> False) \<and>
   channel_target_vehicle two_targets ''c'' None None = None"
  by code_simp

section \<open>A root with half its files\<close>

text \<open>With the certificate file missing and the key file there, a start of Tower 1 does not load the key
  but draws a new root and writes it over the old key.\<close>

theorem root_key_overwritten:
  assumes "load_or_generate_ca X fault fs r key cert dn = (fs', Inr authority)" and "fs cert = None" and "key \<noteq> cert"
  shows "ca_signing_key authority = dr_key r \<and>
    (\<exists>kb m. key_to_pkcs8_der X (dr_key r) = Inr kb \<and> fs' key = Some (kb, m))"
proof -
  from assms(1,2) have gen: "ca_generate X r dn = Inr authority" and save: "ca_save X fault fs authority key cert = (fs', Inr ())"
    by (auto simp: load_or_generate_ca_def split: sum.splits prod.splits)
  have "ca_signing_key authority = dr_key r"
    using gen by (auto simp: ca_generate_def Let_def res_simps)
  moreover have "\<exists>kb m. key_to_pkcs8_der X (ca_signing_key authority) = Inr kb \<and> fs' key = Some (kb, m)"
    using save assms(3)
    by (auto simp: ca_save_def save_cert_def ca_fs_write_def ca_fs_set_mode_def Let_def split: sum.splits option.splits)
  ultimately show ?thesis
    by simp
qed

section \<open>A leaf without a decrypt key\<close>

text \<open>A cert-bearing slot asks for a registered device only: the status and the decrypt key of the row
  play no part, so a device that never enrolled its decrypt slot gets its leaf.\<close>

theorem leaf_ignores_decrypt_enrolment:
  assumes "key_id \<noteq> ''device-decrypt''" and "find_device (st_roster s) i = Some row"
    and "issue_leaf H X r (identity_ca s) i body (if key_id = ''tls-identity'' then Mtls else ClientUsage) = Inr issued"
    and "upsert_cert (st_roster s) \<lparr>dc_device_id = i, dc_key_id = key_id, dc_cert_der = iss_der issued,
      dc_serial = iss_serial_hex issued, dc_not_after = iss_not_after issued, dc_fingerprint = iss_fingerprint issued\<rparr> = Inr ro"
  shows "\<exists>resp. enroll_device H X K r s i key_id body = (s\<lparr>st_roster := ro\<rparr>, Inr resp) \<and> er_serial resp = Some (iss_serial_hex issued)"
  using assms by (simp add: enroll_device_def enroll_leaf_def)

section \<open>A proven key replaced without proof\<close>

text \<open>Registering an enrolled device again with a public key replaces the key whose possession it proved,
  and leaves it enrolled: later keystores and campaigns are sealed for the new key.\<close>

lemma find_replaced:
  "find_device ro i = Some row \<Longrightarrow> dv_id new = i \<Longrightarrow>
   find_device (ro\<lparr>ro_devices := map (\<lambda>r. if dv_id r = i then new else r) (ro_devices ro)\<rparr>) i = Some new"
proof -
  have "find (\<lambda>r. dv_id r = i) ds = Some row \<Longrightarrow> dv_id new = i \<Longrightarrow>
      find (\<lambda>r. dv_id r = i) (map (\<lambda>r. if dv_id r = i then new else r) ds) = Some new" for ds
    by (induction ds) auto
  then show "find_device ro i = Some row \<Longrightarrow> dv_id new = i \<Longrightarrow>
      find_device (ro\<lparr>ro_devices := map (\<lambda>r. if dv_id r = i then new else r) (ro_devices ro)\<rparr>) i = Some new"
    by (simp add: find_device_def)
qed

theorem registration_replaces_proven_key:
  assumes "find_device (st_roster s) i = Some row"
    and "register_device H Off K spki_of s \<lparr>rd_id = i, rd_model = m, rd_pubkey = Some k\<rparr> = (s', res)"
  shows "\<exists>row'. find_device (st_roster s') i = Some row' \<and> dv_pubkey row' = Some k \<and> dv_status row' = dv_status row"
proof -
  let ?new = "row\<lparr>dv_model := coalesce m (dv_model row), dv_pubkey := Some k\<rparr>"
  have "dv_id row = i"
    using assms(1) by (auto simp: find_device_def find_Some_iff)
  then have "find_device ((st_roster s)\<lparr>ro_devices := map (\<lambda>r. if dv_id r = i then ?new else r) (ro_devices (st_roster s))\<rparr>) i =
      Some ?new"
    by (intro find_replaced [OF assms(1)]) simp
  moreover have "st_roster s' = (st_roster s)\<lparr>ro_devices := map (\<lambda>r. if dv_id r = i then ?new else r) (ro_devices (st_roster s))\<rparr>"
    using assms by (auto simp: register_device_def upsert_device_def coalesce_def Let_def)
  ultimately show ?thesis
    by simp
qed

section \<open>A command without credentials\<close>

text \<open>With neither a token nor a minter a mutating command goes on with an empty bearer.\<close>

theorem no_credentials_no_error:
  assumes "auth_token auth = None" and "auth_minter_url auth = None"
  shows "snd (rig_token auth url insecure pem s) = Inr (RigToken_fixed [])"
  using assms by (simp add: rig_token_def cli_then_def cli_bind_def eprintln_def cli_return_def)

section \<open>Device ids in paths\<close>

text \<open>The clients put a device id into the path as it is; a question mark in it ends the path, and the
  tower serves another device.\<close>

theorem device_id_cut_at_query:
  "segments (''/devices/'' @ ''vin?1'') = segments (''/devices/'' @ ''vin'')"
  by code_simp

end
