(* ===== verification/Tasks.thy ===== *)
theory Tasks
  imports Content
begin

text \<open>
  \<open>software-tower/src/content.rs\<close>, \<open>publish_stream\<close> as what it is under the asynchronous runtime: a task
  that other tasks can run between any two of its \<open>await\<close> points. A task owns its sink; the
  directory, the counter of temporary names and the index are shared. \<open>task_step\<close> runs one task to its
  next await point that touches shared state; an \<open>event\<close> is the arrival of a request, such a step
  of one task, the cancellation of a task whose client went away (its future is dropped, and with it
  the sink), a crash of the process, or the index database going down and coming back.
\<close>

section \<open>One task\<close>

datatype phase =
    Reading "(string + bytes) list"
  | Sealing
  | Looking
  | Flushing
  | Checking
  | Discarding
  | Renaming
  | Indexing
  | Replied "AppError + ArtifactRef"
  | Cancelled

text \<open>\<open>tk_body\<close> is the request body the task was started with; the phase \<open>Reading\<close> has what is left of it.\<close>

record ('h, 's, 'z) publish_task =
  tk_body :: "(string + bytes) list"
  tk_sink :: FsBlobSink
  tk_ps :: "('h, 's, 'z) publish_state"
  tk_phase :: phase

definition publish_begin ::
    "'h hash_api \<Rightarrow> 's aead_api \<Rightarrow> 'z zstd_api \<Rightarrow> (io_op \<Rightarrow> bool) \<Rightarrow> (string + bytes) list \<Rightarrow> blob_fs
      \<Rightarrow> blob_fs \<times> (AppError + ('h, 's, 'z) publish_task)" where
  "publish_begin H B Z io body fs =
     (case StreamEncryptor_new B of
        Inl e \<Rightarrow> (fs, Inl (Internal (''encryptor init failed: '' @ e)))
      | Inr enc \<Rightarrow>
        (case zstd_new Z of
           Inl e \<Rightarrow> (fs, Inl (Internal (''zstd init failed: '' @ e)))
         | Inr zenc \<Rightarrow>
           (case blobs_begin io fs of
              (fs1, Inl e) \<Rightarrow> (fs1, Inl (internal_io e))
            | (fs1, Inr sink) \<Rightarrow>
                (fs1, Inr \<lparr>tk_body = body, tk_sink = sink,
                   tk_ps = \<lparr>ps_enc = enc, ps_zenc = zenc, ps_inner_h = hasher H, ps_outer_h = hasher H, ps_size = 0\<rparr>,
                   tk_phase = Reading body\<rparr>))))"

text \<open>Returning drops the sink.\<close>

definition task_return ::
    "(io_op \<Rightarrow> bool) \<Rightarrow> blob_fs \<times> 'i \<Rightarrow> ('h, 's, 'z) publish_task \<Rightarrow> AppError + ArtifactRef
      \<Rightarrow> (blob_fs \<times> 'i) \<times> ('h, 's, 'z) publish_task" where
  "task_return io st t r = ((sink_drop io (fst st) (tk_sink t), snd st), t\<lparr>tk_phase := Replied r\<rparr>)"

definition task_inner :: "'h hash_api \<Rightarrow> ('h, 's, 'z) publish_task \<Rightarrow> ContentHash" where
  "task_inner H t = hasher_finalize H (ps_inner_h (tk_ps t))"

definition task_outer :: "'h hash_api \<Rightarrow> ('h, 's, 'z) publish_task \<Rightarrow> ContentHash" where
  "task_outer H t = hasher_finalize H (ps_outer_h (tk_ps t))"

definition task_entry :: "'h hash_api \<Rightarrow> ('h, 's, 'z) publish_task \<Rightarrow> ArtifactEntry" where
  "task_entry H t = \<lparr>ae_inner = task_inner H t, ae_outer = task_outer H t,
     ae_cek = enc_cek (ps_enc (tk_ps t)), ae_nonce = enc_nonce (ps_enc (tk_ps t)), ae_size = ps_size (tk_ps t)\<rparr>"

definition task_step ::
    "'h hash_api \<Rightarrow> 's aead_api \<Rightarrow> 'z zstd_api \<Rightarrow> 'i index_api \<Rightarrow> (io_op \<Rightarrow> bool) \<Rightarrow> blob_fs \<times> 'i
      \<Rightarrow> ('h, 's, 'z) publish_task \<Rightarrow> (blob_fs \<times> 'i) \<times> ('h, 's, 'z) publish_task" where
  "task_step H B Z A io st t =
     (let fs = fst st; ix = snd st; sink = tk_sink t in
      case tk_phase t of
        Reading [] \<Rightarrow> (st, t\<lparr>tk_phase := Sealing\<rparr>)
      | Reading (chunk # rest) \<Rightarrow>
          (case publish_chunks H B Z io sink [chunk] (fs, tk_ps t) of
             (fs1, Inl e) \<Rightarrow> task_return io (fs1, ix) t (Inl e)
           | (fs1, Inr ps) \<Rightarrow> ((fs1, ix), t\<lparr>tk_ps := ps, tk_phase := Reading rest\<rparr>))
      | Sealing \<Rightarrow>
          (case publish_finish H B Z io sink (fs, tk_ps t) of
             (fs1, Inl e) \<Rightarrow> task_return io (fs1, ix) t (Inl e)
           | (fs1, Inr ps) \<Rightarrow> ((fs1, ix), t\<lparr>tk_ps := ps, tk_phase := Looking\<rparr>))
      | Looking \<Rightarrow>
          (case index_get A ix (task_inner H t) of
             Inl e \<Rightarrow> task_return io st t (Inl (Internal e))
           | Inr (Some x) \<Rightarrow>
               task_return io st t (Inr \<lparr>ar_inner = ae_inner x, ar_outer = ae_outer x, ar_size = ae_size x\<rparr>)
           | Inr None \<Rightarrow> (st, t\<lparr>tk_phase := Flushing\<rparr>))
      | Flushing \<Rightarrow>
          (case sink_flush io sink of
             (sink1, Inl e) \<Rightarrow> task_return io st (t\<lparr>tk_sink := sink1\<rparr>) (Inl (internal_io e))
           | (sink1, Inr _) \<Rightarrow> (st, t\<lparr>tk_sink := sink1, tk_phase := Checking\<rparr>))
      | Checking \<Rightarrow>
          (st, t\<lparr>tk_phase := (if dest_exists H io fs (task_outer H t) then Discarding else Renaming)\<rparr>)
      | Discarding \<Rightarrow>
          (case sink_discard io fs sink of
             (fs1, sink1) \<Rightarrow> ((fs1, ix), t\<lparr>tk_sink := sink1, tk_phase := Indexing\<rparr>))
      | Renaming \<Rightarrow>
          (case sink_rename H io fs sink (task_outer H t) of
             (fs1, sink1, Inl e) \<Rightarrow> task_return io (fs1, ix) (t\<lparr>tk_sink := sink1\<rparr>) (Inl (internal_io e))
           | (fs1, sink1, Inr _) \<Rightarrow> ((fs1, ix), t\<lparr>tk_sink := sink1, tk_phase := Indexing\<rparr>))
      | Indexing \<Rightarrow>
          (case index_put A ix (task_entry H t) of
             Inl e \<Rightarrow> task_return io st t (Inl (Internal e))
           | Inr ix1 \<Rightarrow>
               task_return io (fs, ix1) t
                 (Inr \<lparr>ar_inner = task_inner H t, ar_outer = task_outer H t, ar_size = ps_size (tk_ps t)\<rparr>))
      | Replied r \<Rightarrow> (st, t)
      | Cancelled \<Rightarrow> (st, t))"

fun live_phase :: "phase \<Rightarrow> bool" where
  "live_phase (Replied r) = False"
| "live_phase Cancelled = False"
| "live_phase _ = True"

abbreviation live :: "('h, 's, 'z) publish_task \<Rightarrow> bool" where
  "live t \<equiv> live_phase (tk_phase t)"

section \<open>All tasks of the process\<close>

record ('h, 's, 'z) content_service =
  sv_fs :: blob_fs
  sv_ix :: PgIndex
  sv_tasks :: "('h, 's, 'z) publish_task list"

datatype event =
    Arrive "string + bytes" "string + bytes" "io_op \<Rightarrow> bool" "(string + bytes) list"
  | Run nat "io_op \<Rightarrow> bool"
  | Cancel nat "io_op \<Rightarrow> bool"
  | Crash nat
  | Outage bool

text \<open>An arriving request draws its own key and nonce. Events for a task that is not there do nothing.\<close>

fun service_event ::
    "'h hash_api \<Rightarrow> 's aead_api \<Rightarrow> 'z zstd_api \<Rightarrow> event
      \<Rightarrow> ('h, 's, 'z) content_service \<Rightarrow> ('h, 's, 'z) content_service" where
  "service_event H B Z (Arrive k n io body) s =
     (case publish_begin H (B\<lparr>random_cek := k, random_nonce := n\<rparr>) Z io body (sv_fs s) of
        (fs1, Inl _) \<Rightarrow> s\<lparr>sv_fs := fs1\<rparr>
      | (fs1, Inr t) \<Rightarrow> s\<lparr>sv_fs := fs1, sv_tasks := sv_tasks s @ [t]\<rparr>)"
| "service_event H B Z (Run i io) s =
     (if i < length (sv_tasks s) then
        (case task_step H B Z (pg_index_api H) io (sv_fs s, sv_ix s) (sv_tasks s ! i) of
           ((fs1, ix1), t) \<Rightarrow> s\<lparr>sv_fs := fs1, sv_ix := ix1, sv_tasks := (sv_tasks s)[i := t]\<rparr>)
      else s)"
| "service_event H B Z (Cancel i io) s =
     (if i < length (sv_tasks s) \<and> live (sv_tasks s ! i) then
        s\<lparr>sv_fs := sink_drop io (sv_fs s) (tk_sink (sv_tasks s ! i)),
          sv_tasks := (sv_tasks s)[i := (sv_tasks s ! i)\<lparr>tk_phase := Cancelled\<rparr>]\<rparr>
      else s)"
| "service_event H B Z (Crash pid) s =
     s\<lparr>sv_fs := (sv_fs s)\<lparr>fs_pid := pid, temp_seq := 0\<rparr>, sv_tasks := []\<rparr>"
| "service_event H B Z (Outage b) s = s\<lparr>sv_ix := (sv_ix s)\<lparr>pg_down := b\<rparr>\<rparr>"

definition service_run ::
    "'h hash_api \<Rightarrow> 's aead_api \<Rightarrow> 'z zstd_api \<Rightarrow> event list
      \<Rightarrow> ('h, 's, 'z) content_service \<Rightarrow> ('h, 's, 'z) content_service" where
  "service_run H B Z evs s = fold (service_event H B Z) evs s"

end
