(* ===== verification/Race_Props.thy ===== *)
theory Race_Props
  imports Tasks Tower_Props
begin

text \<open>
  Publishes that run at the same time. A task run alone is \<open>publish_stream\<close>; and whatever the order in
  which any number of tasks, cancellations, crashes and outages are interleaved, the store and the
  index keep the invariant of the sequential tower. The proof is in rely/guarantee style: each
  step of a task changes only its own temporary file and adds blobs under their own address
  (\<open>guarantee\<close>), and the facts about a task survive such steps of the others.
\<close>

section \<open>A task alone\<close>

fun task_run ::
    "'h hash_api \<Rightarrow> 's aead_api \<Rightarrow> 'z zstd_api \<Rightarrow> 'i index_api \<Rightarrow> (io_op \<Rightarrow> bool) \<Rightarrow> nat
      \<Rightarrow> (blob_fs \<times> 'i) \<times> ('h, 's, 'z) publish_task \<Rightarrow> (blob_fs \<times> 'i) \<times> ('h, 's, 'z) publish_task" where
  "task_run H B Z A io 0 p = p"
| "task_run H B Z A io (Suc n) p = task_run H B Z A io n (task_step H B Z A io (fst p) (snd p))"

definition task_outcome :: "(blob_fs \<times> 'i) \<times> ('h, 's, 'z) publish_task \<Rightarrow> (blob_fs \<times> 'i) \<times> phase" where
  "task_outcome p = (fst p, tk_phase (snd p))"

lemma task_outcome_return [simp]:
  "task_outcome (task_return io st t r) = ((sink_drop io (fst st) (tk_sink t), snd st), Replied r)"
  by (simp add: task_return_def task_outcome_def)

lemma task_run_answered:
  "tk_phase (snd p) = Replied r \<Longrightarrow> task_run H B Z A io n p = p"
  by (induction n arbitrary: p) (auto simp: task_step_def Let_def)

lemma task_run_return [simp]:
  "task_run H B Z A io n (task_return io' st t r) = task_return io' st t r"
  by (rule task_run_answered) (simp add: task_return_def)

lemma publish_chunks_Cons:
  "publish_chunks H B Z io sink (c # rest) st =
     (case publish_chunks H B Z io sink [c] st of
        (fs1, Inl e) \<Rightarrow> (fs1, Inl e)
      | (fs1, Inr ps1) \<Rightarrow> publish_chunks H B Z io sink rest (fs1, ps1))"
  by (cases c) (auto simp: Let_def split: sum.splits prod.splits)

lemma task_run_reading:
  assumes "tk_phase t = Reading body"
  shows "task_outcome (task_run H B Z A io (length body + n) ((fs, ix), t)) =
    (case publish_chunks H B Z io (tk_sink t) body (fs, tk_ps t) of
       (fs1, Inl e) \<Rightarrow> ((sink_drop io fs1 (tk_sink t), ix), Replied (Inl e))
     | (fs1, Inr ps1) \<Rightarrow> task_outcome (task_run H B Z A io n ((fs1, ix), t\<lparr>tk_ps := ps1, tk_phase := Reading []\<rparr>)))"
  using assms
proof (induction body arbitrary: t fs)
  case Nil
  then have "t\<lparr>tk_ps := tk_ps t, tk_phase := Reading []\<rparr> = t"
    by (cases t) simp
  then show ?case by simp
next
  case (Cons c rest)
  have step: "task_step H B Z A io (fs, ix) t =
      (case publish_chunks H B Z io (tk_sink t) [c] (fs, tk_ps t) of
         (fs1, Inl e) \<Rightarrow> task_return io (fs1, ix) t (Inl e)
       | (fs1, Inr ps) \<Rightarrow> ((fs1, ix), t\<lparr>tk_ps := ps, tk_phase := Reading rest\<rparr>))"
    using Cons.prems by (simp add: task_step_def Let_def)
  show ?case
    by (simp add: step publish_chunks_Cons [of _ _ _ _ _ c rest] Cons.IH del: publish_chunks.simps
        split: prod.splits sum.splits)
qed

lemma task_run_indexing:
  assumes "tk_phase t = Indexing"
  shows "task_outcome (task_run H B Z A io (Suc n) ((fs, ix), t)) =
    (case index_put A ix (task_entry H t) of
       Inl e \<Rightarrow> ((sink_drop io fs (tk_sink t), ix), Replied (Inl (Internal e)))
     | Inr ix1 \<Rightarrow> ((sink_drop io fs (tk_sink t), ix1),
         Replied (Inr \<lparr>ar_inner = task_inner H t, ar_outer = task_outer H t, ar_size = ps_size (tk_ps t)\<rparr>)))"
  using assms by (simp add: task_step_def Let_def split: sum.splits)

lemma task_of_ps [simp]:
  "task_inner H (t\<lparr>tk_sink := s\<rparr>) = task_inner H t"
  "task_outer H (t\<lparr>tk_sink := s\<rparr>) = task_outer H t"
  "task_entry H (t\<lparr>tk_sink := s\<rparr>) = task_entry H t"
  "task_inner H (t\<lparr>tk_phase := p\<rparr>) = task_inner H t"
  "task_outer H (t\<lparr>tk_phase := p\<rparr>) = task_outer H t"
  "task_entry H (t\<lparr>tk_phase := p\<rparr>) = task_entry H t"
  by (simp_all add: task_inner_def task_outer_def task_entry_def)

lemma task_run_flushing:
  assumes "tk_phase t = Flushing"
  shows "task_outcome (task_run H B Z A io (Suc (Suc (Suc (Suc n)))) ((fs, ix), t)) =
    (case sink_commit H io fs (tk_sink t) (task_outer H t) of
       (fs1, sink1, Inl e) \<Rightarrow> ((sink_drop io fs1 sink1, ix), Replied (Inl (internal_io e)))
     | (fs1, sink1, Inr _) \<Rightarrow>
         task_outcome (task_run H B Z A io (Suc n) ((fs1, ix), t\<lparr>tk_sink := sink1, tk_phase := Indexing\<rparr>)))"
proof (cases "sink_flush io (tk_sink t)")
  case (Pair sink1 r)
  then have step: "task_step H B Z A io (fs, ix) t =
      (case r of Inl e \<Rightarrow> task_return io (fs, ix) (t\<lparr>tk_sink := sink1\<rparr>) (Inl (internal_io e))
       | Inr _ \<Rightarrow> ((fs, ix), t\<lparr>tk_sink := sink1, tk_phase := Checking\<rparr>))"
    using assms by (simp add: task_step_def Let_def)
  let ?t = "t\<lparr>tk_sink := sink1, tk_phase := if dest_exists H io fs (task_outer H t) then Discarding else Renaming\<rparr>"
  have check: "task_step H B Z A io (fs, ix) (t\<lparr>tk_sink := sink1, tk_phase := Checking\<rparr>) = ((fs, ix), ?t)"
    by (simp add: task_step_def Let_def)
  have place: "task_outcome (task_run H B Z A io (Suc (Suc n)) ((fs, ix), ?t)) =
      (case (if dest_exists H io fs (task_outer H t)
          then (case sink_discard io fs sink1 of (fs1, sink2) \<Rightarrow> (fs1, sink2, Inr ()))
          else sink_rename H io fs sink1 (task_outer H t)) of
         (fs1, sink1, Inl e) \<Rightarrow> ((sink_drop io fs1 sink1, ix), Replied (Inl (internal_io e)))
       | (fs1, sink1, Inr _) \<Rightarrow>
           task_outcome (task_run H B Z A io (Suc n) ((fs1, ix), t\<lparr>tk_sink := sink1, tk_phase := Indexing\<rparr>)))"
    by (simp add: task_step_def [of _ _ _ _ _ _ ?t] Let_def split: prod.splits sum.splits del: task_run.simps(2) add: task_run.simps(2) [of _ _ _ _ _ "Suc n"])
  show ?thesis
    using Pair place by (cases r) (simp_all add: step check sink_commit_def)
qed

lemma task_run_looking:
  assumes "tk_phase t = Looking"
  shows "task_outcome (task_run H B Z A io (Suc (Suc (Suc (Suc (Suc n))))) ((fs, ix), t)) =
    (case publish_store H A io (tk_sink t) fs ix (tk_ps t) of (st, r) \<Rightarrow> (st, Replied r))"
proof -
  have step: "task_step H B Z A io (fs, ix) t =
      (case index_get A ix (task_inner H t) of
         Inl e \<Rightarrow> task_return io (fs, ix) t (Inl (Internal e))
       | Inr (Some x) \<Rightarrow>
           task_return io (fs, ix) t (Inr \<lparr>ar_inner = ae_inner x, ar_outer = ae_outer x, ar_size = ae_size x\<rparr>)
       | Inr None \<Rightarrow> ((fs, ix), t\<lparr>tk_phase := Flushing\<rparr>))"
    using assms by (simp add: task_step_def Let_def)
  have flush: "task_outcome (task_run H B Z A io (Suc (Suc (Suc (Suc n)))) ((fs, ix), t\<lparr>tk_phase := Flushing\<rparr>)) =
    (case sink_commit H io fs (tk_sink t) (task_outer H t) of
       (fs1, sink1, Inl e) \<Rightarrow> ((sink_drop io fs1 sink1, ix), Replied (Inl (internal_io e)))
     | (fs1, sink1, Inr _) \<Rightarrow>
         (case index_put A ix (task_entry H t) of
            Inl e \<Rightarrow> ((sink_drop io fs1 sink1, ix), Replied (Inl (Internal e)))
          | Inr ix1 \<Rightarrow> ((sink_drop io fs1 sink1, ix1),
              Replied (Inr \<lparr>ar_inner = task_inner H t, ar_outer = task_outer H t, ar_size = ps_size (tk_ps t)\<rparr>))))"
    by (simp add: task_run_flushing task_run_indexing del: task_run.simps split: prod.splits sum.splits)
  show ?thesis
    unfolding task_run.simps(2) [of _ _ _ _ _ "Suc (Suc (Suc (Suc n)))"] fst_conv snd_conv step publish_store_def Let_def
    by (simp add: flush task_inner_def [symmetric] task_outer_def [symmetric] task_entry_def [symmetric] del: task_run.simps
        split: sum.splits option.splits prod.splits)
qed

lemma publish_stream_begin:
  "publish_stream H B Z A io body (fs, ix) =
     (case publish_begin H B Z io body fs of
        (fs1, Inl e) \<Rightarrow> ((fs1, ix), Inl e)
      | (fs1, Inr t) \<Rightarrow>
          (case publish_chunks H B Z io (tk_sink t) body (fs1, tk_ps t) of
             (fs2, Inl e) \<Rightarrow> ((sink_drop io fs2 (tk_sink t), ix), Inl e)
           | (fs2, Inr ps1) \<Rightarrow>
               (case publish_finish H B Z io (tk_sink t) (fs2, ps1) of
                  (fs3, Inl e) \<Rightarrow> ((sink_drop io fs3 (tk_sink t), ix), Inl e)
                | (fs3, Inr ps2) \<Rightarrow> publish_store H A io (tk_sink t) fs3 ix ps2)))"
  by (simp add: publish_stream_def publish_begin_def Let_def split: sum.splits prod.splits)

lemma task_run_sealing:
  assumes "tk_phase t = Reading []"
  shows "task_outcome (task_run H B Z A io (Suc (Suc (Suc (Suc (Suc (Suc (Suc n))))))) ((fs, ix), t)) =
    (case publish_finish H B Z io (tk_sink t) (fs, tk_ps t) of
       (fs1, Inl e) \<Rightarrow> ((sink_drop io fs1 (tk_sink t), ix), Replied (Inl e))
     | (fs1, Inr ps) \<Rightarrow> (case publish_store H A io (tk_sink t) fs1 ix ps of (st, r) \<Rightarrow> (st, Replied r)))"
proof -
  have step: "task_step H B Z A io (fs, ix) t = ((fs, ix), t\<lparr>tk_phase := Sealing\<rparr>)"
    using assms by (simp add: task_step_def Let_def)
  have seal: "task_step H B Z A io (fs, ix) (t\<lparr>tk_phase := Sealing\<rparr>) =
      (case publish_finish H B Z io (tk_sink t) (fs, tk_ps t) of
         (fs1, Inl e) \<Rightarrow> task_return io (fs1, ix) (t\<lparr>tk_phase := Sealing\<rparr>) (Inl e)
       | (fs1, Inr ps) \<Rightarrow> ((fs1, ix), t\<lparr>tk_ps := ps, tk_phase := Looking\<rparr>))"
    by (simp add: task_step_def Let_def split: prod.splits sum.splits)
  show ?thesis
    unfolding task_run.simps(2) [of _ _ _ _ _ "Suc (Suc (Suc (Suc (Suc (Suc n)))))"]
      task_run.simps(2) [of _ _ _ _ _ "Suc (Suc (Suc (Suc (Suc n))))"] fst_conv snd_conv step seal
    by (simp add: task_run_looking del: task_run.simps split: prod.splits sum.splits)
qed

lemma publish_tasks_sequential_aux:
  assumes "publish_begin H B Z io body fs = (fs1, Inr t)"
    and "publish_stream H B Z A io body (fs, ix) = (st, r)" and "length body + 7 \<le> n"
  shows "task_outcome (task_run H B Z A io n ((fs1, ix), t)) = (st, Replied r)"
proof -
  have t: "tk_phase t = Reading body"
    using assms(1) by (auto simp: publish_begin_def split: sum.splits prod.splits)
  obtain m where n: "n = length body + Suc (Suc (Suc (Suc (Suc (Suc (Suc m))))))"
    using le_Suc_ex [OF assms(3)] by auto
  show ?thesis
    using assms(1,2) unfolding n task_run_reading [OF t] publish_stream_begin
    by (auto simp: task_run_sealing simp del: task_run.simps split: prod.splits sum.splits)
qed

section \<open>What one task knows\<close>

text \<open>\<open>staged\<close>: the whole body has been read; the task has the addresses of the plain bytes and of the
  ciphertext \<open>ct\<close>, and the key that decrypts it.\<close>

definition staged ::
    "'h hash_api \<Rightarrow> 's aead_api \<Rightarrow> 'z zstd_api \<Rightarrow> ('h, 's, 'z) publish_task \<Rightarrow> bytes \<Rightarrow> bool" where
  "staged H B Z t ct \<longleftrightarrow>
     (\<exists>cs. tk_body t = map Inr cs \<and> task_inner H t = ContentHash_of H (concat cs) \<and>
        task_outer H t = ContentHash_of H ct \<and> ps_size (tk_ps t) = word_of_nat (length (concat cs)) \<and>
        decrypts_to B Z (enc_cek (ps_enc (tk_ps t))) (enc_nonce (ps_enc (tk_ps t))) ct (concat cs) \<and>
        length (enc_cek (ps_enc (tk_ps t))) = CEK_LEN \<and> length (enc_nonce (ps_enc (tk_ps t))) = NONCE_LEN)"

definition reading ::
    "'h hash_api \<Rightarrow> 's aead_api \<Rightarrow> 'z zstd_api \<Rightarrow> blob_fs \<Rightarrow> ('h, 's, 'z) publish_task \<Rightarrow> (string + bytes) list \<Rightarrow> bool" where
  "reading H B Z fs t rest \<longleftrightarrow>
     (\<exists>enc z0 cs zs fed cts. tk_body t = map Inr cs @ rest \<and> zstd_new Z = Inr z0 \<and>
        aes_gcm_encrypt_stream B (enc_cek enc) (enc_nonce enc) = Inr (enc_inner enc) \<and>
        length (enc_cek enc) = CEK_LEN \<and> length (enc_nonce enc) = NONCE_LEN \<and>
        pub_inv H B Z (sink_tmp (tk_sink t)) enc z0 cs zs fed cts (fs, tk_ps t))"

text \<open>A successful answer names the body's own address, a stored blob, and an indexed artifact.\<close>

definition answer_ok ::
    "'h hash_api \<Rightarrow> blob_fs \<Rightarrow> (ContentHash \<Rightarrow> ArtifactEntry option) \<Rightarrow> (string + bytes) list \<Rightarrow> ArtifactRef \<Rightarrow> bool" where
  "answer_ok H fs look body r \<longleftrightarrow>
     (\<exists>cs. body = map Inr cs \<and> ar_inner r = ContentHash_of H (concat cs)) \<and>
     fs_files fs (blob_path H (ar_outer r)) \<noteq> None \<and> look (ar_inner r) \<noteq> None"

fun phase_ok ::
    "'h hash_api \<Rightarrow> 's aead_api \<Rightarrow> 'z zstd_api \<Rightarrow> blob_fs \<Rightarrow> (ContentHash \<Rightarrow> ArtifactEntry option)
      \<Rightarrow> ('h, 's, 'z) publish_task \<Rightarrow> phase \<Rightarrow> bool" where
  "phase_ok H B Z fs look t (Reading rest) = (\<not> sink_committed (tk_sink t) \<and> reading H B Z fs t rest)"
| "phase_ok H B Z fs look t Sealing = (\<not> sink_committed (tk_sink t) \<and> reading H B Z fs t [])"
| "phase_ok H B Z fs look t Indexing =
     (sink_committed (tk_sink t) \<and> (\<exists>ct. staged H B Z t ct) \<and> fs_files fs (blob_path H (task_outer H t)) \<noteq> None)"
| "phase_ok H B Z fs look t Discarding =
     ((\<exists>ct. staged H B Z t ct) \<and> fs_files fs (blob_path H (task_outer H t)) \<noteq> None)"
| "phase_ok H B Z fs look t (Replied (Inl e)) = True"
| "phase_ok H B Z fs look t (Replied (Inr r)) = answer_ok H fs look (tk_body t) r"
| "phase_ok H B Z fs look t Cancelled = True"
| "phase_ok H B Z fs look t _ =
     (\<not> sink_committed (tk_sink t) \<and> (\<exists>ct. staged H B Z t ct \<and> fs_files fs (sink_tmp (tk_sink t)) = Some ct))"

abbreviation task_ok ::
    "'h hash_api \<Rightarrow> 's aead_api \<Rightarrow> 'z zstd_api \<Rightarrow> blob_fs \<Rightarrow> (ContentHash \<Rightarrow> ArtifactEntry option)
      \<Rightarrow> ('h, 's, 'z) publish_task \<Rightarrow> bool" where
  "task_ok H B Z fs look t \<equiv> phase_ok H B Z fs look t (tk_phase t)"

section \<open>What one task does to the others\<close>

definition guarantee :: "'h hash_api \<Rightarrow> string \<Rightarrow> blob_fs \<Rightarrow> blob_fs \<Rightarrow> bool" where
  "guarantee H tmp fs fs' \<longleftrightarrow>
     fs_pid fs' = fs_pid fs \<and> temp_seq fs' = temp_seq fs \<and>
     (\<forall>n. n \<noteq> tmp \<and> (\<forall>h. n \<noteq> blob_path H h) \<longrightarrow> fs_files fs' n = fs_files fs n) \<and>
     (\<forall>h. fs_files fs (blob_path H h) \<noteq> None \<longrightarrow> fs_files fs' (blob_path H h) \<noteq> None) \<and>
     (\<forall>h b. fs_files fs' (blob_path H h) = Some b \<longrightarrow> fs_files fs (blob_path H h) = Some b \<or> ContentHash_of H b = h)"

lemma guarantee_refl [simp]: "guarantee H tmp fs fs"
  by (simp add: guarantee_def)

lemma guarantee_trans: "guarantee H tmp a b \<Longrightarrow> guarantee H tmp b c \<Longrightarrow> guarantee H tmp a c"
  unfolding guarantee_def by metis

lemma guarantee_content: "guarantee H tmp fs fs' \<Longrightarrow> content_ok H l fs \<Longrightarrow> content_ok H l fs'"
  unfolding guarantee_def content_ok_def by metis

lemma guarantee_blob:
  "guarantee H tmp fs fs' \<Longrightarrow> fs_files fs (blob_path H h) \<noteq> None \<Longrightarrow> fs_files fs' (blob_path H h) \<noteq> None"
  by (simp add: guarantee_def)

lemma guarantee_only_at:
  assumes "hash_api_ok H" and "only_at (temp_name p q) fs fs'" and "fs_pid fs' = fs_pid fs" "temp_seq fs' = temp_seq fs"
  shows "guarantee H (temp_name p q) fs fs'"
  using assms temp_name_not_blob [OF assms(1)] by (auto simp: guarantee_def only_at_def)

lemma guarantee_temp:
  assumes "guarantee H tmp fs fs'" and "hash_api_ok H" and "temp_name p q \<noteq> tmp"
  shows "fs_files fs' (temp_name p q) = fs_files fs (temp_name p q)"
proof -
  have "\<forall>h. temp_name p q \<noteq> blob_path H h"
    using temp_name_not_blob [OF assms(2)] by metis
  with assms(1,3) show ?thesis by (simp add: guarantee_def)
qed

text \<open>The facts about a task survive the steps of the others.\<close>

lemma phase_ok_stable:
  assumes "guarantee H tmp fs fs'" and "hash_api_ok H" and "l \<subseteq>\<^sub>m l'"
    and "live_phase ph \<longrightarrow> sink_tmp (tk_sink t) = temp_name p q \<and> sink_tmp (tk_sink t) \<noteq> tmp"
    and "phase_ok H B Z fs l t ph"
  shows "phase_ok H B Z fs' l' t ph"
proof -
  have same: "fs_files fs' (sink_tmp (tk_sink t)) = fs_files fs (sink_tmp (tk_sink t))" if "live_phase ph"
    using guarantee_temp [OF assms(1,2)] assms(4) that by metis
  have kept: "l' k \<noteq> None" if "l k \<noteq> None" for k
    using that assms(3) by (force simp: map_le_def dom_def)
  show ?thesis
    using assms(5) same kept guarantee_blob [OF assms(1)]
    by (cases "(H, B, Z, fs, l, t, ph)" rule: phase_ok.cases)
      (auto simp: reading_def pub_inv_def answer_ok_def)
qed

section \<open>The steps of a task\<close>

definition store_ok :: "'h hash_api \<Rightarrow> 's aead_api \<Rightarrow> 'z zstd_api \<Rightarrow> blob_fs \<Rightarrow> PgIndex \<Rightarrow> bool" where
  "store_ok H B Z fs ix \<longleftrightarrow>
     pg_wf H ix \<and> content_ok H (pg_look H ix) fs \<and> indexed_sound H B Z (pg_look H ix)"

definition good_step ::
    "'h hash_api \<Rightarrow> 's aead_api \<Rightarrow> 'z zstd_api \<Rightarrow> blob_fs \<times> PgIndex \<Rightarrow> ('h, 's, 'z) publish_task
      \<Rightarrow> (blob_fs \<times> PgIndex) \<times> ('h, 's, 'z) publish_task \<Rightarrow> bool" where
  "good_step H B Z st t p \<longleftrightarrow>
     guarantee H (sink_tmp (tk_sink t)) (fst st) (fst (fst p)) \<and>
     store_ok H B Z (fst (fst p)) (snd (fst p)) \<and>
     pg_look H (snd st) \<subseteq>\<^sub>m pg_look H (snd (fst p)) \<and>
     task_ok H B Z (fst (fst p)) (pg_look H (snd (fst p))) (snd p) \<and>
     sink_tmp (tk_sink (snd p)) = sink_tmp (tk_sink t) \<and> (live (snd p) \<longrightarrow> live t)"

lemma good_step_same_index:
  assumes "store_ok H B Z fs ix" and "guarantee H (sink_tmp (tk_sink t)) fs fs'"
    and "task_ok H B Z fs' (pg_look H ix) t'" and "sink_tmp (tk_sink t') = sink_tmp (tk_sink t)"
    and "live t' \<longrightarrow> live t"
  shows "good_step H B Z (fs, ix) t ((fs', ix), t')"
  using assms guarantee_content [OF assms(2)] by (simp add: good_step_def store_ok_def)

lemma remove_file_meta [simp]:
  "fs_pid (remove_file io fs n) = fs_pid fs" "temp_seq (remove_file io fs n) = temp_seq fs"
  by (simp_all add: remove_file_def)

lemma sink_drop_meta [simp]:
  "fs_pid (sink_drop io fs sink) = fs_pid fs" "temp_seq (sink_drop io fs sink) = temp_seq fs"
  by (simp_all add: sink_drop_def)

lemma guarantee_drop:
  assumes "hash_api_ok H" and "sink_tmp sink = temp_name p q"
  shows "guarantee H (temp_name p q) fs (sink_drop io fs sink)"
  using guarantee_only_at [OF assms(1) only_at_drop [of sink fs io, unfolded assms(2)]] by simp

lemma good_return:
  assumes "hash_api_ok H" and "store_ok H B Z fs ix" and "guarantee H (sink_tmp (tk_sink t)) fs fs1"
    and "sink_tmp (tk_sink t) = temp_name p q" and "live t" and "sink_tmp (tk_sink u) = sink_tmp (tk_sink t)"
    and "\<And>x. r = Inr x \<Longrightarrow> answer_ok H fs1 (pg_look H ix) (tk_body u) x"
  shows "good_step H B Z (fs, ix) t (task_return io (fs1, ix) u r)"
proof -
  have drop: "guarantee H (sink_tmp (tk_sink t)) fs1 (sink_drop io fs1 (tk_sink u))"
    unfolding assms(4) by (rule guarantee_drop [OF assms(1)]) (simp add: assms(4,6))
  have "task_ok H B Z (sink_drop io fs1 (tk_sink u)) (pg_look H ix) (u\<lparr>tk_phase := Replied r\<rparr>)"
    using assms(7) guarantee_blob [OF drop] by (cases r) (auto simp: answer_ok_def)
  then show ?thesis
    unfolding task_return_def fst_conv snd_conv
    using assms(5,6) guarantee_trans [OF assms(3) drop] by (intro good_step_same_index [OF assms(2)]) simp_all
qed

lemma write_ciphertext_meta:
  "write_ciphertext H B io sink c st = (fs', r) \<Longrightarrow> fs_pid fs' = fs_pid (fst st) \<and> temp_seq fs' = temp_seq (fst st)"
  by (auto simp: write_ciphertext_def sink_write_all_def Let_def split: if_splits sum.splits prod.splits)

lemma publish_chunk_guarantee:
  assumes "hash_api_ok H" and "sink_tmp sink = temp_name p q"
    and "publish_chunks H B Z io sink [c] (fs, ps) = (fs', r)"
  shows "guarantee H (sink_tmp sink) fs fs'"
proof -
  have "fs_pid fs' = fs_pid fs \<and> temp_seq fs' = temp_seq fs"
    using assms(3) by (cases c) (auto simp: Let_def dest!: write_ciphertext_meta split: sum.splits prod.splits)
  then show ?thesis
    using guarantee_only_at [OF assms(1)] only_at_publish_chunks [OF assms(3)] assms(2) by simp
qed

lemma publish_finish_guarantee:
  assumes "hash_api_ok H" and "sink_tmp sink = temp_name p q"
    and "publish_finish H B Z io sink (fs, ps) = (fs', r)"
  shows "guarantee H (sink_tmp sink) fs fs'"
proof -
  have "fs_pid fs' = fs_pid fs \<and> temp_seq fs' = temp_seq fs"
    using assms(3) by (auto simp: publish_finish_def sink_write_all_def dest!: write_ciphertext_meta
        split: sum.splits prod.splits if_splits)
  then show ?thesis
    using guarantee_only_at [OF assms(1)] only_at_publish_finish [OF assms(3)] assms(2) by simp
qed

lemma reading_chunk:
  assumes "reading H B Z fs t (c # rest)"
    and "publish_chunks H B Z io (tk_sink t) [c] (fs, tk_ps t) = (fs', Inr ps')"
  shows "reading H B Z fs' (t\<lparr>tk_ps := ps', tk_phase := ph\<rparr>) rest"
proof -
  obtain enc z0 cs zs fed cts where r: "tk_body t = map Inr cs @ c # rest" "zstd_new Z = Inr z0"
    "aes_gcm_encrypt_stream B (enc_cek enc) (enc_nonce enc) = Inr (enc_inner enc)"
    "length (enc_cek enc) = CEK_LEN" "length (enc_nonce enc) = NONCE_LEN"
    and inv: "pub_inv H B Z (sink_tmp (tk_sink t)) enc z0 cs zs fed cts (fs, tk_ps t)"
    using assms(1) unfolding reading_def by blast
  from publish_chunks_inv [OF assms(2) inv] obtain cs' zs' fed' cts' where c: "[c] = map Inr cs'"
    and inv': "pub_inv H B Z (sink_tmp (tk_sink t)) enc z0 (cs @ cs') zs' fed' cts' (fs', ps')"
    by (elim exE conjE) (rule that)
  have "tk_body t = map Inr (cs @ cs') @ rest"
    using r(1) c by (metis append.assoc append_Cons append_Nil map_append)
  with r inv' show ?thesis
    unfolding reading_def by (intro exI [of _ enc] exI [of _ z0] exI [of _ "cs @ cs'"] exI) auto
qed

lemma reading_staged:
  assumes "hash_api_ok H" and "aead_ok B" and "zstd_ok Z" and "reading H B Z fs t []"
    and "publish_finish H B Z io (tk_sink t) (fs, tk_ps t) = (fs', Inr ps')"
  shows "\<exists>ct. staged H B Z (t\<lparr>tk_ps := ps', tk_phase := ph\<rparr>) ct \<and> fs_files fs' (sink_tmp (tk_sink t)) = Some ct"
proof -
  obtain enc z0 cs zs fed cts where r: "tk_body t = map Inr cs" "zstd_new Z = Inr z0"
    "aes_gcm_encrypt_stream B (enc_cek enc) (enc_nonce enc) = Inr (enc_inner enc)"
    "length (enc_cek enc) = CEK_LEN" "length (enc_nonce enc) = NONCE_LEN"
    and inv: "pub_inv H B Z (sink_tmp (tk_sink t)) enc z0 cs zs fed cts (fs, tk_ps t)"
    using assms(4) unfolding reading_def by auto
  from publish_finish_inv [OF assms(1,5) inv] obtain tail fed' s cts' tag
    where fin: "zstd_finish Z (ps_zenc (tk_ps t)) = Inr tail" "concat fed' = zs @ tail"
      "aead_run B (enc_inner enc) fed' = Inr (s, cts')" "aead_finalize B s = Inr tag"
      "fs_files fs' (sink_tmp (tk_sink t)) = Some (concat cts' @ tag)"
      "hasher_finalize H (ps_outer_h ps') = ContentHash_of H (concat cts' @ tag)"
      "hasher_finalize H (ps_inner_h ps') = ContentHash_of H (concat cs)"
      "ps_size ps' = word_of_nat (length (concat cs))"
      "enc_cek (ps_enc ps') = enc_cek enc" "enc_nonce (ps_enc ps') = enc_nonce enc"
    by blast
  have "zstd_run Z z0 cs = Inr (ps_zenc (tk_ps t), zs)"
    using inv by (simp add: pub_inv_def)
  from decrypts_to_run [OF assms(2,3) r(3) fin(3,4) r(2) this fin(1,2)] show ?thesis
    using r(1,4,5) fin(5-10) by (auto simp: staged_def task_inner_def task_outer_def)
qed

lemma sink_rename_ok:
  assumes "hash_api_ok H" and "sink_tmp sink = temp_name p q" and "fs_files fs (sink_tmp sink) = Some ct"
    and "sink_rename H io fs sink (ContentHash_of H ct) = (fs', sink', Inr u)"
  shows "guarantee H (sink_tmp sink) fs fs' \<and> sink' = sink\<lparr>sink_committed := True\<rparr> \<and>
    fs_files fs' (blob_path H (ContentHash_of H ct)) \<noteq> None"
proof -
  have fs': "fs' = fs\<lparr>fs_files := (fs_files fs)(sink_tmp sink := None, blob_path H (ContentHash_of H ct) := Some ct)\<rparr>"
    and sink': "sink' = sink\<lparr>sink_committed := True\<rparr>"
    using assms(3,4) by (auto simp: sink_rename_def Let_def split: if_splits)
  have "blob_path H h \<noteq> sink_tmp sink" for h
    unfolding assms(2) by (rule temp_name_not_blob [OF assms(1)])
  then show ?thesis
    by (auto simp: fs' sink' guarantee_def blob_path_inj [OF assms(1)])
qed

lemma reading_phase [simp]: "reading H B Z fs (t\<lparr>tk_phase := ph\<rparr>) rest = reading H B Z fs t rest"
  by (simp add: reading_def)

lemma staged_phase [simp]:
  "staged H B Z (t\<lparr>tk_phase := ph\<rparr>) = staged H B Z t" "staged H B Z (t\<lparr>tk_sink := s\<rparr>) = staged H B Z t"
  by (simp_all add: staged_def fun_eq_iff)

lemma staged_entry:
  assumes "hash_api_ok H" and "staged H B Z t ct"
  shows "entry_ok (task_entry H t)"
  using assms ContentHash_of_ok [OF assms(1)] by (auto simp: staged_def entry_ok_def task_entry_def)

text \<open>Recording the artifact: the entry is sound, and an entry that is already there stays.\<close>

lemma index_put_ok:
  assumes "hash_api_ok H" and "store_ok H B Z fs ix" and "staged H B Z t ct"
    and "fs_files fs (blob_path H (task_outer H t)) \<noteq> None" and "index_put (pg_index_api H) ix (task_entry H t) = Inr ix'"
  shows "store_ok H B Z fs ix' \<and> pg_look H ix \<subseteq>\<^sub>m pg_look H ix' \<and> pg_look H ix' (task_inner H t) \<noteq> None"
proof -
  let ?l = "pg_look H ix"
  have inner: "ae_inner (task_entry H t) = task_inner H t"
    by (simp add: task_entry_def)
  have put: "pg_put H ix (task_entry H t) = Inr ix'"
    using assms(5) by (simp add: pg_index_api_def)
  have ok: "pg_wf H ix" "content_ok H ?l fs" "indexed_sound H B Z ?l"
    using assms(2) by (simp_all add: store_ok_def)
  have wf: "pg_wf H ix'" and look: "pg_look H ix' =
      (case ?l (task_inner H t) of Some _ \<Rightarrow> ?l | None \<Rightarrow> ?l(task_inner H t \<mapsto> task_entry H t))"
    using pg_put_look [OF assms(1) ok(1) staged_entry [OF assms(1,3)] put, unfolded inner] by simp_all
  show ?thesis
  proof (cases "?l (task_inner H t)")
    case None
    have dec: "\<exists>ct p. ContentHash_of H ct = ae_outer (task_entry H t) \<and>
        decrypts_to B Z (ae_cek (task_entry H t)) (ae_nonce (task_entry H t)) ct p \<and> ContentHash_of H p = task_inner H t"
      using assms(3) unfolding staged_def task_entry_def ArtifactEntry.simps by metis
    have "content_ok H (pg_look H ix') fs"
      using ok(2) assms(4) look None by (auto simp: content_ok_def task_entry_def)
    moreover have "indexed_sound H B Z (pg_look H ix')"
      using ok(3) dec look None by (simp add: indexed_sound_def)
    ultimately show ?thesis
      using wf look None by (auto simp: store_ok_def map_le_def)
  qed (use wf look ok in \<open>simp add: store_ok_def\<close>)
qed

lemma good_looking:
  assumes "hash_api_ok H" and "store_ok H B Z fs ix" and "sink_tmp (tk_sink t) = temp_name p q"
    and "task_ok H B Z fs (pg_look H ix) t" and "tk_phase t = Looking"
  shows "good_step H B Z (fs, ix) t (task_step H B Z (pg_index_api H) io (fs, ix) t)"
proof -
  obtain ct where st: "staged H B Z t ct"
    using assms(4,5) by auto
  have live: "live t"
    using assms(5) by simp
  note ret = good_return [OF assms(1,2) guarantee_refl assms(3) live]
  have get: "index_get (pg_index_api H) ix k = (if pg_down ix then Inl ''database error'' else Inr (pg_look H ix k))" for k
    using assms(2) by (simp add: pg_index_api_def pg_get_look store_ok_def)
  show ?thesis
  proof (cases "pg_down ix \<or> pg_look H ix (task_inner H t) \<noteq> None")
    case True
    then show ?thesis
      using assms(2,5) st
      by (auto simp: task_step_def Let_def get staged_def answer_ok_def store_ok_def content_ok_def intro!: ret)
  next
    case False
    then show ?thesis
      using assms(4,5) by (auto simp: task_step_def Let_def get intro!: good_step_same_index [OF assms(2)])
  qed
qed

lemma good_renaming:
  assumes "hash_api_ok H" and "store_ok H B Z fs ix" and "sink_tmp (tk_sink t) = temp_name p q"
    and "task_ok H B Z fs (pg_look H ix) t" and "tk_phase t = Renaming"
  shows "good_step H B Z (fs, ix) t (task_step H B Z (pg_index_api H) io (fs, ix) t)"
proof -
  obtain ct where st: "staged H B Z t ct" and ct: "fs_files fs (sink_tmp (tk_sink t)) = Some ct"
    using assms(4,5) by auto
  have live: "live t" and outer: "task_outer H t = ContentHash_of H ct"
    using assms(5) st by (auto simp: staged_def)
  obtain fs1 sink1 r where ren: "sink_rename H io fs (tk_sink t) (ContentHash_of H ct) = (fs1, sink1, r)"
    by (metis prod_cases3)
  show ?thesis
  proof (cases r)
    case (Inl e)
    with ren have "fs1 = fs" "sink1 = tk_sink t"
      by (auto simp: sink_rename_def Let_def split: if_splits)
    then show ?thesis
      using assms(5) ren Inl outer
      by (auto simp: task_step_def Let_def
          intro!: good_return [OF assms(1,2) guarantee_refl assms(3) live])
  next
    case (Inr u)
    from sink_rename_ok [OF assms(1,3) ct ren [unfolded Inr]] show ?thesis
      using assms(5) ren Inr outer st
      by (auto simp: task_step_def Let_def intro!: good_step_same_index [OF assms(2)])
  qed
qed

lemma good_indexing:
  assumes "hash_api_ok H" and "store_ok H B Z fs ix" and "sink_tmp (tk_sink t) = temp_name p q"
    and "task_ok H B Z fs (pg_look H ix) t" and "tk_phase t = Indexing"
  shows "good_step H B Z (fs, ix) t (task_step H B Z (pg_index_api H) io (fs, ix) t)"
proof -
  obtain ct where st: "staged H B Z t ct" and blob: "fs_files fs (blob_path H (task_outer H t)) \<noteq> None"
    and com: "sink_committed (tk_sink t)"
    using assms(4,5) by auto
  have live: "live t" and drop: "sink_drop io fs (tk_sink t) = fs"
    using assms(5) com by (simp_all add: sink_drop_def)
  show ?thesis
  proof (cases "index_put (pg_index_api H) ix (task_entry H t)")
    case (Inl e)
    then show ?thesis
      using assms(5) by (auto simp: task_step_def Let_def
          intro!: good_return [OF assms(1,2) guarantee_refl assms(3) live])
  next
    case (Inr ix1)
    have "answer_ok H fs (pg_look H ix1) (tk_body t)
        \<lparr>ar_inner = task_inner H t, ar_outer = task_outer H t, ar_size = ps_size (tk_ps t)\<rparr>"
      using index_put_ok [OF assms(1,2) st blob Inr] st blob by (auto simp: answer_ok_def staged_def)
    then show ?thesis
      using index_put_ok [OF assms(1,2) st blob Inr] Inr assms(5) drop
      by (simp add: task_step_def Let_def task_return_def good_step_def)
  qed
qed

text \<open>Every step of a task, whatever fails in it.\<close>

lemma good_reading:
  assumes "hash_api_ok H" and "store_ok H B Z fs ix" and "sink_tmp (tk_sink t) = temp_name p q"
    and "task_ok H B Z fs (pg_look H ix) t" and "tk_phase t = Reading rest"
  shows "good_step H B Z (fs, ix) t (task_step H B Z (pg_index_api H) io (fs, ix) t)"
proof (cases rest)
  case Nil
  with assms(4,5) show ?thesis
    by (auto simp: task_step_def Let_def intro!: good_step_same_index [OF assms(2)])
next
  case (Cons c more)
  obtain fs1 r where c: "publish_chunks H B Z io (tk_sink t) [c] (fs, tk_ps t) = (fs1, r)"
    by (metis surj_pair)
  have live: "live t"
    using assms(5) by simp
  show ?thesis
    using Cons assms(4,5) publish_chunk_guarantee [OF assms(1,3) c] c reading_chunk [of H B Z fs t c more io fs1]
    by (cases r) (auto simp: task_step_def Let_def simp del: publish_chunks.simps
        intro!: good_return [OF assms(1,2) _ assms(3) live] good_step_same_index [OF assms(2)])
qed

lemma good_sealing:
  assumes "hash_api_ok H" and "aead_ok B" and "zstd_ok Z"
    and "store_ok H B Z fs ix" and "sink_tmp (tk_sink t) = temp_name p q"
    and "task_ok H B Z fs (pg_look H ix) t" and "tk_phase t = Sealing"
  shows "good_step H B Z (fs, ix) t (task_step H B Z (pg_index_api H) io (fs, ix) t)"
proof -
  obtain fs1 r where c: "publish_finish H B Z io (tk_sink t) (fs, tk_ps t) = (fs1, r)"
    by (metis surj_pair)
  have live: "live t"
    using assms(7) by simp
  show ?thesis
    using assms(6,7) publish_finish_guarantee [OF assms(1,5) c] c reading_staged [OF assms(1-3), of fs t io fs1]
    by (cases r) (auto simp: task_step_def Let_def
        intro!: good_return [OF assms(1,4) _ assms(5) live] good_step_same_index [OF assms(4)])
qed

lemma task_step_good:
  assumes "hash_api_ok H" and "aead_ok B" and "zstd_ok Z"
    and "store_ok H B Z fs ix" and "live t \<longrightarrow> sink_tmp (tk_sink t) = temp_name p q"
    and "task_ok H B Z fs (pg_look H ix) t"
  shows "good_step H B Z (fs, ix) t (task_step H B Z (pg_index_api H) io (fs, ix) t)"
proof (cases "live t")
  case False
  then have "task_step H B Z (pg_index_api H) io (fs, ix) t = ((fs, ix), t)"
    by (cases "tk_phase t") (simp_all add: task_step_def Let_def)
  then show ?thesis
    using good_step_same_index [OF assms(4) guarantee_refl assms(6)] by simp
next
  case live: True
  have tmp: "sink_tmp (tk_sink t) = temp_name p q"
    using assms(5) live by simp
  note ret = good_return [OF assms(1,4) _ tmp live]
    and same = good_step_same_index [OF assms(4)]
  show ?thesis
  proof (cases "tk_phase t")
    case (Reading rest)
    then show ?thesis
      by (rule good_reading [OF assms(1,4) tmp assms(6)])
  next
    case Sealing
    then show ?thesis
      by (rule good_sealing [OF assms(1-4) tmp assms(6)])
  next
    case Flushing
    then show ?thesis
      using assms(6) tmp by (auto simp: task_step_def Let_def sink_flush_def intro!: ret [OF guarantee_refl] same)
  next
    case Checking
    then show ?thesis
      using assms(6) by (auto simp: task_step_def Let_def dest_exists_def intro!: same)
  next
    case Discarding
    have "guarantee H (sink_tmp (tk_sink t)) fs (remove_file io fs (sink_tmp (tk_sink t)))"
      unfolding tmp using guarantee_only_at [OF assms(1) only_at_remove] by simp
    with guarantee_blob [OF this, of "task_outer H t"] show ?thesis
      using Discarding assms(6) by (auto simp: task_step_def Let_def sink_discard_def intro!: same intro: exI)
  qed (use live assms(6) good_looking [OF assms(1,4) tmp] good_renaming [OF assms(1,4) tmp] good_indexing [OF assms(1,4) tmp] in auto)
qed

section \<open>Any interleaving\<close>

text \<open>The invariant of the service: the store invariant, the facts about every task, and no two running
  tasks with the same temporary file.\<close>

definition service_ok ::
    "'h hash_api \<Rightarrow> 's aead_api \<Rightarrow> 'z zstd_api \<Rightarrow> ('h, 's, 'z) content_service \<Rightarrow> bool" where
  "service_ok H B Z s \<longleftrightarrow>
     store_ok H B Z (sv_fs s) (sv_ix s) \<and>
     (\<forall>i < length (sv_tasks s). task_ok H B Z (sv_fs s) (pg_look H (sv_ix s)) (sv_tasks s ! i)) \<and>
     (\<forall>i < length (sv_tasks s). live (sv_tasks s ! i) \<longrightarrow>
        (\<exists>q < temp_seq (sv_fs s). sink_tmp (tk_sink (sv_tasks s ! i)) = temp_name (fs_pid (sv_fs s)) q)) \<and>
     (\<forall>i < length (sv_tasks s). \<forall>j < length (sv_tasks s). i \<noteq> j \<and> live (sv_tasks s ! i) \<and> live (sv_tasks s ! j) \<longrightarrow>
        sink_tmp (tk_sink (sv_tasks s ! i)) \<noteq> sink_tmp (tk_sink (sv_tasks s ! j)))"

definition service_grows :: "'h hash_api \<Rightarrow> ('h, 's, 'z) content_service \<Rightarrow> ('h, 's, 'z) content_service \<Rightarrow> bool" where
  "service_grows H s s' \<longleftrightarrow> pg_look H (sv_ix s) \<subseteq>\<^sub>m pg_look H (sv_ix s') \<and>
     (\<forall>h. fs_files (sv_fs s) (blob_path H h) \<noteq> None \<longrightarrow> fs_files (sv_fs s') (blob_path H h) \<noteq> None)"

lemma service_grows_refl [simp]: "service_grows H s s"
  by (simp add: service_grows_def)

lemma service_grows_trans: "service_grows H a b \<Longrightarrow> service_grows H b c \<Longrightarrow> service_grows H a c"
  unfolding service_grows_def using map_le_trans by blast

lemma phase_ok_files:
  "fs_files fs' = fs_files fs \<Longrightarrow> phase_ok H B Z fs' l t ph = phase_ok H B Z fs l t ph"
  by (cases "(H, B, Z, fs, l, t, ph)" rule: phase_ok.cases) (simp_all add: reading_def pub_inv_def answer_ok_def)

lemma store_ok_files: "fs_files fs' = fs_files fs \<Longrightarrow> store_ok H B Z fs' ix = store_ok H B Z fs ix"
  by (simp add: store_ok_def content_ok_def)

lemma temp_name_inj [simp]: "temp_name p q = temp_name p r \<longleftrightarrow> q = r"
  by (simp add: temp_name_def word_unat_eq_iff)

lemma service_task:
  assumes "service_ok H B Z s" and "i < length (sv_tasks s)"
  shows "task_ok H B Z (sv_fs s) (pg_look H (sv_ix s)) (sv_tasks s ! i)"
    and "live (sv_tasks s ! i) \<Longrightarrow>
      \<exists>q < temp_seq (sv_fs s). sink_tmp (tk_sink (sv_tasks s ! i)) = temp_name (fs_pid (sv_fs s)) q"
    and "j < length (sv_tasks s) \<Longrightarrow> i \<noteq> j \<Longrightarrow> live (sv_tasks s ! i) \<Longrightarrow> live (sv_tasks s ! j) \<Longrightarrow>
      sink_tmp (tk_sink (sv_tasks s ! i)) \<noteq> sink_tmp (tk_sink (sv_tasks s ! j))"
  using assms by (simp_all add: service_ok_def)

text \<open>One task moved, by a step of its own or by its cancellation.\<close>

lemma service_task_moved:
  assumes "hash_api_ok H" and ok: "service_ok H B Z s" and i: "i < length (sv_tasks s)" "live (sv_tasks s ! i)"
    and g: "good_step H B Z (sv_fs s, sv_ix s) (sv_tasks s ! i) ((fs', ix'), t')"
  shows "service_ok H B Z (s\<lparr>sv_fs := fs', sv_ix := ix', sv_tasks := (sv_tasks s)[i := t']\<rparr>) \<and>
    service_grows H s (s\<lparr>sv_fs := fs', sv_ix := ix', sv_tasks := (sv_tasks s)[i := t']\<rparr>) \<and>
    temp_seq fs' = temp_seq (sv_fs s)"
proof -
  have gu: "guarantee H (sink_tmp (tk_sink (sv_tasks s ! i))) (sv_fs s) fs'"
    and st: "store_ok H B Z fs' ix'" and le: "pg_look H (sv_ix s) \<subseteq>\<^sub>m pg_look H ix'"
    and t': "task_ok H B Z fs' (pg_look H ix') t'" "sink_tmp (tk_sink t') = sink_tmp (tk_sink (sv_tasks s ! i))"
    using g by (simp_all add: good_step_def)
  have meta: "fs_pid fs' = fs_pid (sv_fs s)" "temp_seq fs' = temp_seq (sv_fs s)"
    using gu by (simp_all add: guarantee_def)
  have other: "task_ok H B Z fs' (pg_look H ix') (sv_tasks s ! j)" if j: "j < length (sv_tasks s)" "j \<noteq> i" for j
  proof -
    obtain q where "live (sv_tasks s ! j) \<longrightarrow> sink_tmp (tk_sink (sv_tasks s ! j)) = temp_name (fs_pid (sv_fs s)) q \<and>
        sink_tmp (tk_sink (sv_tasks s ! j)) \<noteq> sink_tmp (tk_sink (sv_tasks s ! i))"
      using service_task(2) [OF ok j(1)] service_task(3) [OF ok j(1) i(1) j(2)] i(2) by blast
    from phase_ok_stable [OF gu assms(1) le this service_task(1) [OF ok j(1)]] show ?thesis .
  qed
  have "service_ok H B Z (s\<lparr>sv_fs := fs', sv_ix := ix', sv_tasks := (sv_tasks s)[i := t']\<rparr>)"
    unfolding service_ok_def
    using st t' other meta service_task(2) [OF ok] service_task(3) [OF ok] i
    by (auto simp: nth_list_update)
  moreover have "service_grows H s (s\<lparr>sv_fs := fs', sv_ix := ix', sv_tasks := (sv_tasks s)[i := t']\<rparr>)"
    using le guarantee_blob [OF gu] by (simp add: service_grows_def)
  ultimately show ?thesis
    using meta by simp
qed

lemma publish_begin_refused:
  assumes "publish_begin H B Z io body fs = (fs1, Inl e)"
  shows "fs_files fs1 = fs_files fs" "fs_pid fs1 = fs_pid fs" "temp_seq fs1 = temp_seq fs \<or> temp_seq fs1 = temp_seq fs + 1"
  using assms by (auto simp: publish_begin_def blobs_begin_def Let_def split: sum.splits prod.splits if_splits)

lemma publish_begin_begun:
  assumes "publish_begin H B Z io body fs = (fs1, Inr t)"
  shows "\<exists>enc z0. StreamEncryptor_new B = Inr enc \<and> zstd_new Z = Inr z0 \<and>
    fs1 = fs\<lparr>fs_files := (fs_files fs)(temp_name (fs_pid fs) (temp_seq fs) \<mapsto> []), temp_seq := temp_seq fs + 1\<rparr> \<and>
    t = \<lparr>tk_body = body,
      tk_sink = \<lparr>sink_tmp = temp_name (fs_pid fs) (temp_seq fs), sink_file_open = True, sink_committed = False\<rparr>,
      tk_ps = \<lparr>ps_enc = enc, ps_zenc = z0, ps_inner_h = hasher H, ps_outer_h = hasher H, ps_size = 0\<rparr>,
      tk_phase = Reading body\<rparr>"
  using assms by (auto simp: publish_begin_def blobs_begin_def Let_def split: sum.splits prod.splits if_splits)

text \<open>A new task starts reading with an empty file that no running task has.\<close>

lemma service_arrived:
  assumes "hash_api_ok H" and ok: "service_ok H B Z s"
    and laws: "aead_ok (B\<lparr>random_cek := k, random_nonce := n\<rparr>)"
    and b: "publish_begin H (B\<lparr>random_cek := k, random_nonce := n\<rparr>) Z io body (sv_fs s) = (fs1, Inr t)"
    and room: "unat (temp_seq (sv_fs s)) + 1 < 2 ^ 64"
  shows "service_ok H B Z (s\<lparr>sv_fs := fs1, sv_tasks := sv_tasks s @ [t]\<rparr>)"
    and "service_grows H s (s\<lparr>sv_fs := fs1, sv_tasks := sv_tasks s @ [t]\<rparr>)"
proof -
  let ?tmp = "temp_name (fs_pid (sv_fs s)) (temp_seq (sv_fs s))"
  let ?fs = "(sv_fs s)\<lparr>fs_files := (fs_files (sv_fs s))(?tmp \<mapsto> [])\<rparr>"
  from publish_begin_begun [OF b] obtain enc z0 where
    enc: "StreamEncryptor_new (B\<lparr>random_cek := k, random_nonce := n\<rparr>) = Inr enc" and z0: "zstd_new Z = Inr z0"
    and fs1: "fs1 = ?fs\<lparr>temp_seq := temp_seq (sv_fs s) + 1\<rparr>"
    and t: "t = \<lparr>tk_body = body, tk_sink = \<lparr>sink_tmp = ?tmp, sink_file_open = True, sink_committed = False\<rparr>,
      tk_ps = \<lparr>ps_enc = enc, ps_zenc = z0, ps_inner_h = hasher H, ps_outer_h = hasher H, ps_size = 0\<rparr>,
      tk_phase = Reading body\<rparr>"
    by auto
  have files: "fs_files fs1 = fs_files ?fs" and meta: "fs_pid fs1 = fs_pid (sv_fs s)" "temp_seq fs1 = temp_seq (sv_fs s) + 1"
    by (simp_all add: fs1)
  have g: "guarantee H ?tmp (sv_fs s) ?fs"
    by (rule guarantee_only_at [OF assms(1)]) (simp_all add: only_at_def)
  have seq: "q < temp_seq (sv_fs s) \<Longrightarrow> q < temp_seq (sv_fs s) + 1" "temp_seq (sv_fs s) < temp_seq (sv_fs s) + 1" for q
    using room by (simp_all add: word_less_nat_alt unat_word_ariths)
  have fresh: "sink_tmp (tk_sink (sv_tasks s ! i)) \<noteq> ?tmp" if "i < length (sv_tasks s)" "live (sv_tasks s ! i)" for i
    using service_task(2) [OF ok that] by auto
  have names: "\<exists>q < temp_seq (sv_fs s) + 1. sink_tmp (tk_sink (sv_tasks s ! i)) = temp_name (fs_pid (sv_fs s)) q"
    if "i < length (sv_tasks s)" "live (sv_tasks s ! i)" for i
    using service_task(2) [OF ok that] seq(1) by blast
  have old: "task_ok H B Z fs1 (pg_look H (sv_ix s)) (sv_tasks s ! i)" if i: "i < length (sv_tasks s)" for i
  proof -
    obtain q where "live (sv_tasks s ! i) \<longrightarrow> sink_tmp (tk_sink (sv_tasks s ! i)) = temp_name (fs_pid (sv_fs s)) q \<and>
        sink_tmp (tk_sink (sv_tasks s ! i)) \<noteq> ?tmp"
      using service_task(2) [OF ok i] fresh [OF i] by blast
    from phase_ok_stable [OF g assms(1) map_le_refl this service_task(1) [OF ok i]] show ?thesis
      using phase_ok_files [OF files] by blast
  qed
  have "pub_inv H B Z ?tmp enc z0 [] [] [] [] (fs1, tk_ps t)"
    by (simp add: pub_inv_def t files)
  then have new: "task_ok H B Z fs1 (pg_look H (sv_ix s)) t"
    using z0 StreamEncryptor_new_ok(1) [OF enc] StreamEncryptor_new_ok(2) [OF enc laws]
    by (force simp: t reading_def)
  have "store_ok H B Z fs1 (sv_ix s)"
    using ok guarantee_content [OF g] by (simp add: store_ok_files [OF files]) (simp add: service_ok_def store_ok_def)
  then show "service_ok H B Z (s\<lparr>sv_fs := fs1, sv_tasks := sv_tasks s @ [t]\<rparr>)"
    unfolding service_ok_def
    using old new meta seq(2) names fresh fresh [symmetric] service_task(3) [OF ok]
    by (auto simp: nth_append less_Suc_eq t)
  show "service_grows H s (s\<lparr>sv_fs := fs1, sv_tasks := sv_tasks s @ [t]\<rparr>)"
    using guarantee_blob [OF g] by (simp add: service_grows_def files)
qed

fun event_ok :: "'s aead_api \<Rightarrow> event \<Rightarrow> bool" where
  "event_ok B (Arrive k n io body) = aead_ok (B\<lparr>random_cek := k, random_nonce := n\<rparr>)"
| "event_ok B _ = True"

lemma service_refused:
  assumes "service_ok H B Z s" and "fs_files fs1 = fs_files (sv_fs s)" and "fs_pid fs1 = fs_pid (sv_fs s)"
    and "temp_seq fs1 = temp_seq (sv_fs s) \<or> temp_seq fs1 = temp_seq (sv_fs s) + 1"
    and "unat (temp_seq (sv_fs s)) + 1 < 2 ^ 64"
  shows "service_ok H B Z (s\<lparr>sv_fs := fs1\<rparr>)"
proof -
  have "temp_seq (sv_fs s) \<le> temp_seq fs1"
    using assms(4,5) by (auto simp: word_le_nat_alt unat_word_ariths)
  then have "q < temp_seq fs1" if "q < temp_seq (sv_fs s)" for q
    using that by (rule order.strict_trans2 [rotated])
  then show ?thesis
    using assms(1,3) phase_ok_files [OF assms(2)] store_ok_files [OF assms(2)]
    unfolding service_ok_def by simp blast
qed

lemma service_arrive_ok:
  assumes "hash_api_ok H" and ok: "service_ok H B Z s" and laws: "aead_ok (B\<lparr>random_cek := k, random_nonce := n\<rparr>)"
    and room: "unat (temp_seq (sv_fs s)) + 1 < 2 ^ 64" and s': "s' = service_event H B Z (Arrive k n io body) s"
  shows "service_ok H B Z s' \<and> service_grows H s s' \<and> unat (temp_seq (sv_fs s')) \<le> unat (temp_seq (sv_fs s)) + 1"
proof -
  have succ: "unat (temp_seq (sv_fs s) + 1) = unat (temp_seq (sv_fs s)) + 1"
    using room by (simp add: unat_word_ariths)
  obtain fs1 r where b: "publish_begin H (B\<lparr>random_cek := k, random_nonce := n\<rparr>) Z io body (sv_fs s) = (fs1, r)"
    by (metis surj_pair)
  show ?thesis
  proof (cases r)
    case (Inl e)
    note ref = publish_begin_refused [OF b [unfolded Inl]]
    show ?thesis
      using s' b Inl service_refused [OF ok ref room] ref succ by (auto simp: service_grows_def)
  next
    case (Inr t)
    have "temp_seq fs1 = temp_seq (sv_fs s) + 1"
      using publish_begin_begun [OF b [unfolded Inr]] by auto
    then show ?thesis
      using service_arrived [OF assms(1) ok laws b [unfolded Inr] room] s' b Inr succ by simp
  qed
qed

lemma service_step_ok:
  assumes laws: "hash_api_ok H" "aead_ok B" "zstd_ok Z" and ok: "service_ok H B Z s"
    and s': "s' = service_event H B Z (Run i io) s"
  shows "service_ok H B Z s' \<and> service_grows H s s' \<and> temp_seq (sv_fs s') = temp_seq (sv_fs s)"
proof (cases "i < length (sv_tasks s) \<and> live (sv_tasks s ! i)")
  case True
  then obtain q where "live (sv_tasks s ! i) \<longrightarrow> sink_tmp (tk_sink (sv_tasks s ! i)) = temp_name (fs_pid (sv_fs s)) q"
    using service_task(2) [OF ok] by blast
  from task_step_good [OF laws _ this, of "sv_fs s" "sv_ix s" io]
  have good: "good_step H B Z (sv_fs s, sv_ix s) (sv_tasks s ! i)
      (task_step H B Z (pg_index_api H) io (sv_fs s, sv_ix s) (sv_tasks s ! i))"
    using ok service_task(1) [OF ok] True by (simp add: service_ok_def)
  obtain fs1 ix1 t where eq: "task_step H B Z (pg_index_api H) io (sv_fs s, sv_ix s) (sv_tasks s ! i) = ((fs1, ix1), t)"
    by (metis surj_pair)
  from service_task_moved [OF laws(1) ok _ _ good [unfolded eq]] True show ?thesis
    by (simp add: s' eq)
next
  case False
  then have "s' = s"
    unfolding s' by (cases "tk_phase (sv_tasks s ! i)") (auto simp: task_step_def Let_def)
  with ok show ?thesis by simp
qed

lemma service_cancel_ok:
  assumes "hash_api_ok H" and ok: "service_ok H B Z s" and s': "s' = service_event H B Z (Cancel i io) s"
  shows "service_ok H B Z s' \<and> service_grows H s s' \<and> temp_seq (sv_fs s') = temp_seq (sv_fs s)"
proof (cases "i < length (sv_tasks s) \<and> live (sv_tasks s ! i)")
  case True
  then obtain q where q: "sink_tmp (tk_sink (sv_tasks s ! i)) = temp_name (fs_pid (sv_fs s)) q"
    using service_task(2) [OF ok] by blast
  have "good_step H B Z (sv_fs s, sv_ix s) (sv_tasks s ! i)
      ((sink_drop io (sv_fs s) (tk_sink (sv_tasks s ! i)), sv_ix s), (sv_tasks s ! i)\<lparr>tk_phase := Cancelled\<rparr>)"
    using ok guarantee_drop [OF assms(1) q] q by (intro good_step_same_index) (simp_all add: service_ok_def)
  from service_task_moved [OF assms(1) ok _ _ this] True s' show ?thesis by simp
qed (use s' ok in auto)

lemma service_event_ok:
  assumes laws: "hash_api_ok H" "aead_ok B" "zstd_ok Z" and ok: "service_ok H B Z s" and ev: "event_ok B ev"
    and room: "unat (temp_seq (sv_fs s)) + 1 < 2 ^ 64"
  shows "service_ok H B Z (service_event H B Z ev s) \<and> service_grows H s (service_event H B Z ev s) \<and>
    unat (temp_seq (sv_fs (service_event H B Z ev s))) \<le> unat (temp_seq (sv_fs s)) + 1"
proof (cases ev)
  case (Arrive k n io body)
  then show ?thesis
    using service_arrive_ok [OF laws(1) ok _ room refl] ev by simp
next
  case (Run i io)
  then show ?thesis
    using service_step_ok [OF laws ok refl, of i io] by simp
next
  case (Cancel i io)
  then show ?thesis
    using service_cancel_ok [OF laws(1) ok refl, of i io] by simp
qed (use ok in \<open>auto simp: service_ok_def service_grows_def store_ok_def content_ok_def\<close>)

lemma service_run_ok:
  assumes laws: "hash_api_ok H" "aead_ok B" "zstd_ok Z"
    and "service_ok H B Z s" and "\<forall>ev \<in> set evs. event_ok B ev" and "unat (temp_seq (sv_fs s)) + length evs < 2 ^ 64"
  shows "service_ok H B Z (service_run H B Z evs s) \<and> service_grows H s (service_run H B Z evs s)"
  using assms(4-6)
proof (induction evs arbitrary: s)
  case (Cons ev evs)
  have step: "service_ok H B Z (service_event H B Z ev s)" "service_grows H s (service_event H B Z ev s)"
    "unat (temp_seq (sv_fs (service_event H B Z ev s))) \<le> unat (temp_seq (sv_fs s)) + 1"
    using service_event_ok [OF laws Cons.prems(1), of ev] Cons.prems by simp_all
  have "service_ok H B Z (service_run H B Z evs (service_event H B Z ev s)) \<and>
      service_grows H (service_event H B Z ev s) (service_run H B Z evs (service_event H B Z ev s))"
    using Cons.prems step(3) by (intro Cons.IH step(1)) simp_all
  then show ?case
    using service_grows_trans [OF step(2)] by (simp add: service_run_def)
qed (simp add: service_run_def)

section \<open>Every task comes to its end\<close>

fun steps_left :: "phase \<Rightarrow> nat" where
  "steps_left (Reading rest) = length rest + 7"
| "steps_left Sealing = 6"
| "steps_left Looking = 5"
| "steps_left Flushing = 4"
| "steps_left Checking = 3"
| "steps_left Discarding = 2"
| "steps_left Renaming = 2"
| "steps_left Indexing = 1"
| "steps_left (Replied r) = 0"
| "steps_left Cancelled = 0"

lemma steps_left_return [simp]: "tk_phase (snd (task_return io st t r)) = Replied r"
  by (simp add: task_return_def)

lemma task_step_left:
  "steps_left (tk_phase (snd (task_step H B Z A io st t))) \<le> steps_left (tk_phase t) - 1"
  "tk_phase t \<noteq> Cancelled \<Longrightarrow> tk_phase (snd (task_step H B Z A io st t)) \<noteq> Cancelled"
  by (cases "tk_phase t" rule: steps_left.cases;
      auto simp: task_step_def Let_def split: list.splits prod.splits sum.splits option.splits)+

fun leaves_task :: "nat \<Rightarrow> event \<Rightarrow> bool" where
  "leaves_task i (Cancel j io) = (i \<noteq> j)"
| "leaves_task i (Crash pid) = False"
| "leaves_task i _ = True"

fun runs_task :: "nat \<Rightarrow> event \<Rightarrow> bool" where
  "runs_task i (Run j io) = (i = j)"
| "runs_task i _ = False"

lemma service_event_left:
  assumes "i < length (sv_tasks s)" and "leaves_task i ev" and "tk_phase (sv_tasks s ! i) \<noteq> Cancelled"
    and "s' = service_event H B Z ev s"
  shows "i < length (sv_tasks s') \<and> tk_phase (sv_tasks s' ! i) \<noteq> Cancelled \<and>
    steps_left (tk_phase (sv_tasks s' ! i)) \<le> steps_left (tk_phase (sv_tasks s ! i)) - (if runs_task i ev then 1 else 0)"
proof (cases ev)
  case (Run j io)
  obtain fs1 ix1 t where eq: "task_step H B Z (pg_index_api H) io (sv_fs s, sv_ix s) (sv_tasks s ! j) = ((fs1, ix1), t)"
    by (metis surj_pair)
  show ?thesis
    using assms Run eq task_step_left(1) [of H B Z "pg_index_api H" io "(sv_fs s, sv_ix s)" "sv_tasks s ! j"]
      task_step_left(2) [of "sv_tasks s ! j" H B Z "pg_index_api H" io "(sv_fs s, sv_ix s)"]
    by (auto simp: nth_list_update)
qed (use assms in \<open>auto simp: nth_append nth_list_update split: prod.splits sum.splits\<close>)

lemma service_run_left:
  assumes "i < length (sv_tasks s)" and "\<forall>ev \<in> set evs. leaves_task i ev" and "tk_phase (sv_tasks s ! i) \<noteq> Cancelled"
    and "s' = service_run H B Z evs s"
  shows "i < length (sv_tasks s') \<and> tk_phase (sv_tasks s' ! i) \<noteq> Cancelled \<and>
    steps_left (tk_phase (sv_tasks s' ! i)) \<le> steps_left (tk_phase (sv_tasks s ! i)) - length (filter (runs_task i) evs)"
  using assms
proof (induction evs arbitrary: s)
  case (Cons ev evs)
  let ?s = "service_event H B Z ev s"
  have step: "i < length (sv_tasks ?s)" "tk_phase (sv_tasks ?s ! i) \<noteq> Cancelled"
    "steps_left (tk_phase (sv_tasks ?s ! i)) \<le> steps_left (tk_phase (sv_tasks s ! i)) - (if runs_task i ev then 1 else 0)"
    using service_event_left [OF Cons.prems(1) _ Cons.prems(3) refl, of ev] Cons.prems(2) by simp_all
  have "s' = service_run H B Z evs ?s"
    using Cons.prems(4) by (simp add: service_run_def)
  from Cons.IH [OF step(1) _ step(2) this] Cons.prems(2) step(3) show ?case
    by (auto split: if_splits)
qed (simp add: service_run_def)

lemma steps_left_0: "steps_left ph = 0 \<longleftrightarrow> (\<exists>r. ph = Replied r) \<or> ph = Cancelled"
  by (cases ph rule: steps_left.cases) auto

section \<open>A race\<close>

text \<open>Two clients upload the same byte at the same time, with the keys \<open>7\<close> and \<open>8\<close>: both tasks look before
  either has recorded its artifact.\<close>

definition ex_service :: "(bytes, u8, bytes) content_service" where
  "ex_service = \<lparr>sv_fs = ex_fs, sv_ix = ex_pg, sv_tasks = []\<rparr>"

definition ex_race :: "event list" where
  "ex_race = (let no = (\<lambda>_. False); n = Inr (replicate 12 9) in
     [Arrive (Inr (replicate 16 7)) n no [Inr [1]], Arrive (Inr (replicate 16 8)) n no [Inr [1]]] @
     replicate 7 (Run 0 no) @ replicate 8 (Run 1 no) @ [Run 0 no])"

lemma aead_run_draws [simp]: "aead_run (B\<lparr>random_cek := k, random_nonce := n\<rparr>) s ps = aead_run B s ps"
  by (induction ps arbitrary: s) simp_all

lemma ex_race_keys: "\<forall>ev \<in> set ex_race. event_ok ref_aead ev"
  using ref_aead_ok by (simp add: ex_race_def Let_def aead_ok_def CEK_LEN_def NONCE_LEN_def)

definition ex_race_end :: "(bytes, u8, bytes) content_service" where
  "ex_race_end = service_run ref_hash ref_aead ref_zstd ex_race ex_service"

lemma ex_race_replied:
  "length (sv_tasks ex_race_end) = 2"
  "list_all (\<lambda>t. case tk_phase t of Replied (Inr r) \<Rightarrow> True | _ \<Rightarrow> False) (sv_tasks ex_race_end)"
  by code_simp+

lemma ex_service_ok: "store_ok ref_hash ref_aead ref_zstd (sv_fs ex_service) (sv_ix ex_service)"
  by (simp add: ex_service_def store_ok_def indexed_sound_def)

section \<open>Properties\<close>

text \<open>C5. Publishes may run at the same time. Whatever the order in which requests arrive, their tasks run
  from one await point to the next, clients go away, the process crashes and comes back, and the
  index database goes down and up, with any file faults and any keys drawn: every blob stays filed
  under its own address, every indexed artifact keeps its blob and a key that decrypts the
  ciphertext with that address to bytes with the artifact's address; no artifact and no blob is lost;
  no two running tasks write to the same file; and every task that was answered successfully was
  given the address of its own body, for which there is now a stored blob and an indexed key. (Fewer
  than \<open>2 ^ 64\<close> events: the counter of temporary names is a \<open>u64\<close>.)\<close>

theorem concurrent_publish_safe:
  assumes "hash_api_ok H" and "aead_ok B" and "zstd_ok Z"
    and "sv_tasks s = []" and "store_ok H B Z (sv_fs s) (sv_ix s)"
    and "\<forall>ev \<in> set evs. event_ok B ev" and "unat (temp_seq (sv_fs s)) + length evs < 2 ^ 64"
    and "s' = service_run H B Z evs s"
  shows "store_ok H B Z (sv_fs s') (sv_ix s') \<and>
    pg_look H (sv_ix s) \<subseteq>\<^sub>m pg_look H (sv_ix s') \<and>
    (\<forall>h. fs_files (sv_fs s) (blob_path H h) \<noteq> None \<longrightarrow> fs_files (sv_fs s') (blob_path H h) \<noteq> None) \<and>
    (\<forall>i < length (sv_tasks s'). \<forall>j < length (sv_tasks s'). i \<noteq> j \<and> live (sv_tasks s' ! i) \<and> live (sv_tasks s' ! j) \<longrightarrow>
       sink_tmp (tk_sink (sv_tasks s' ! i)) \<noteq> sink_tmp (tk_sink (sv_tasks s' ! j))) \<and>
    (\<forall>t r. t \<in> set (sv_tasks s') \<and> tk_phase t = Replied (Inr r) \<longrightarrow>
       answer_ok H (sv_fs s') (pg_look H (sv_ix s')) (tk_body t) r)"
proof -
  have "service_ok H B Z s"
    using assms(4,5) by (simp add: service_ok_def)
  from service_run_ok [OF assms(1-3) this assms(6,7)] have ok: "service_ok H B Z s'" and g: "service_grows H s s'"
    using assms(8) by simp_all
  have "answer_ok H (sv_fs s') (pg_look H (sv_ix s')) (tk_body t) r"
    if t: "t \<in> set (sv_tasks s')" and r: "tk_phase t = Replied (Inr r)" for t r
  proof -
    obtain i where "i < length (sv_tasks s')" "t = sv_tasks s' ! i"
      using t by (auto simp: in_set_conv_nth)
    with service_task(1) [OF ok, of i] r show ?thesis by simp
  qed
  with ok g show ?thesis
    by (auto simp: service_ok_def service_grows_def)
qed

theorem concurrent_publish_safe_witness:
  "store_ok ref_hash ref_aead ref_zstd (sv_fs ex_race_end) (sv_ix ex_race_end) \<and> length (sv_tasks ex_race_end) = 2 \<and>
   (\<exists>t \<in> set (sv_tasks ex_race_end). \<exists>r. tk_phase t = Replied (Inr r) \<and>
      answer_ok ref_hash (sv_fs ex_race_end) (pg_look ref_hash (sv_ix ex_race_end)) (tk_body t) r)"
proof -
  have "sv_tasks ex_service = []" "unat (temp_seq (sv_fs ex_service)) + length ex_race < 2 ^ 64"
    by (simp_all add: ex_service_def ex_fs_def ex_race_def Let_def)
  note safe = concurrent_publish_safe [OF ref_hash_ok ref_aead_ok ref_zstd_ok this(1) ex_service_ok ex_race_keys this(2) ex_race_end_def]
  obtain t where t: "t \<in> set (sv_tasks ex_race_end)"
    using ex_race_replied(1) by (cases "sv_tasks ex_race_end") auto
  with ex_race_replied(2) have "case tk_phase t of Replied (Inr r) \<Rightarrow> True | _ \<Rightarrow> False"
    unfolding list_all_iff by blast
  then obtain r where "tk_phase t = Replied (Inr r)"
    by (simp split: phase.splits sum.splits)
  with t safe ex_race_replied(1) show ?thesis by blast
qed




text \<open>What the sequential publish promises does not hold in a race: two publishes of the same bytes are
  answered with the same inner but different outer addresses, of which the index knows only one. The
  blob of the other answer is stored, but no key for it.\<close>

lemma publish_race_two_answers:
  "case map tk_phase (sv_tasks ex_race_end) of
     [Replied (Inr r0), Replied (Inr r1)] \<Rightarrow>
       ar_inner r0 = ar_inner r1 \<and> ar_outer r0 \<noteq> ar_outer r1 \<and>
       map_option ae_outer (pg_look ref_hash (sv_ix ex_race_end) (ar_inner r0)) = Some (ar_outer r1)
   | _ \<Rightarrow> False"
  by code_simp

end
