(* ===== verification/Release_Tasks.thy ===== *)
theory Release_Tasks
  imports Releases
begin

text \<open>
  \<open>software-tower/src/releases.rs\<close>, the three handlers that write, as tasks of the asynchronous
  runtime. The handlers send their statements one by one to the connection pool, so that the
  statements of other requests can come between any two of them: a step of a task is one statement
  (\<open>component_task\<close>, \<open>vehicle_task\<close>, \<open>channel_task\<close>); only the two inserts of \<open>set_channel_target\<close> are
  one transaction and so one step. A \<open>release_event\<close> is the arrival of a request, a step of a
  task, the cancellation of one whose client went away, a crash of the process, or time passing.
\<close>

section \<open>One task\<close>

datatype release_request =
    CreateComponent NewComponentRelease
  | CreateVehicle NewVehicleRelease
  | PointChannel SetChannelTarget

datatype release_answer = Created ReleaseRef | Pointed ChannelTargetRef

datatype release_phase =
    Selecting
  | Inserting
  | Snapshotting ReleaseRef
  | AddingParts ReleaseRef "part_row list"
  | AddingMembers ReleaseRef "member_row list"
  | ReadingRow "member_row list" "(string \<times> Entity) list"
  | ReadingParts component_row member_row "member_row list" "(string \<times> Entity) list"
  | Pointing Tree
  | Ended "AppError + release_answer"
  | Abandoned

record release_task =
  rt_request :: release_request
  rt_phase :: release_phase

text \<open>\<open>create_component_release\<close>: look the identity up, insert the release, then its parts one by one.\<close>

fun component_task ::
    "'h hash_api \<Rightarrow> NewComponentRelease \<Rightarrow> database \<Rightarrow> release_phase \<Rightarrow> database \<times> release_phase" where
  "component_task H req d Selecting =
     (case find (\<lambda>r. cr_entity_path r = ncr_entity_path req \<and>
                  cr_identity_hash r = Some (component_identity H (ncr_entity_kind req) (ncr_parts req)))
             (db_components d) of
        Some row \<Rightarrow> (d, Ended (Inr (Created (component_ref d row True))))
      | None \<Rightarrow> (d, Inserting))"
| "component_task H req d Inserting =
     (case insert_component d (ncr_entity_path req) (ncr_entity_kind req) (ncr_version req)
             (component_identity H (ncr_entity_kind req) (ncr_parts req)) of
        (d1, Inl e) \<Rightarrow> (d1, Ended (Inl (db e)))
      | (d1, Inr row) \<Rightarrow>
          (d1, AddingParts (component_ref d row False)
             (map (\<lambda>p. \<lparr>pr_release_id = cr_id row, pr_part_id = np_id p, pr_part_kind = np_kind p,
                        pr_content_hash = to_prefixed H (np_content p)\<rparr>) (ncr_parts req))))"
| "component_task H req d (AddingParts ref []) = (d, Ended (Inr (Created ref)))"
| "component_task H req d (AddingParts ref (row # rows)) =
     (case insert_part d row of
        (d1, Inl e) \<Rightarrow> (d1, Ended (Inl (db e)))
      | (d1, Inr _) \<Rightarrow> (d1, AddingParts ref rows))"
| "component_task H req d ph = (d, ph)"

text \<open>\<open>create_vehicle_release\<close>: a known release may have its snapshot filled in.\<close>

fun vehicle_task ::
    "'h hash_api \<Rightarrow> NewVehicleRelease \<Rightarrow> database \<Rightarrow> release_phase \<Rightarrow> database \<times> release_phase" where
  "vehicle_task H req d Selecting =
     (case find (\<lambda>r. vr_tag r = nvr_tag req \<and>
                  vr_identity_hash r = Some (vehicle_identity H (nvr_members req) (nvr_disabled_members req)))
             (db_vehicles d) of
        Some row \<Rightarrow>
          (d, if nvr_config_snapshot req \<noteq> None then Snapshotting (vehicle_ref d row True)
              else Ended (Inr (Created (vehicle_ref d row True))))
      | None \<Rightarrow> (d, Inserting))"
| "vehicle_task H req d (Snapshotting ref) =
     (d\<lparr>db_vehicles := map (set_snapshot (rr_id ref) (nvr_config_snapshot req)) (db_vehicles d)\<rparr>,
      Ended (Inr (Created ref)))"
| "vehicle_task H req d Inserting =
     (case insert_vehicle d (nvr_tag req) (nvr_version req)
             (vehicle_identity H (nvr_members req) (nvr_disabled_members req)) (nvr_config_snapshot req) of
        (d1, Inl e) \<Rightarrow> (d1, Ended (Inl (db e)))
      | (d1, Inr row) \<Rightarrow>
          (d1, AddingMembers (vehicle_ref d row False)
             (map (\<lambda>m. \<lparr>mr_vehicle_release_id = vr_id row, mr_component_release_id = m,
                        mr_disabled = (m \<in> set (nvr_disabled_members req))\<rparr>) (nvr_members req))))"
| "vehicle_task H req d (AddingMembers ref []) = (d, Ended (Inr (Created ref)))"
| "vehicle_task H req d (AddingMembers ref (row # rows)) =
     (case insert_member d row of
        (d1, Inl e) \<Rightarrow> (d1, Ended (Inl (db e)))
      | (d1, Inr _) \<Rightarrow> (d1, AddingMembers ref rows))"
| "vehicle_task H req d ph = (d, ph)"

text \<open>\<open>set_channel_target\<close>: \<open>resolve_members_to_tree\<close> reads the members, then for each of them its
  release row and its parts; the transaction points the channel at the tree it saw.\<close>

fun channel_task ::
    "'h hash_api \<Rightarrow> SetChannelTarget \<Rightarrow> database \<Rightarrow> release_phase \<Rightarrow> database \<times> release_phase" where
  "channel_task H req d Selecting =
     (d, ReadingRow (filter (\<lambda>m. mr_vehicle_release_id m = sct_vehicle_release_id req) (db_members d)) [])"
| "channel_task H req d (ReadingRow [] kvs) = (d, Pointing \<lparr>entities = bt_collect kvs\<rparr>)"
| "channel_task H req d (ReadingRow (m # ms) kvs) =
     (case find (\<lambda>r. cr_id r = mr_component_release_id m) (db_components d) of
        None \<Rightarrow> (d, Ended (Inl (db RowNotFound)))
      | Some row \<Rightarrow> (d, ReadingParts row m ms kvs))"
| "channel_task H req d (ReadingParts row m ms kvs) =
     (let rid = mr_component_release_id m in
      case traverse (resolve_part H (sct_vehicle_release_id req) rid (cr_entity_path row))
             (filter (\<lambda>p. pr_release_id p = rid) (db_parts d)) of
        Inl e \<Rightarrow> (d, Ended (Inl (db e)))
      | Inr parts \<Rightarrow>
          (d, ReadingRow ms (kvs @ [(cr_entity_path row,
             \<lparr>e_kind = cr_entity_kind row, e_version = Some (cr_version row), e_update_mode = None,
              e_parts = parts, e_disabled = mr_disabled m, e_admin_disabled = None\<rparr>)])))"
| "channel_task H req d (Pointing tree) =
     (case point_channel H req d tree of
        (d1, Inl e) \<Rightarrow> (d1, Ended (Inl e))
      | (d1, Inr r) \<Rightarrow> (d1, Ended (Inr (Pointed r))))"
| "channel_task H req d ph = (d, ph)"

fun phase_step ::
    "'h hash_api \<Rightarrow> release_request \<Rightarrow> database \<Rightarrow> release_phase \<Rightarrow> database \<times> release_phase" where
  "phase_step H (CreateComponent req) d ph = component_task H req d ph"
| "phase_step H (CreateVehicle req) d ph = vehicle_task H req d ph"
| "phase_step H (PointChannel req) d ph = channel_task H req d ph"

section \<open>All tasks of the process\<close>

record release_service =
  rv_db :: database
  rv_tasks :: "release_task list"

datatype release_event =
    ReqArrives release_request
  | ReqRuns nat
  | ReqDropped nat
  | ProcessDies
  | TimePasses nat

fun ended_phase :: "release_phase \<Rightarrow> bool" where
  "ended_phase (Ended r) = True"
| "ended_phase Abandoned = True"
| "ended_phase _ = False"

fun requests_event :: "'h hash_api \<Rightarrow> release_event \<Rightarrow> release_service \<Rightarrow> release_service" where
  "requests_event H (ReqArrives rq) s = s\<lparr>rv_tasks := rv_tasks s @ [\<lparr>rt_request = rq, rt_phase = Selecting\<rparr>]\<rparr>"
| "requests_event H (ReqRuns i) s =
     (if i < length (rv_tasks s) then
        (let t = rv_tasks s ! i in
         case phase_step H (rt_request t) (rv_db s) (rt_phase t) of
           (d, ph) \<Rightarrow> s\<lparr>rv_db := d, rv_tasks := (rv_tasks s)[i := t\<lparr>rt_phase := ph\<rparr>]\<rparr>)
      else s)"
| "requests_event H (ReqDropped i) s =
     (if i < length (rv_tasks s) \<and> \<not> ended_phase (rt_phase (rv_tasks s ! i)) then
        s\<lparr>rv_tasks := (rv_tasks s)[i := (rv_tasks s ! i)\<lparr>rt_phase := Abandoned\<rparr>]\<rparr>
      else s)"
| "requests_event H ProcessDies s = s\<lparr>rv_tasks := []\<rparr>"
| "requests_event H (TimePasses t) s = s\<lparr>rv_db := (rv_db s)\<lparr>db_now := db_now (rv_db s) + t\<rparr>\<rparr>"

definition requests_run :: "'h hash_api \<Rightarrow> release_event list \<Rightarrow> release_service \<Rightarrow> release_service" where
  "requests_run H evs s = fold (requests_event H) evs s"

end
