(* ===== verification/Release_Races.thy ===== *)
theory Release_Races
  imports Release_Tasks Release_Props
begin

text \<open>
  Releases created and channels pointed by requests that interleave statement by statement. A task
  that inserted a release owns its id: only it adds rows to that release. That is a guarantee
  of every step (\<open>frame\<close>) and what the other tasks rely on, so a release answered as created is
  complete and stays so, and a release that was there before is never touched. What does not
  survive the interleaving is in the last section.
\<close>

section \<open>What a task may hold\<close>

definition parts_of :: "database \<Rightarrow> i64 \<Rightarrow> part_row list" where
  "parts_of d rid = filter (\<lambda>p. pr_release_id p = rid) (db_parts d)"

definition members_of :: "database \<Rightarrow> i64 \<Rightarrow> member_row list" where
  "members_of d vid = filter (\<lambda>m. mr_vehicle_release_id m = vid) (db_members d)"

definition has_component :: "database \<Rightarrow> i64 \<Rightarrow> string \<Rightarrow> string \<Rightarrow> bool" where
  "has_component d rid path ident \<longleftrightarrow>
     (\<exists>r \<in> set (db_components d). cr_id r = rid \<and> cr_entity_path r = path \<and> cr_identity_hash r = Some ident)"

definition has_vehicle :: "database \<Rightarrow> i64 \<Rightarrow> string \<Rightarrow> string \<Rightarrow> bool" where
  "has_vehicle d vid tag ident \<longleftrightarrow>
     (\<exists>r \<in> set (db_vehicles d). vr_id r = vid \<and> vr_tag r = tag \<and> vr_identity_hash r = Some ident)"

text \<open>The answer names a release with the identity asked for; one that was created, not found, has
  exactly the rows of the request.\<close>

definition component_answer :: "'h hash_api \<Rightarrow> database \<Rightarrow> NewComponentRelease \<Rightarrow> ReleaseRef \<Rightarrow> bool" where
  "component_answer H d req ref \<longleftrightarrow>
     has_component d (rr_id ref) (ncr_entity_path req) (component_identity H (ncr_entity_kind req) (ncr_parts req)) \<and>
     (\<not> rr_reused ref \<longrightarrow> parts_of d (rr_id ref) = part_rows H (rr_id ref) (ncr_parts req))"

definition vehicle_answer :: "'h hash_api \<Rightarrow> database \<Rightarrow> NewVehicleRelease \<Rightarrow> ReleaseRef \<Rightarrow> bool" where
  "vehicle_answer H d req ref \<longleftrightarrow>
     has_vehicle d (rr_id ref) (nvr_tag req) (vehicle_identity H (nvr_members req) (nvr_disabled_members req)) \<and>
     (\<not> rr_reused ref \<longrightarrow>
        members_of d (rr_id ref) = member_rows (rr_id ref) (nvr_members req) (nvr_disabled_members req))"

definition pinned :: "'h hash_api \<Rightarrow> database \<Rightarrow> i64 \<Rightarrow> string \<Rightarrow> bool" where
  "pinned H d vid th \<longleftrightarrow> (\<exists>tree. resolve_members_to_tree H d vid = Inr tree \<and> th = tree_hash H tree)"

definition pin_ok :: "'h hash_api \<Rightarrow> database \<Rightarrow> i64 \<Rightarrow> string \<Rightarrow> bool" where
  "pin_ok H d0 vid th \<longleftrightarrow>
     (vid \<in> vr_id ` set (db_vehicles d0) \<longrightarrow> pinned H d0 vid th)"

fun request_phase_ok :: "'h hash_api \<Rightarrow> database \<Rightarrow> database \<Rightarrow> release_request \<Rightarrow> release_phase \<Rightarrow> bool" where
  "request_phase_ok H d0 d (CreateComponent req) (AddingParts ref rows) \<longleftrightarrow>
     \<not> rr_reused ref \<and> rr_id ref \<notin> cr_id ` set (db_components d0) \<and>
     has_component d (rr_id ref) (ncr_entity_path req) (component_identity H (ncr_entity_kind req) (ncr_parts req)) \<and>
     parts_of d (rr_id ref) @ rows = part_rows H (rr_id ref) (ncr_parts req)"
| "request_phase_ok H d0 d (CreateComponent req) (Ended (Inr (Created ref))) \<longleftrightarrow> component_answer H d req ref"
| "request_phase_ok H d0 d (CreateVehicle req) (Snapshotting ref) \<longleftrightarrow> rr_reused ref \<and> vehicle_answer H d req ref"
| "request_phase_ok H d0 d (CreateVehicle req) (AddingMembers ref rows) \<longleftrightarrow>
     \<not> rr_reused ref \<and> rr_id ref \<notin> vr_id ` set (db_vehicles d0) \<and>
     has_vehicle d (rr_id ref) (nvr_tag req) (vehicle_identity H (nvr_members req) (nvr_disabled_members req)) \<and>
     members_of d (rr_id ref) @ rows = member_rows (rr_id ref) (nvr_members req) (nvr_disabled_members req)"
| "request_phase_ok H d0 d (CreateVehicle req) (Ended (Inr (Created ref))) \<longleftrightarrow> vehicle_answer H d req ref"
| "request_phase_ok H d0 d (PointChannel req) (ReadingRow ms kvs) \<longleftrightarrow>
     (sct_vehicle_release_id req \<in> vr_id ` set (db_vehicles d0) \<longrightarrow>
        (\<exists>done. members_of d0 (sct_vehicle_release_id req) = done @ ms \<and>
           traverse (resolve_member H d0 (sct_vehicle_release_id req)) done = Inr kvs))"
| "request_phase_ok H d0 d (PointChannel req) (ReadingParts row m ms kvs) \<longleftrightarrow>
     (sct_vehicle_release_id req \<in> vr_id ` set (db_vehicles d0) \<longrightarrow>
        find (\<lambda>r. cr_id r = mr_component_release_id m) (db_components d0) = Some row \<and>
        (\<exists>done. members_of d0 (sct_vehicle_release_id req) = done @ m # ms \<and>
           traverse (resolve_member H d0 (sct_vehicle_release_id req)) done = Inr kvs))"
| "request_phase_ok H d0 d (PointChannel req) (Pointing tree) \<longleftrightarrow> pin_ok H d0 (sct_vehicle_release_id req) (tree_hash H tree)"
| "request_phase_ok H d0 d (PointChannel req) (Ended (Inr (Pointed r))) \<longleftrightarrow>
     pin_ok H d0 (ctr_vehicle_release_id r) (ctr_tree_hash r)"
| "request_phase_ok H d0 d rq ph \<longleftrightarrow> True"

text \<open>The releases a task is filling, or has filled and answered for.\<close>

fun part_owner :: "release_request \<Rightarrow> release_phase \<Rightarrow> i64 set" where
  "part_owner (CreateComponent req) (AddingParts ref rows) = {rr_id ref}"
| "part_owner (CreateComponent req) (Ended (Inr (Created ref))) = (if rr_reused ref then {} else {rr_id ref})"
| "part_owner rq ph = {}"

fun member_owner :: "release_request \<Rightarrow> release_phase \<Rightarrow> i64 set" where
  "member_owner (CreateVehicle req) (AddingMembers ref rows) = {rr_id ref}"
| "member_owner (CreateVehicle req) (Ended (Inr (Created ref))) = (if rr_reused ref then {} else {rr_id ref})"
| "member_owner rq ph = {}"

definition frame :: "i64 set \<Rightarrow> i64 set \<Rightarrow> database \<Rightarrow> database \<Rightarrow> bool" where
  "frame P M d d' \<longleftrightarrow>
     (\<forall>rid path ident. has_component d rid path ident \<longrightarrow> has_component d' rid path ident) \<and>
     (\<forall>vid tag ident. has_vehicle d vid tag ident \<longrightarrow> has_vehicle d' vid tag ident) \<and>
     (\<forall>rid. rid \<notin> P \<longrightarrow> parts_of d' rid = parts_of d rid) \<and>
     (\<forall>vid. vid \<notin> M \<longrightarrow> members_of d' vid = members_of d vid)"

lemma frame_refl [simp]: "frame P M d d"
  by (simp add: frame_def)

lemma request_phase_ok_frame:
  assumes "request_phase_ok H d0 d rq ph" and "frame P M d d'"
    and "part_owner rq ph \<inter> P = {}" and "member_owner rq ph \<inter> M = {}"
  shows "request_phase_ok H d0 d' rq ph"
  using assms
  by (induction H d0 d rq ph rule: request_phase_ok.induct)
    (auto simp: frame_def component_answer_def vehicle_answer_def split: if_splits)

lemma has_component_id: "has_component d rid path ident \<Longrightarrow> rid \<in> cr_id ` set (db_components d)"
  by (auto simp: has_component_def)

lemma has_vehicle_id: "has_vehicle d vid tag ident \<Longrightarrow> vid \<in> vr_id ` set (db_vehicles d)"
  by (auto simp: has_vehicle_def)

lemma owners_known:
  assumes "request_phase_ok H d0 d rq ph"
  shows "part_owner rq ph \<subseteq> cr_id ` set (db_components d)" and "member_owner rq ph \<subseteq> vr_id ` set (db_vehicles d)"
  using assms
  by (induction H d0 d rq ph rule: request_phase_ok.induct)
    (auto simp: component_answer_def vehicle_answer_def dest: has_component_id has_vehicle_id)

section \<open>One step of a task\<close>

definition pins_ok :: "'h hash_api \<Rightarrow> database \<Rightarrow> database \<Rightarrow> bool" where
  "pins_ok H d0 d \<longleftrightarrow>
     (\<forall>c \<in> set (db_channels d). c \<in> set (db_channels d0) \<or> pin_ok H d0 (ct_vehicle_release_id c) (ct_tree_hash c))"

definition tables_ok :: "'h hash_api \<Rightarrow> database \<Rightarrow> database \<Rightarrow> bool" where
  "tables_ok H d0 d \<longleftrightarrow> db_wf d \<and> extends d0 d \<and> pins_ok H d0 d"

definition good ::
    "'h hash_api \<Rightarrow> database \<Rightarrow> database \<Rightarrow> release_request \<Rightarrow> release_phase \<Rightarrow> database \<times> release_phase \<Rightarrow> bool" where
  "good H d0 d rq ph p \<longleftrightarrow>
     tables_ok H d0 (fst p) \<and> request_phase_ok H d0 (fst p) rq (snd p) \<and>
     frame (part_owner rq ph) (member_owner rq ph) d (fst p) \<and>
     part_owner rq (snd p) \<subseteq> insert (db_component_seq d) (part_owner rq ph) \<and>
     member_owner rq (snd p) \<subseteq> insert (db_vehicle_seq d) (member_owner rq ph)"

lemma frame_insert_component:
  "insert_component d path kind ver ident = (d', r) \<Longrightarrow> frame P M d d' \<and> db_channels d' = db_channels d"
  by (auto simp: insert_component_def frame_def has_component_def has_vehicle_def parts_of_def members_of_def Let_def
      split: if_splits)

lemma frame_insert_vehicle:
  "insert_vehicle d tag ver ident snap = (d', r) \<Longrightarrow> frame P M d d' \<and> db_channels d' = db_channels d"
  by (auto simp: insert_vehicle_def frame_def has_component_def has_vehicle_def parts_of_def members_of_def Let_def
      split: if_splits)

lemma frame_insert_part:
  "insert_part d row = (d', r) \<Longrightarrow> pr_release_id row \<in> P \<Longrightarrow> frame P M d d' \<and> db_channels d' = db_channels d"
  by (auto simp: frame_def has_component_def has_vehicle_def parts_of_def members_of_def dest!: insert_part_cases)

lemma frame_insert_member:
  "insert_member d row = (d', r) \<Longrightarrow> mr_vehicle_release_id row \<in> M \<Longrightarrow> frame P M d d' \<and> db_channels d' = db_channels d"
  by (auto simp: frame_def has_component_def has_vehicle_def parts_of_def members_of_def dest!: insert_member_cases)

lemma frame_snapshot:
  "frame P M d (d\<lparr>db_vehicles := map (set_snapshot i s) (db_vehicles d)\<rparr>)"
proof -
  have "vr_tag (set_snapshot i s r) = vr_tag r" for r
    by (simp add: set_snapshot_def)
  then show ?thesis
    by (auto simp: frame_def has_component_def has_vehicle_def parts_of_def members_of_def)
qed

lemma extends_ids:
  assumes "extends d0 d"
  shows "cr_id ` set (db_components d0) \<subseteq> cr_id ` set (db_components d)"
    and "vr_id ` set (db_vehicles d0) \<subseteq> vr_id ` set (db_vehicles d)"
  by (rule extendsE [OF assms], auto) (rule extendsE [OF assms], auto)

lemma new_ids_unused:
  assumes "db_wf d"
  shows "parts_of d (db_component_seq d) = []" and "members_of d (db_vehicle_seq d) = []"
  using db_wf_part_ids [OF assms] db_wf_member_ids [OF assms]
  by (auto simp: parts_of_def members_of_def filter_empty_conv)

lemma good_still:
  assumes "tables_ok H d0 d" and "request_phase_ok H d0 d rq ph'"
    and "part_owner rq ph' \<subseteq> part_owner rq ph" and "member_owner rq ph' \<subseteq> member_owner rq ph"
  shows "good H d0 d rq ph (d, ph')"
  using assms by (auto simp: good_def)

lemma tables_step:
  assumes "tables_ok H d0 d" and "db_wf d'" and "extends d d'" and "db_channels d' = db_channels d"
  shows "tables_ok H d0 d'"
  using assms extends_trans by (auto simp: tables_ok_def pins_ok_def)

lemma good_insert_component:
  assumes ok: "tables_ok H d0 d"
  shows "good H d0 d (CreateComponent req) Inserting (component_task H req d Inserting)"
proof -
  let ?ident = "component_identity H (ncr_entity_kind req) (ncr_parts req)"
  obtain d1 r where i: "insert_component d (ncr_entity_path req) (ncr_entity_kind req) (ncr_version req) ?ident = (d1, r)"
    by (metis surj_pair)
  have wf: "db_wf d" and ext: "extends d0 d"
    using ok by (simp_all add: tables_ok_def)
  note frame = frame_insert_component [OF i]
  have ok1: "tables_ok H d0 d1"
    using tables_step [OF ok insert_component_wf [OF wf i] insert_component_extends [OF i]] frame by blast
  show ?thesis
  proof (cases r)
    case (Inl e)
    with i ok1 frame show ?thesis
      by (simp add: good_def)
  next
    case (Inr row)
    then have row: "row = \<lparr>cr_id = db_component_seq d, cr_entity_path = ncr_entity_path req,
        cr_entity_kind = ncr_entity_kind req, cr_version = ncr_version req, cr_identity_hash = Some ?ident,
        cr_created_at = db_now d\<rparr>" and d1: "db_components d1 = db_components d @ [row]" "db_parts d1 = db_parts d"
      using i by (auto simp: insert_component_def Let_def split: if_splits)
    have "db_component_seq d \<notin> cr_id ` set (db_components d0)"
      using db_wf_component_ids [OF wf] extends_ids(1) [OF ext] by blast
    moreover have "parts_of d1 (db_component_seq d) = []"
      using new_ids_unused(1) [OF wf] d1(2) by (simp add: parts_of_def)
    moreover have "has_component d1 (db_component_seq d) (ncr_entity_path req) ?ident"
      by (simp add: has_component_def d1(1) row)
    ultimately show ?thesis
      using i Inr ok1 frame by (simp add: good_def component_ref_def part_rows_def row)
  qed
qed

lemma good_add_part:
  assumes ok: "tables_ok H d0 d" and ph: "request_phase_ok H d0 d (CreateComponent req) (AddingParts ref (row # rows))"
  shows "good H d0 d (CreateComponent req) (AddingParts ref (row # rows)) (component_task H req d (AddingParts ref (row # rows)))"
proof -
  obtain d1 r where i: "insert_part d row = (d1, r)"
    by (metis surj_pair)
  have "row \<in> set (part_rows H (rr_id ref) (ncr_parts req))"
    using ph by (metis in_set_conv_decomp request_phase_ok.simps(1))
  then have own: "pr_release_id row = rr_id ref"
    by (auto simp: part_rows_def)
  note frame = frame_insert_part [OF i, of "{rr_id ref}"] and cases = insert_part_cases [OF i]
  have ext1: "extends d0 d1"
    using cases ok ph own extends_add_part [of d0 d row] by (auto simp: tables_ok_def)
  have ok1: "tables_ok H d0 d1"
    using ok insert_part_wf [OF _ i] ext1 frame own by (auto simp: tables_ok_def pins_ok_def)
  show ?thesis
  proof (cases r)
    case (Inl e)
    with i ok1 frame own show ?thesis
      by (simp add: good_def)
  next
    case (Inr u)
    with cases own have "parts_of d1 (rr_id ref) = parts_of d (rr_id ref) @ [row]"
      "db_components d1 = db_components d"
      by (auto simp: parts_of_def)
    with i Inr ok1 frame own ph show ?thesis
      by (auto simp: good_def has_component_def)
  qed
qed

lemma good_component:
  assumes ok: "tables_ok H d0 d" and ph: "request_phase_ok H d0 d (CreateComponent req) ph"
  shows "good H d0 d (CreateComponent req) ph (component_task H req d ph)"
proof (cases ph)
  case Selecting
  let ?P = "\<lambda>r. cr_entity_path r = ncr_entity_path req \<and>
      cr_identity_hash r = Some (component_identity H (ncr_entity_kind req) (ncr_parts req))"
  have "component_answer H d req (component_ref d row True)" if "find ?P (db_components d) = Some row" for row
    using that by (auto simp: component_answer_def component_ref_def has_component_def find_Some_iff)
  with Selecting show ?thesis
    by (auto intro!: good_still [OF ok] simp: component_ref_def split: option.splits)
next
  case Inserting
  with good_insert_component [OF ok] show ?thesis by simp
next
  case (AddingParts ref rows)
  show ?thesis
  proof (cases rows)
    case Nil
    with AddingParts ph show ?thesis
      by (auto intro!: good_still [OF ok] simp: component_answer_def)
  qed (use good_add_part [OF ok] AddingParts ph in simp)
qed (use ph in \<open>auto intro!: good_still [OF ok]\<close>)

lemma good_insert_vehicle:
  assumes ok: "tables_ok H d0 d"
  shows "good H d0 d (CreateVehicle req) Inserting (vehicle_task H req d Inserting)"
proof -
  let ?ident = "vehicle_identity H (nvr_members req) (nvr_disabled_members req)"
  obtain d1 r where i: "insert_vehicle d (nvr_tag req) (nvr_version req) ?ident (nvr_config_snapshot req) = (d1, r)"
    by (metis surj_pair)
  have wf: "db_wf d" and ext: "extends d0 d"
    using ok by (simp_all add: tables_ok_def)
  note frame = frame_insert_vehicle [OF i]
  have ok1: "tables_ok H d0 d1"
    using tables_step [OF ok insert_vehicle_wf [OF wf i] insert_vehicle_extends [OF i]] frame by blast
  show ?thesis
  proof (cases r)
    case (Inl e)
    with i ok1 frame show ?thesis
      by (simp add: good_def)
  next
    case (Inr row)
    then have row: "row = \<lparr>vr_id = db_vehicle_seq d, vr_tag = nvr_tag req, vr_version = nvr_version req,
        vr_identity_hash = Some ?ident, vr_created_at = db_now d, vr_config_snapshot = nvr_config_snapshot req\<rparr>"
      and d1: "db_vehicles d1 = db_vehicles d @ [row]" "db_members d1 = db_members d"
      using i by (auto simp: insert_vehicle_def Let_def split: if_splits)
    have "db_vehicle_seq d \<notin> vr_id ` set (db_vehicles d0)"
      using db_wf_vehicle_ids [OF wf] extends_ids(2) [OF ext] by blast
    moreover have "members_of d1 (db_vehicle_seq d) = []"
      using new_ids_unused(2) [OF wf] d1(2) by (simp add: members_of_def)
    moreover have "has_vehicle d1 (db_vehicle_seq d) (nvr_tag req) ?ident"
      by (simp add: has_vehicle_def d1(1) row)
    ultimately show ?thesis
      using i Inr ok1 frame by (simp add: good_def vehicle_ref_def member_rows_def row)
  qed
qed

lemma good_add_member:
  assumes ok: "tables_ok H d0 d" and ph: "request_phase_ok H d0 d (CreateVehicle req) (AddingMembers ref (row # rows))"
  shows "good H d0 d (CreateVehicle req) (AddingMembers ref (row # rows)) (vehicle_task H req d (AddingMembers ref (row # rows)))"
proof -
  obtain d1 r where i: "insert_member d row = (d1, r)"
    by (metis surj_pair)
  have "row \<in> set (member_rows (rr_id ref) (nvr_members req) (nvr_disabled_members req))"
    using ph by (metis in_set_conv_decomp request_phase_ok.simps(4))
  then have own: "mr_vehicle_release_id row = rr_id ref"
    by (auto simp: member_rows_def)
  note frame = frame_insert_member [OF i, of "{rr_id ref}"] and cases = insert_member_cases [OF i]
  have ext1: "extends d0 d1"
    using cases ok ph own extends_add_member [of d0 d row] by (auto simp: tables_ok_def)
  have ok1: "tables_ok H d0 d1"
    using ok insert_member_wf [OF _ i] ext1 frame own by (auto simp: tables_ok_def pins_ok_def)
  show ?thesis
  proof (cases r)
    case (Inl e)
    with i ok1 frame own show ?thesis
      by (simp add: good_def)
  next
    case (Inr u)
    with cases own have "members_of d1 (rr_id ref) = members_of d (rr_id ref) @ [row]"
      "db_vehicles d1 = db_vehicles d"
      by (auto simp: members_of_def)
    with i Inr ok1 frame own ph show ?thesis
      by (auto simp: good_def has_vehicle_def)
  qed
qed

lemma good_snapshot:
  assumes ok: "tables_ok H d0 d" and ph: "request_phase_ok H d0 d (CreateVehicle req) (Snapshotting ref)"
  shows "good H d0 d (CreateVehicle req) (Snapshotting ref) (vehicle_task H req d (Snapshotting ref))"
proof -
  let ?d1 = "d\<lparr>db_vehicles := map (set_snapshot (rr_id ref) (nvr_config_snapshot req)) (db_vehicles d)\<rparr>"
  have "tables_ok H d0 ?d1"
    using tables_step [OF ok, of ?d1] ok set_snapshot_step [of d] by (simp add: tables_ok_def)
  moreover have "frame {} {} d ?d1"
    by (rule frame_snapshot)
  moreover from this ph have "vehicle_answer H ?d1 req ref"
    by (auto simp: frame_def vehicle_answer_def)
  ultimately show ?thesis
    using ph by (simp add: good_def)
qed

lemma good_vehicle:
  assumes ok: "tables_ok H d0 d" and ph: "request_phase_ok H d0 d (CreateVehicle req) ph"
  shows "good H d0 d (CreateVehicle req) ph (vehicle_task H req d ph)"
proof (cases ph)
  case Selecting
  let ?P = "\<lambda>r. vr_tag r = nvr_tag req \<and>
      vr_identity_hash r = Some (vehicle_identity H (nvr_members req) (nvr_disabled_members req))"
  have "vehicle_answer H d req (vehicle_ref d row True)" if "find ?P (db_vehicles d) = Some row" for row
    using that by (auto simp: vehicle_answer_def vehicle_ref_def has_vehicle_def find_Some_iff)
  with Selecting show ?thesis
    by (auto intro!: good_still [OF ok] simp: vehicle_ref_def split: option.splits)
next
  case Inserting
  with good_insert_vehicle [OF ok] show ?thesis by simp
next
  case (Snapshotting ref)
  with good_snapshot [OF ok] ph show ?thesis by simp
next
  case (AddingMembers ref rows)
  show ?thesis
  proof (cases rows)
    case Nil
    with AddingMembers ph show ?thesis
      by (auto intro!: good_still [OF ok] simp: vehicle_answer_def)
  qed (use good_add_member [OF ok] AddingMembers ph in simp)
qed (use ph in \<open>auto intro!: good_still [OF ok]\<close>)

text \<open>Pointing a channel reads only releases that nobody is filling, if the release was there before.\<close>

lemma frozen_members:
  assumes "extends d0 d" and "vid \<in> vr_id ` set (db_vehicles d0)"
  shows "members_of d vid = members_of d0 vid"
proof -
  obtain ms where "db_members d = db_members d0 @ ms" "\<forall>m \<in> set ms. mr_vehicle_release_id m \<notin> vr_id ` set (db_vehicles d0)"
    by (rule extendsE [OF assms(1)])
  with assms(2) show ?thesis
    by (auto simp: members_of_def filter_empty_conv)
qed

lemma frozen_component:
  assumes "extends d0 d" and "rid \<in> cr_id ` set (db_components d0)"
  shows "find (\<lambda>r. cr_id r = rid) (db_components d) = find (\<lambda>r. cr_id r = rid) (db_components d0)"
    and "parts_of d rid = parts_of d0 rid"
proof -
  obtain cs ps where c: "db_components d = db_components d0 @ cs" "db_parts d = db_parts d0 @ ps"
    "\<forall>p \<in> set ps. pr_release_id p \<notin> cr_id ` set (db_components d0)"
    by (rule extendsE [OF assms(1)])
  have "find (\<lambda>r. cr_id r = rid) (db_components d0) \<noteq> None"
    using assms(2) by (auto simp: find_None_iff)
  with c(1) show "find (\<lambda>r. cr_id r = rid) (db_components d) = find (\<lambda>r. cr_id r = rid) (db_components d0)"
    by (auto simp: find_append)
  show "parts_of d rid = parts_of d0 rid"
    using c(2,3) assms(2) by (auto simp: parts_of_def filter_empty_conv)
qed

lemma member_component:
  assumes "db_wf d0" and "m \<in> set (members_of d0 vid)"
  shows "mr_component_release_id m \<in> cr_id ` set (db_components d0)"
  using assms by (auto simp: db_wf_def members_wf_def members_of_def)

lemma point_channel_effect:
  assumes "point_channel H req d tree = (d1, r)"
  shows "db_components d1 = db_components d" and "db_parts d1 = db_parts d" and "db_vehicles d1 = db_vehicles d"
    and "db_members d1 = db_members d"
    and "c \<in> set (db_channels d1) \<Longrightarrow> c \<in> set (db_channels d) \<or>
      ct_vehicle_release_id c = sct_vehicle_release_id req \<and> ct_tree_hash c = tree_hash H tree"
    and "r = Inr x \<Longrightarrow> ctr_vehicle_release_id x = sct_vehicle_release_id req \<and> ctr_tree_hash x = tree_hash H tree"
  using assms
  by (auto simp: point_channel_def insert_target_def upsert_channel_def Let_def res_simps split: sum.splits if_splits)

lemma good_pointing:
  assumes ok: "tables_ok H d0 d" and ph: "request_phase_ok H d0 d (PointChannel req) (Pointing tree)"
  shows "good H d0 d (PointChannel req) (Pointing tree) (channel_task H req d (Pointing tree))"
proof -
  obtain d1 r where p: "point_channel H req d tree = (d1, r)"
    by (metis surj_pair)
  note effect = point_channel_effect [OF p]
  have "pins_ok H d0 d1"
    using ok ph effect(5) by (fastforce simp: tables_ok_def pins_ok_def)
  then have "tables_ok H d0 d1"
    using ok point_channel_step [OF _ p] extends_trans by (auto simp: tables_ok_def)
  moreover have "frame {} {} d d1"
    by (simp add: frame_def has_component_def has_vehicle_def parts_of_def members_of_def effect(1-4))
  ultimately show ?thesis
    using p ph effect(6) by (cases r) (auto simp: good_def)
qed

lemma resolve_one:
  assumes "find (\<lambda>r. cr_id r = mr_component_release_id m) (db_components d) = Some row"
    and "traverse (resolve_part H vid (mr_component_release_id m) (cr_entity_path row)) (parts_of d (mr_component_release_id m)) = Inr parts"
  shows "resolve_member H d vid m = Inr (cr_entity_path row, \<lparr>e_kind = cr_entity_kind row, e_version = Some (cr_version row),
    e_update_mode = None, e_parts = parts, e_disabled = mr_disabled m, e_admin_disabled = None\<rparr>)"
  using assms by (simp add: resolve_member_def parts_of_def Let_def)

lemma good_reading_row:
  assumes wf0: "db_wf d0" and ok: "tables_ok H d0 d" and ph: "request_phase_ok H d0 d (PointChannel req) (ReadingRow ms kvs)"
  shows "good H d0 d (PointChannel req) (ReadingRow ms kvs) (channel_task H req d (ReadingRow ms kvs))"
proof (cases ms)
  case Nil
  with ph have "request_phase_ok H d0 d (PointChannel req) (Pointing \<lparr>entities = bt_collect kvs\<rparr>)"
    by (auto simp: pin_ok_def pinned_def resolve_members_to_tree_def members_of_def)
  with Nil show ?thesis
    by (auto intro!: good_still [OF ok])
next
  case (Cons m ms')
  have ext: "extends d0 d"
    using ok by (simp add: tables_ok_def)
  have "request_phase_ok H d0 d (PointChannel req) (ReadingParts row m ms' kvs)"
    if f: "find (\<lambda>r. cr_id r = mr_component_release_id m) (db_components d) = Some row" for row
  proof -
    have "find (\<lambda>r. cr_id r = mr_component_release_id m) (db_components d0) = Some row"
      if "m \<in> set (members_of d0 (sct_vehicle_release_id req))"
      using frozen_component(1) [OF ext member_component [OF wf0 that]] f by simp
    moreover have "m \<in> set (members_of d0 (sct_vehicle_release_id req))"
      if "members_of d0 (sct_vehicle_release_id req) = done @ m # ms'" for "done"
      using that by simp
    ultimately show ?thesis
      using ph unfolding Cons request_phase_ok.simps by blast
  qed
  with Cons show ?thesis
    by (auto intro!: good_still [OF ok] split: option.splits)
qed

lemma good_reading_parts:
  assumes wf0: "db_wf d0" and ok: "tables_ok H d0 d"
    and ph: "request_phase_ok H d0 d (PointChannel req) (ReadingParts row m ms kvs)"
  shows "good H d0 d (PointChannel req) (ReadingParts row m ms kvs) (channel_task H req d (ReadingParts row m ms kvs))"
proof -
  let ?vid = "sct_vehicle_release_id req" and ?rid = "mr_component_release_id m"
  let ?kv = "\<lambda>parts. (cr_entity_path row, \<lparr>e_kind = cr_entity_kind row, e_version = Some (cr_version row),
      e_update_mode = None, e_parts = parts, e_disabled = mr_disabled m, e_admin_disabled = None\<rparr>)"
  have ext: "extends d0 d"
    using ok by (simp add: tables_ok_def)
  have "request_phase_ok H d0 d (PointChannel req) (ReadingRow ms (kvs @ [?kv parts]))"
    if parts: "traverse (resolve_part H ?vid ?rid (cr_entity_path row)) (parts_of d ?rid) = Inr parts" for parts
  proof -
    have "resolve_member H d0 ?vid m = Inr (?kv parts)"
      if "m \<in> set (members_of d0 ?vid)" and "find (\<lambda>r. cr_id r = ?rid) (db_components d0) = Some row"
      using frozen_component(2) [OF ext member_component [OF wf0 that(1)]] parts resolve_one [OF that(2)] by simp
    then have "traverse (resolve_member H d0 ?vid) (done @ [m]) = Inr (kvs @ [?kv parts]) \<and>
        members_of d0 ?vid = (done @ [m]) @ ms"
      if "members_of d0 ?vid = done @ m # ms" and "find (\<lambda>r. cr_id r = ?rid) (db_components d0) = Some row"
        and "traverse (resolve_member H d0 ?vid) done = Inr kvs" for "done"
      using that by (simp add: traverse_Inr_iff list_all2_appendI)
    with ph show ?thesis
      unfolding request_phase_ok.simps by blast
  qed
  then show ?thesis
    by (auto intro!: good_still [OF ok] simp: Let_def parts_of_def split: sum.splits)
qed

lemma good_channel:
  assumes wf0: "db_wf d0" and ok: "tables_ok H d0 d" and ph: "request_phase_ok H d0 d (PointChannel req) ph"
  shows "good H d0 d (PointChannel req) ph (channel_task H req d ph)"
proof (cases ph)
  case Selecting
  have "request_phase_ok H d0 d (PointChannel req) (ReadingRow (members_of d (sct_vehicle_release_id req)) [])"
    using frozen_members [of d0 d] ok by (auto simp: tables_ok_def)
  with Selecting show ?thesis
    by (auto intro!: good_still [OF ok] simp: members_of_def)
next
  case (ReadingRow ms kvs)
  with good_reading_row [OF wf0 ok] ph show ?thesis by blast
next
  case (ReadingParts row m ms kvs)
  with good_reading_parts [OF wf0 ok] ph show ?thesis by blast
next
  case (Pointing tree)
  with good_pointing [OF ok] ph show ?thesis by blast
qed (use ph in \<open>auto intro!: good_still [OF ok]\<close>)

lemma phase_step_good:
  assumes "db_wf d0" and "tables_ok H d0 d" and "request_phase_ok H d0 d rq ph"
  shows "good H d0 d rq ph (phase_step H rq d ph)"
  using assms good_component good_vehicle good_channel by (cases rq) auto

section \<open>Any number of tasks\<close>

definition apart :: "release_task \<Rightarrow> release_task \<Rightarrow> bool" where
  "apart t u \<longleftrightarrow> part_owner (rt_request t) (rt_phase t) \<inter> part_owner (rt_request u) (rt_phase u) = {} \<and>
     member_owner (rt_request t) (rt_phase t) \<inter> member_owner (rt_request u) (rt_phase u) = {}"

definition requests_ok :: "'h hash_api \<Rightarrow> database \<Rightarrow> release_service \<Rightarrow> bool" where
  "requests_ok H d0 s \<longleftrightarrow> tables_ok H d0 (rv_db s) \<and>
     (\<forall>t \<in> set (rv_tasks s). request_phase_ok H d0 (rv_db s) (rt_request t) (rt_phase t)) \<and>
     (\<forall>i < length (rv_tasks s). \<forall>j < length (rv_tasks s). i \<noteq> j \<longrightarrow> apart (rv_tasks s ! i) (rv_tasks s ! j))"

lemma apart_commute: "apart t u \<longleftrightarrow> apart u t"
  by (auto simp: apart_def)

lemma apart_update:
  assumes "\<forall>i < length ts. \<forall>j < length ts. i \<noteq> j \<longrightarrow> apart (ts ! i) (ts ! j)"
    and "\<And>j. j < length ts \<Longrightarrow> j \<noteq> k \<Longrightarrow> apart t (ts ! j)"
  shows "\<forall>i < length (ts[k := t]). \<forall>j < length (ts[k := t]). i \<noteq> j \<longrightarrow> apart (ts[k := t] ! i) (ts[k := t] ! j)"
proof (intro allI impI)
  fix i j
  assume "i < length (ts[k := t])" and "j < length (ts[k := t])" and "i \<noteq> j"
  with assms show "apart (ts[k := t] ! i) (ts[k := t] ! j)"
    using apart_commute [of t] by (cases "i = k"; cases "j = k") simp_all
qed

lemma requests_runs_ok:
  assumes wf0: "db_wf d0" and ok: "requests_ok H d0 s" and i: "i < length (rv_tasks s)"
  shows "requests_ok H d0 (requests_event H (ReqRuns i) s)"
proof -
  let ?t = "rv_tasks s ! i"
  obtain d ph where st: "phase_step H (rt_request ?t) (rv_db s) (rt_phase ?t) = (d, ph)"
    by (metis surj_pair)
  have tok: "request_phase_ok H d0 (rv_db s) (rt_request ?t) (rt_phase ?t)" and tables: "tables_ok H d0 (rv_db s)"
    using ok i by (auto simp: requests_ok_def)
  have g: "good H d0 (rv_db s) (rt_request ?t) (rt_phase ?t) (d, ph)"
    using phase_step_good [OF wf0 tables tok] st by simp
  have others: "request_phase_ok H d0 d (rt_request u) (rt_phase u) \<and> apart (?t\<lparr>rt_phase := ph\<rparr>) u"
    if j: "j < length (rv_tasks s)" "j \<noteq> i" and u: "u = rv_tasks s ! j" for j u
  proof -
    have uok: "request_phase_ok H d0 (rv_db s) (rt_request u) (rt_phase u)" and ap: "apart ?t u"
      using ok i j by (auto simp: requests_ok_def u)
    have "db_component_seq (rv_db s) \<notin> part_owner (rt_request u) (rt_phase u)"
      "db_vehicle_seq (rv_db s) \<notin> member_owner (rt_request u) (rt_phase u)"
      using owners_known [OF uok] tables db_wf_component_ids [of "rv_db s"] db_wf_vehicle_ids [of "rv_db s"]
      by (auto simp: tables_ok_def)
    then show ?thesis
      using g ap request_phase_ok_frame [OF uok] by (fastforce simp: good_def apart_def)
  qed
  have "requests_event H (ReqRuns i) s = s\<lparr>rv_db := d, rv_tasks := (rv_tasks s)[i := ?t\<lparr>rt_phase := ph\<rparr>]\<rparr>"
    using i st by (simp add: Let_def)
  moreover have "\<forall>u \<in> set ((rv_tasks s)[i := ?t\<lparr>rt_phase := ph\<rparr>]). request_phase_ok H d0 d (rt_request u) (rt_phase u)"
    using g others i by (auto simp: good_def in_set_conv_nth nth_list_update)
  ultimately show ?thesis
    using g others apart_update [of "rv_tasks s" i "?t\<lparr>rt_phase := ph\<rparr>"] ok
    by (simp add: requests_ok_def good_def)
qed

lemma tables_tick: "tables_ok H d0 d \<Longrightarrow> tables_ok H d0 (d\<lparr>db_now := n\<rparr>)"
  by (auto simp: tables_ok_def pins_ok_def db_wf_def table_wf_defs extends_def)

lemma requests_event_ok:
  assumes "db_wf d0" and ok: "requests_ok H d0 s"
  shows "requests_ok H d0 (requests_event H ev s)"
proof (cases ev)
  case (ReqArrives rq)
  have "apart \<lparr>rt_request = rq, rt_phase = Selecting\<rparr> t" for t
    by (simp add: apart_def)
  with ReqArrives ok show ?thesis
    using apart_commute by (auto simp: requests_ok_def nth_append less_Suc_eq)
next
  case (ReqRuns i)
  with requests_runs_ok [OF assms] ok show ?thesis
    by (cases "i < length (rv_tasks s)") auto
next
  case (ReqDropped i)
  show ?thesis
  proof (cases "i < length (rv_tasks s) \<and> \<not> ended_phase (rt_phase (rv_tasks s ! i))")
    case True
    let ?t = "(rv_tasks s ! i)\<lparr>rt_phase := Abandoned\<rparr>"
    have "apart ?t u" for u
      by (simp add: apart_def)
    then show ?thesis
      using ReqDropped True ok apart_update [of "rv_tasks s" i ?t] set_update_subset_insert [of "rv_tasks s" i ?t]
      by (auto simp: requests_ok_def)
  qed (use ReqDropped ok in auto)
next
  case (TimePasses t)
  let ?d = "(rv_db s)\<lparr>db_now := db_now (rv_db s) + t\<rparr>"
  have "frame {} {} (rv_db s) ?d"
    by (simp add: frame_def has_component_def has_vehicle_def parts_of_def members_of_def)
  with TimePasses ok show ?thesis
    using request_phase_ok_frame by (fastforce simp: requests_ok_def intro: tables_tick)
qed (use ok in \<open>simp add: requests_ok_def\<close>)

lemma requests_run_ok:
  assumes "db_wf d0" and "requests_ok H d0 s"
  shows "requests_ok H d0 (requests_run H evs s)"
  using assms(2) by (induction evs arbitrary: s) (auto simp: requests_run_def requests_event_ok [OF assms(1)])

lemma requests_start:
  assumes "db_wf (rv_db s)" and "rv_tasks s = []"
  shows "requests_ok H (rv_db s) (requests_run H evs s)"
  by (rule requests_run_ok [OF assms(1)]) (simp add: assms requests_ok_def tables_ok_def pins_ok_def)

text \<open>C6. Create and channel requests whose statements interleave in any order, with requests dropped
  half way and the process dying, keep the integrity of the tables; a vehicle release that was
  there at the start resolves to the same tree; every request answered with a release got one with the
  identity it asked for, and one answered as newly created has, and keeps, exactly the parts
  or members of its request.\<close>

theorem concurrent_releases_safe:
  assumes "db_wf (rv_db s)" and "rv_tasks s = []" and "s' = requests_run H evs s"
  shows "db_wf (rv_db s') \<and>
    (\<forall>vid \<in> vr_id ` set (db_vehicles (rv_db s)).
       resolve_members_to_tree H (rv_db s') vid = resolve_members_to_tree H (rv_db s) vid) \<and>
    (\<forall>t req ref. t \<in> set (rv_tasks s') \<and> rt_request t = CreateComponent req \<and> rt_phase t = Ended (Inr (Created ref)) \<longrightarrow>
       component_answer H (rv_db s') req ref) \<and>
    (\<forall>t req ref. t \<in> set (rv_tasks s') \<and> rt_request t = CreateVehicle req \<and> rt_phase t = Ended (Inr (Created ref)) \<longrightarrow>
       vehicle_answer H (rv_db s') req ref)"
proof -
  have ok: "requests_ok H (rv_db s) s'"
    using requests_start [OF assms(1,2)] assms(3) by simp
  then have "db_wf (rv_db s')" and ext: "extends (rv_db s) (rv_db s')"
    by (simp_all add: requests_ok_def tables_ok_def)
  moreover have "\<forall>t \<in> set (rv_tasks s'). request_phase_ok H (rv_db s) (rv_db s') (rt_request t) (rt_phase t)"
    using ok by (simp add: requests_ok_def)
  ultimately show ?thesis
    using resolve_extends [OF assms(1) ext] by (metis request_phase_ok.simps(2) request_phase_ok.simps(5))
qed

text \<open>C16. Pointing a channel, interleaved with anything else, at a vehicle release that was there before
  pins the hash of the tree the release resolves to, then and later: in the answer and in the table,
  also where the client was gone before its answer.\<close>

theorem concurrent_channels_pinned:
  assumes "db_wf (rv_db s)" and "rv_tasks s = []" and "s' = requests_run H evs s"
    and "vid \<in> vr_id ` set (db_vehicles (rv_db s))"
  shows "(\<forall>c. c \<in> set (db_channels (rv_db s')) \<and> c \<notin> set (db_channels (rv_db s)) \<and> ct_vehicle_release_id c = vid \<longrightarrow>
       pinned H (rv_db s') vid (ct_tree_hash c)) \<and>
    (\<forall>t req r. t \<in> set (rv_tasks s') \<and> rt_request t = PointChannel req \<and> rt_phase t = Ended (Inr (Pointed r)) \<and>
       ctr_vehicle_release_id r = vid \<longrightarrow> pinned H (rv_db s') vid (ctr_tree_hash r))"
proof -
  have ok: "requests_ok H (rv_db s) s'"
    using requests_start [OF assms(1,2), of H evs] assms(3) by simp
  then have "extends (rv_db s) (rv_db s')"
    by (simp add: requests_ok_def tables_ok_def)
  from resolve_extends [OF assms(1) this assms(4), of H] have later: "pinned H (rv_db s') vid th" if "pin_ok H (rv_db s) vid th" for th
    using that assms(4) by (simp add: pin_ok_def pinned_def)
  have "pin_ok H (rv_db s) vid (ct_tree_hash c)"
    if "c \<in> set (db_channels (rv_db s'))" "c \<notin> set (db_channels (rv_db s))" "ct_vehicle_release_id c = vid" for c
    using ok that by (auto simp: requests_ok_def tables_ok_def pins_ok_def)
  moreover have "pin_ok H (rv_db s) vid (ctr_tree_hash r)"
    if "t \<in> set (rv_tasks s')" "rt_request t = PointChannel req" "rt_phase t = Ended (Inr (Pointed r))"
      "ctr_vehicle_release_id r = vid" for t req r
    using ok that by (force simp: requests_ok_def)
  ultimately show ?thesis
    using later by blast
qed

section \<open>A request that runs alone\<close>

fun run_alone ::
    "'h hash_api \<Rightarrow> release_request \<Rightarrow> nat \<Rightarrow> database \<Rightarrow> release_phase \<Rightarrow> database \<times> release_phase" where
  "run_alone H rq 0 d ph = (d, ph)"
| "run_alone H rq (Suc n) d ph = (case phase_step H rq d ph of (d1, ph1) \<Rightarrow> run_alone H rq n d1 ph1)"

declare run_alone.simps(2) [simp del]

lemma run_alone_ended [simp]: "run_alone H rq n d (Ended r) = (d, Ended r)"
  by (induction n; cases rq) (simp_all add: run_alone.simps(2))

lemma alone_parts:
  "run_alone H (CreateComponent req) (Suc (length rows + n)) d (AddingParts ref rows) =
     (case insert_all insert_part rows d of
        (d1, Inl e) \<Rightarrow> (d1, Ended (Inl (db e)))
      | (d1, Inr _) \<Rightarrow> (d1, Ended (Inr (Created ref))))"
proof (induction rows arbitrary: d)
  case (Cons row rows)
  have "run_alone H (CreateComponent req) (Suc (length (row # rows) + n)) d (AddingParts ref (row # rows)) =
      (case insert_part d row of
         (d1, Inl e) \<Rightarrow> (d1, Ended (Inl (db e)))
       | (d1, Inr _) \<Rightarrow> run_alone H (CreateComponent req) (Suc (length rows + n)) d1 (AddingParts ref rows))"
    by (simp add: run_alone.simps(2) [of H "CreateComponent req" "Suc (length rows + n)"] split: prod.splits sum.splits)
  then show ?case
    by (simp add: Cons.IH split: prod.splits sum.splits)
qed (simp add: run_alone.simps(2))

lemma alone_members:
  "run_alone H (CreateVehicle req) (Suc (length rows + n)) d (AddingMembers ref rows) =
     (case insert_all insert_member rows d of
        (d1, Inl e) \<Rightarrow> (d1, Ended (Inl (db e)))
      | (d1, Inr _) \<Rightarrow> (d1, Ended (Inr (Created ref))))"
proof (induction rows arbitrary: d)
  case (Cons row rows)
  have "run_alone H (CreateVehicle req) (Suc (length (row # rows) + n)) d (AddingMembers ref (row # rows)) =
      (case insert_member d row of
         (d1, Inl e) \<Rightarrow> (d1, Ended (Inl (db e)))
       | (d1, Inr _) \<Rightarrow> run_alone H (CreateVehicle req) (Suc (length rows + n)) d1 (AddingMembers ref rows))"
    by (simp add: run_alone.simps(2) [of H "CreateVehicle req" "Suc (length rows + n)"] split: prod.splits sum.splits)
  then show ?case
    by (simp add: Cons.IH split: prod.splits sum.splits)
qed (simp add: run_alone.simps(2))

lemma alone_component:
  "run_alone H (CreateComponent req) (length (ncr_parts req) + 3) d Selecting =
     (case create_component_release H d req of (d', r) \<Rightarrow> (d', Ended (map_sum (\<lambda>e. e) Created r)))"
proof -
  let ?n = "length (ncr_parts req)" and ?rq = "CreateComponent req"
  note steps = run_alone.simps(2) [of H ?rq "Suc (Suc ?n)"] run_alone.simps(2) [of H ?rq "Suc ?n"]
    and parts = alone_parts [where rows = "map f (ncr_parts req)" and n = 0 for f, simplified]
  have n: "?n + 3 = Suc (Suc (Suc ?n))"
    by simp
  show ?thesis
    unfolding n by (auto simp: steps parts create_component_release_def Let_def split: option.splits prod.splits sum.splits)
qed

lemma alone_vehicle:
  "run_alone H (CreateVehicle req) (length (nvr_members req) + 3) d Selecting =
     (case create_vehicle_release H d req of (d', r) \<Rightarrow> (d', Ended (map_sum (\<lambda>e. e) Created r)))"
proof -
  let ?n = "length (nvr_members req)" and ?rq = "CreateVehicle req"
  note steps = run_alone.simps(2) [of H ?rq "Suc (Suc ?n)"] run_alone.simps(2) [of H ?rq "Suc ?n"]
    and members = alone_members [where rows = "map f (nvr_members req)" and n = 0 for f, simplified]
  have n: "?n + 3 = Suc (Suc (Suc ?n))"
    by simp
  show ?thesis
    unfolding n by (auto simp: steps members create_vehicle_release_def vehicle_ref_def Let_def split: option.splits prod.splits sum.splits)
qed

lemma alone_rows:
  "run_alone H (PointChannel req) (Suc (Suc (2 * length ms + n))) d (ReadingRow ms kvs) =
     (case traverse (resolve_member H d (sct_vehicle_release_id req)) ms of
        Inl e \<Rightarrow> (d, Ended (Inl (db e)))
      | Inr kvs' \<Rightarrow>
          (case point_channel H req d \<lparr>entities = bt_collect (kvs @ kvs')\<rparr> of
             (d1, r) \<Rightarrow> (d1, Ended (map_sum (\<lambda>e. e) Pointed r))))"
proof (induction ms arbitrary: kvs)
  case Nil
  show ?case
    by (simp add: run_alone.simps(2) split: prod.splits sum.splits)
next
  case (Cons m ms)
  have "run_alone H (PointChannel req) (Suc (Suc (2 * length (m # ms) + n))) d (ReadingRow (m # ms) kvs) =
      (case resolve_member H d (sct_vehicle_release_id req) m of
         Inl e \<Rightarrow> (d, Ended (Inl (db e)))
       | Inr kv \<Rightarrow> run_alone H (PointChannel req) (Suc (Suc (2 * length ms + n))) d (ReadingRow ms (kvs @ [kv])))"
    by (simp add: run_alone.simps(2) [of H "PointChannel req" "Suc (Suc (Suc (2 * length ms + n)))"]
        run_alone.simps(2) [of H "PointChannel req" "Suc (Suc (2 * length ms + n))"] resolve_member_def Let_def res_simps
        split: option.splits sum.splits)
  then show ?case
    by (auto simp: Cons.IH split: sum.splits)
qed

lemma alone_channel:
  "run_alone H (PointChannel req) (2 * length (members_of d (sct_vehicle_release_id req)) + 3) d Selecting =
     (case set_channel_target H d req of (d', r) \<Rightarrow> (d', Ended (map_sum (\<lambda>e. e) Pointed r)))"
proof -
  let ?ms = "members_of d (sct_vehicle_release_id req)"
  have n: "2 * length ?ms + 3 = Suc (Suc (Suc (2 * length ?ms + 0)))"
    by simp
  have first: "channel_task H req d Selecting = (d, ReadingRow ?ms [])"
    by (simp add: members_of_def)
  have tree: "resolve_members_to_tree H d (sct_vehicle_release_id req) =
      try_bind (traverse (resolve_member H d (sct_vehicle_release_id req)) ?ms) (\<lambda>kvs. Inr \<lparr>entities = bt_collect kvs\<rparr>)"
    by (simp add: resolve_members_to_tree_def members_of_def)
  show ?thesis
    unfolding n run_alone.simps(2) [of H "PointChannel req" "Suc (Suc (2 * length ?ms + 0))"]
      phase_step.simps first prod.case alone_rows set_channel_target_def tree
    by (cases "traverse (resolve_member H d (sct_vehicle_release_id req)) ?ms") simp_all
qed


section \<open>Two requests at once\<close>

definition ex_requests :: release_service where
  "ex_requests = \<lparr>rv_db = ex_db, rv_tasks = []\<rparr>"

definition ex_creq2 :: NewComponentRelease where
  "ex_creq2 = ex_creq\<lparr>ncr_entity_path := ''vm2''\<rparr>"

definition ex_interleaved :: "release_event list" where
  "ex_interleaved = [ReqArrives (CreateComponent ex_creq), ReqArrives (CreateComponent ex_creq2)] @
     concat (replicate 5 [ReqRuns 0, ReqRuns 1])"

lemma ex_interleaved_answers:
  "map rt_phase (rv_tasks (requests_run ref_hash ex_interleaved ex_requests)) =
     [Ended (Inr (Created \<lparr>rr_id = 1, rr_version = ''1'', rr_created_at = ''100'', rr_reused = False\<rparr>)),
      Ended (Inr (Created \<lparr>rr_id = 2, rr_version = ''1'', rr_created_at = ''100'', rr_reused = False\<rparr>))]"
  by code_simp

lemma ex_interleaved_requests:
  "map rt_request (rv_tasks (requests_run ref_hash ex_interleaved ex_requests)) =
     [CreateComponent ex_creq, CreateComponent ex_creq2]"
  by code_simp

theorem concurrent_releases_safe_witness:
  "db_wf (rv_db (requests_run ref_hash ex_interleaved ex_requests)) \<and>
   component_answer ref_hash (rv_db (requests_run ref_hash ex_interleaved ex_requests)) ex_creq2
     \<lparr>rr_id = 2, rr_version = ''1'', rr_created_at = ''100'', rr_reused = False\<rparr>"
proof -
  let ?s = "requests_run ref_hash ex_interleaved ex_requests"
  have start: "db_wf (rv_db ex_requests)" "rv_tasks ex_requests = []"
    by (simp_all add: ex_requests_def ex_db_wf)
  note safe = concurrent_releases_safe [OF start, of ?s ref_hash ex_interleaved]
  have two: "length (rv_tasks ?s) = 2"
    using ex_interleaved_answers by (metis length_map length_Cons list.size(3) numeral_2_eq_2)
  have "rt_phase (rv_tasks ?s ! 1) =
      Ended (Inr (Created \<lparr>rr_id = 2, rr_version = ''1'', rr_created_at = ''100'', rr_reused = False\<rparr>))"
    using arg_cong [OF ex_interleaved_answers, of "\<lambda>xs. xs ! 1"] two by simp
  moreover have "rt_request (rv_tasks ?s ! 1) = CreateComponent ex_creq2"
    using arg_cong [OF ex_interleaved_requests, of "\<lambda>xs. xs ! 1"] two by simp
  moreover have "rv_tasks ?s ! 1 \<in> set (rv_tasks ?s)"
    using two by simp
  ultimately show ?thesis
    using safe by blast
qed

definition ex_pointing :: "release_event list" where
  "ex_pointing = [ReqArrives (PointChannel \<lparr>sct_channel = ''stable'', sct_device = ''cvc'', sct_architecture = ''arm64'',
       sct_vehicle_release_id = 0\<rparr>), ReqArrives (CreateComponent ex_creq), ReqRuns 0, ReqRuns 1, ReqRuns 1, ReqRuns 0,
     ReqRuns 1, ReqRuns 0]"

lemma ex_pointing_channels:
  "map (\<lambda>c. (ct_channel c, ct_vehicle_release_id c))
     (db_channels (rv_db (requests_run ref_hash ex_pointing \<lparr>rv_db = ex_db_v, rv_tasks = []\<rparr>))) = [(''stable'', 0)]"
  by code_simp

theorem concurrent_channels_pinned_witness:
  "\<exists>c \<in> set (db_channels (rv_db (requests_run ref_hash ex_pointing \<lparr>rv_db = ex_db_v, rv_tasks = []\<rparr>))).
     pinned ref_hash (rv_db (requests_run ref_hash ex_pointing \<lparr>rv_db = ex_db_v, rv_tasks = []\<rparr>)) 0 (ct_tree_hash c)"
proof -
  let ?s = "\<lparr>rv_db = ex_db_v, rv_tasks = []\<rparr>"
  have start: "db_wf (rv_db ?s)" "rv_tasks ?s = []" "0 \<in> vr_id ` set (db_vehicles (rv_db ?s))"
    "db_channels (rv_db ?s) = []"
    by (simp_all add: ex_db_v_wf, simp_all add: ex_db_v_def ex_db_def)
  from concurrent_channels_pinned [OF start(1,2) refl start(3), of ref_hash ex_pointing] ex_pointing_channels
  show ?thesis
    using start(4) by auto
qed

text \<open>Two creates of the same content at the same time: both look for the identity before either has
  inserted it, and the one that comes second is answered with an internal error instead of the release of
  the first.\<close>

lemma release_race_conflict:
  "map rt_phase (rv_tasks (requests_run ref_hash
      ([ReqArrives (CreateComponent ex_creq), ReqArrives (CreateComponent ex_creq)] @
       concat (replicate 5 [ReqRuns 0, ReqRuns 1])) ex_requests)) =
     [Ended (Inr (Created \<lparr>rr_id = 1, rr_version = ''1'', rr_created_at = ''100'', rr_reused = False\<rparr>)),
      Ended (Inl (Internal ''unique violation: component_releases_identity''))]"
  by code_simp

text \<open>A create whose row is in the table but whose parts are not yet is found by a second create of
  the same content, which is answered with the release at once. A vehicle release made of it and a channel
  pointed at that pin the hash of a tree without parts; when the first create is done, the
  release resolves to another tree than the one that is pinned.\<close>

definition ex_stale :: "release_event list" where
  "ex_stale = [ReqArrives (CreateComponent ex_creq), ReqRuns 0, ReqRuns 0,
     ReqArrives (CreateComponent ex_creq), ReqRuns 1,
     ReqArrives (CreateVehicle \<lparr>nvr_tag = ''car'', nvr_version = ''1'', nvr_members = [1], nvr_disabled_members = [],
       nvr_config_snapshot = None\<rparr>), ReqRuns 2, ReqRuns 2, ReqRuns 2, ReqRuns 2,
     ReqArrives (PointChannel \<lparr>sct_channel = ''stable'', sct_device = ''cvc'', sct_architecture = ''arm64'',
       sct_vehicle_release_id = 1\<rparr>), ReqRuns 3, ReqRuns 3, ReqRuns 3, ReqRuns 3, ReqRuns 3,
     ReqRuns 0, ReqRuns 0, ReqRuns 0]"

lemma release_race_stale_pin:
  "let s = requests_run ref_hash ex_stale ex_requests in
     list_all (\<lambda>t. case rt_phase t of Ended (Inr _) \<Rightarrow> True | _ \<Rightarrow> False) (rv_tasks s) \<and>
     (case (db_channels (rv_db s), resolve_members_to_tree ref_hash (rv_db s) 1) of
        ([c], Inr tree) \<Rightarrow> ct_vehicle_release_id c = 1 \<and> ct_tree_hash c \<noteq> tree_hash ref_hash tree
      | _ \<Rightarrow> False)"
  by code_simp

end
